(* ===== verification/Prelude.thy ===== *)
theory Prelude
  imports Main "HOL-Library.List_Lexorder" "HOL-Library.Char_ord" "HOL-Library.AList" "HOL-Library.Multiset"
begin

text \<open>
  Shared vocabulary of the StellarRisk model: the result-and-state combinators that stand for
  Rust's \<open>?\<close> operator, the string helpers of the Rust standard library that the program calls,
  ordered and deduplicated vectors, and the collections of facts the component theories use.

  A Rust \<open>String\<close> is its UTF-8 byte sequence, one \<open>char\<close> per byte. Comparison, concatenation,
  \<open>len\<close>, \<open>replace\<close> and \<open>split\<close> on ASCII patterns are byte operations; the operations that go
  character by character (\<open>chars\<close>, \<open>trim\<close>) first group the bytes into encoded characters.
\<close>

named_theorems preserve_rules \<open>how operations keep a relation between the state before and after\<close>

section \<open>Results and state\<close>

type_synonym ('e, 'a) result = "'e + 'a"
type_synonym ('s, 'e, 'a) action = "'s \<Rightarrow> ('e + 'a) \<times> 's"

text \<open>\<open>m?\<close> followed by the rest of the function: an error returns early with the state reached.\<close>

definition and_then :: "('s, 'e, 'a) action \<Rightarrow> ('a \<Rightarrow> ('s, 'e, 'b) action) \<Rightarrow> ('s, 'e, 'b) action" where
  "and_then m k s = (case m s of (Inl e, s') \<Rightarrow> (Inl e, s') | (Inr x, s') \<Rightarrow> k x s')"

definition ok :: "'a \<Rightarrow> ('s, 'e, 'a) action" where
  "ok x s = (Inr x, s)"

definition err :: "'e \<Rightarrow> ('s, 'e, 'a) action" where
  "err e s = (Inl e, s)"

text \<open>\<open>map_err\<close> on the outcome of an effectful call.\<close>

definition map_err_act :: "('e \<Rightarrow> 'f) \<Rightarrow> ('s, 'e, 'a) action \<Rightarrow> ('s, 'f, 'a) action" where
  "map_err_act f m s = (case m s of (Inl e, s') \<Rightarrow> (Inl (f e), s') | (Inr x, s') \<Rightarrow> (Inr x, s'))"

text \<open>A pure \<open>Result\<close> in an effectful function.\<close>

definition lift_res :: "'e + 'a \<Rightarrow> ('s, 'e, 'a) action" where
  "lift_res r s = (r, s)"

definition ok_or :: "'e \<Rightarrow> 'a option \<Rightarrow> 'e + 'a" where
  "ok_or e x = (case x of None \<Rightarrow> Inl e | Some y \<Rightarrow> Inr y)"

definition map_err :: "('e \<Rightarrow> 'f) \<Rightarrow> 'e + 'a \<Rightarrow> 'f + 'a" where
  "map_err f r = (case r of Inl e \<Rightarrow> Inl (f e) | Inr x \<Rightarrow> Inr x)"

definition res_bind :: "'e + 'a \<Rightarrow> ('a \<Rightarrow> 'e + 'b) \<Rightarrow> 'e + 'b" where
  "res_bind r k = (case r of Inl e \<Rightarrow> Inl e | Inr x \<Rightarrow> k x)"

text \<open>\<open>iter().map(f).collect::<Result<Vec<_>, _>>()\<close>: the first error wins.\<close>

fun collect_results :: "('a \<Rightarrow> 'e + 'b) \<Rightarrow> 'a list \<Rightarrow> 'e + 'b list" where
  "collect_results f [] = Inr []"
| "collect_results f (x # xs) =
     (case f x of Inl e \<Rightarrow> Inl e
      | Inr y \<Rightarrow> (case collect_results f xs of Inl e \<Rightarrow> Inl e | Inr ys \<Rightarrow> Inr (y # ys)))"

text \<open>\<open>Option<Result<..>>::transpose\<close>.\<close>

definition transpose_opt :: "('a \<Rightarrow> 'e + 'b) \<Rightarrow> 'a option \<Rightarrow> 'e + 'b option" where
  "transpose_opt f x = (case x of None \<Rightarrow> Inr None
     | Some y \<Rightarrow> (case f y of Inl e \<Rightarrow> Inl e | Inr z \<Rightarrow> Inr (Some z)))"

lemma ok_simp [simp]: "ok x s = (Inr x, s)" by (simp add: ok_def)
lemma err_simp [simp]: "err e s = (Inl e, s)" by (simp add: err_def)
lemma lift_res_simp [simp]: "lift_res r s = (r, s)" by (simp add: lift_res_def)
lemma ok_or_simps [simp]: "ok_or e None = Inl e" "ok_or e (Some y) = Inr y"
  by (simp_all add: ok_or_def)
lemma map_err_simps [simp]: "map_err f (Inl e) = Inl (f e)" "map_err f (Inr x) = Inr x"
  by (simp_all add: map_err_def)
lemma res_bind_simps [simp]: "res_bind (Inl e) k = Inl e" "res_bind (Inr x) k = k x"
  by (simp_all add: res_bind_def)
lemma transpose_opt_simps [simp]:
  "transpose_opt f None = Inr None"
  "f y = Inr z \<Longrightarrow> transpose_opt f (Some y) = Inr (Some z)"
  "f y = Inl e \<Longrightarrow> transpose_opt f (Some y) = Inl e"
  by (simp_all add: transpose_opt_def)

lemma map_err_Inr_iff [simp]: "map_err f r = Inr x \<longleftrightarrow> r = Inr x"
  by (cases r) simp_all

lemma res_bind_Inr_iff: "res_bind r k = Inr y \<longleftrightarrow> (\<exists>x. r = Inr x \<and> k x = Inr y)"
  by (cases r) simp_all

lemma and_then_Inr: "m s = (Inr x, s') \<Longrightarrow> and_then m k s = k x s'"
  by (simp add: and_then_def)

lemma and_then_Inl: "m s = (Inl e, s') \<Longrightarrow> and_then m k s = (Inl e, s')"
  by (simp add: and_then_def)

lemma and_then_simps [simp]:
  "and_then (ok x) k s = k x s"
  "and_then (err e) k s = (Inl e, s)"
  "and_then (lift_res (Inr x)) k s = k x s"
  "and_then (lift_res (Inl e)) k s = (Inl e, s)"
  by (simp_all add: and_then_def)

text \<open>Inversion: where an early-returning call can have ended.\<close>

lemma and_then_cases:
  assumes "and_then m k s = (r, t)"
  obtains (early) e where "m s = (Inl e, t)" "r = Inl e"
    | (cont) x s' where "m s = (Inr x, s')" "k x s' = (r, t)"
  using assms by (auto simp: and_then_def split: prod.splits sum.splits)

lemma and_then_InrE:
  assumes "and_then m k s = (Inr y, t)"
  obtains x s' where "m s = (Inr x, s')" "k x s' = (Inr y, t)"
  using assms by (auto elim: and_then_cases)

lemma map_err_act_cases:
  assumes "map_err_act f m s = (r, t)"
  obtains (bad) e where "m s = (Inl e, t)" "r = Inl (f e)"
    | (good) x where "m s = (Inr x, t)" "r = Inr x"
  using assms by (auto simp: map_err_act_def split: prod.splits sum.splits)

lemma map_err_act_Inr: "m s = (Inr x, s') \<Longrightarrow> map_err_act f m s = (Inr x, s')"
  by (simp add: map_err_act_def)

lemma map_err_act_Inl: "m s = (Inl e, s') \<Longrightarrow> map_err_act f m s = (Inl (f e), s')"
  by (simp add: map_err_act_def)

lemma collect_results_Inr_iff:
  "collect_results f xs = Inr ys \<longleftrightarrow> list_all2 (\<lambda>x y. f x = Inr y) xs ys"
proof (induction xs arbitrary: ys)
  case Nil
  then show ?case by auto
next
  case (Cons x xs)
  show ?case
    by (cases ys; cases "f x"; cases "collect_results f xs") (auto simp: Cons.IH [symmetric])
qed

lemma collect_results_map: "(\<And>x. x \<in> set xs \<Longrightarrow> f (g x) = Inr x) \<Longrightarrow> collect_results f (map g xs) = Inr xs"
  by (induction xs) auto

section \<open>Relations that operations keep\<close>

text \<open>
  \<open>preserves R m\<close>: whatever its outcome, \<open>m\<close> leads to a state related by \<open>R\<close> to the one before.
  For a preorder \<open>R\<close> this composes along the control flow of a function, early returns included;
  an interpretation of the locale puts the rules for its relation into \<open>preserve_rules\<close>.
\<close>

definition preserves :: "('s \<Rightarrow> 's \<Rightarrow> bool) \<Rightarrow> ('s, 'e, 'a) action \<Rightarrow> bool" where
  "preserves R m \<longleftrightarrow> (\<forall>s r t. m s = (r, t) \<longrightarrow> R s t)"

lemma preservesI: "(\<And>s r t. m s = (r, t) \<Longrightarrow> R s t) \<Longrightarrow> preserves R m"
  by (simp add: preserves_def)

lemma preservesD: "preserves R m \<Longrightarrow> m s = (r, t) \<Longrightarrow> R s t"
  by (simp add: preserves_def)

lemma preserves_snd: "preserves R m \<Longrightarrow> R s (snd (m s))"
  by (cases "m s") (simp add: preserves_def)

lemma preserves_map_err [preserve_rules]: "preserves R m \<Longrightarrow> preserves R (map_err_act f m)"
  by (auto simp: preserves_def elim!: map_err_act_cases)

lemma preserves_mono: "preserves R m \<Longrightarrow> (\<And>s t. R s t \<Longrightarrow> R' s t) \<Longrightarrow> preserves R' m"
  by (simp add: preserves_def)

locale state_preorder =
  fixes R :: "'s \<Rightarrow> 's \<Rightarrow> bool"
  assumes refl: "R s s" and trans: "R s t \<Longrightarrow> R t u \<Longrightarrow> R s u"
begin

lemma keeps_pure [preserve_rules]: "preserves R (ok x)" "preserves R (err e)" "preserves R (lift_res r)"
  by (auto simp: preserves_def ok_def err_def lift_res_def refl)

lemma keeps_and_then [preserve_rules]:
  "preserves R m \<Longrightarrow> (\<And>x. preserves R (k x)) \<Longrightarrow> preserves R (and_then m k)"
proof (rule preservesI)
  fix s r t assume m: "preserves R m" and k: "\<And>x. preserves R (k x)" and run: "and_then m k s = (r, t)"
  from run show "R s t"
  proof (cases rule: and_then_cases)
    case (early e)
    then show ?thesis using preservesD [OF m] by blast
  next
    case (cont x s')
    then show ?thesis using trans [OF preservesD [OF m] preservesD [OF k]] by blast
  qed
qed

lemma keeps_if [preserve_rules]: "preserves R m \<Longrightarrow> preserves R n \<Longrightarrow> preserves R (if b then m else n)"
  by simp

end

section \<open>Ordered and deduplicated vectors\<close>

text \<open>\<open>Vec::dedup\<close> on a sorted vector is \<open>remdups_adj\<close>; \<open>dedup_by_key\<close> keeps the first of a run.\<close>

fun dedup_by_key :: "('a \<Rightarrow> 'k) \<Rightarrow> 'a list \<Rightarrow> 'a list" where
  "dedup_by_key f [] = []"
| "dedup_by_key f [x] = [x]"
| "dedup_by_key f (x # y # xs) =
     (if f x = f y then dedup_by_key f (x # xs) else x # dedup_by_key f (y # xs))"

definition sort_dedup :: "'a::linorder list \<Rightarrow> 'a list" where
  "sort_dedup xs = remdups_adj (sort xs)"

text \<open>\<open>ORDER BY k DESC\<close> and \<open>sort_by_key(Reverse(k))\<close>: a stable descending sort.\<close>

definition sort_desc_key :: "('a \<Rightarrow> 'k::linorder) \<Rightarrow> 'a list \<Rightarrow> 'a list" where
  "sort_desc_key f xs = rev (sort_key f (rev xs))"

lemma set_sort_dedup [simp]: "set (sort_dedup xs) = set xs"
  by (simp add: sort_dedup_def)

lemma sorted_sort_dedup [simp]: "sorted (sort_dedup xs)"
  by (simp add: sort_dedup_def sorted_remdups_adj)

lemma distinct_remdups_adj_sorted: "sorted xs \<Longrightarrow> distinct (remdups_adj xs)"
  by (induction xs rule: remdups_adj.induct) auto

lemma distinct_sort_dedup [simp]: "distinct (sort_dedup xs)"
  by (simp add: sort_dedup_def distinct_remdups_adj_sorted)

lemma sort_dedup_cong: "set xs = set ys \<Longrightarrow> sort_dedup xs = sort_dedup ys"
  by (rule sorted_distinct_set_unique) simp_all

lemma set_sort_desc_key [simp]: "set (sort_desc_key f xs) = set xs"
  by (simp add: sort_desc_key_def)

lemma length_sort_desc_key [simp]: "length (sort_desc_key f xs) = length xs"
  by (simp add: sort_desc_key_def)

lemma dedup_by_key_hd: "xs \<noteq> [] \<Longrightarrow> \<exists>ys. dedup_by_key f xs = hd xs # ys"
  by (induction f xs rule: dedup_by_key.induct) auto

lemma set_dedup_by_key_subset: "set (dedup_by_key f xs) \<subseteq> set xs"
  by (induction f xs rule: dedup_by_key.induct) auto

lemma map_dedup_by_key: "map f (dedup_by_key f xs) = remdups_adj (map f xs)"
  by (induction f xs rule: dedup_by_key.induct) auto

lemma dedup_by_key_sorted:
  "distinct (map f (dedup_by_key f (sort_key f xs)))"
  by (simp add: map_dedup_by_key distinct_remdups_adj_sorted)

lemma image_dedup_by_key: "f ` set (dedup_by_key f xs) = f ` set xs"
proof -
  have "set (map f (dedup_by_key f xs)) = set (map f xs)"
    by (simp only: map_dedup_by_key remdups_adj_set)
  then show ?thesis by simp
qed

end
