(* ===== verification/RustStr.thy ===== *)
theory RustStr
  imports Prelude
begin

text \<open>
  The \<open>str\<close> and integer-parsing methods of the Rust standard library that the program calls,
  on UTF-8 byte strings: decimal printing and parsing, \<open>contains\<close>, \<open>replace\<close>, \<open>split\<close>,
  \<open>strip_prefix\<close>, \<open>chars\<close>, \<open>trim\<close>, \<open>to_ascii_lowercase\<close> and slicing at byte offsets.
\<close>

section \<open>Decimal printing and parsing\<close>

definition digit_char :: "nat \<Rightarrow> char" where
  "digit_char d = char_of (48 + d)"

fun show_nat :: "nat \<Rightarrow> string" where
  "show_nat n = (if n < 10 then [digit_char n] else show_nat (n div 10) @ [digit_char (n mod 10)])"

declare show_nat.simps [simp del]

definition show_int :: "int \<Rightarrow> string" where
  "show_int i = (if i < 0 then CHR ''-'' # show_nat (nat (- i)) else show_nat (nat i))"

definition is_digit :: "char \<Rightarrow> bool" where
  "is_digit c \<longleftrightarrow> 48 \<le> (of_char c :: nat) \<and> (of_char c :: nat) \<le> 57"

definition digits_val :: "string \<Rightarrow> nat" where
  "digits_val s = foldl (\<lambda>n c. 10 * n + (of_char c - 48)) 0 s"

text \<open>\<open>parse::<uN>()\<close>: an optional plus sign, at least one digit, no overflow.\<close>

definition parse_digits :: "string \<Rightarrow> nat option" where
  "parse_digits s = (if s \<noteq> [] \<and> list_all is_digit s then Some (digits_val s) else None)"

definition parse_unsigned :: "nat \<Rightarrow> string \<Rightarrow> nat option" where
  "parse_unsigned bits s =
     (case parse_digits (case s of c # t \<Rightarrow> if c = CHR ''+'' then t else s | [] \<Rightarrow> s) of
        None \<Rightarrow> None
      | Some n \<Rightarrow> if n < 2 ^ bits then Some n else None)"

text \<open>
  \<open>parse::<i64>()\<close> with its error texts: an optional sign, then digit by digit, an invalid digit
  being reported before an overflow at the same position.
\<close>

fun parse_magnitude :: "nat \<Rightarrow> string \<Rightarrow> nat \<Rightarrow> string \<Rightarrow> string + nat" where
  "parse_magnitude bound overflow acc [] = Inr acc"
| "parse_magnitude bound overflow acc (c # cs) =
     (if \<not> is_digit c then Inl ''invalid digit found in string''
      else let v = 10 * acc + (of_char c - 48)
           in if v > bound then Inl overflow else parse_magnitude bound overflow v cs)"

definition parse_i64 :: "string \<Rightarrow> string + int" where
  "parse_i64 s =
     (if s = [] then Inl ''cannot parse integer from empty string''
      else if s = ''-'' \<or> s = ''+'' then Inl ''invalid digit found in string''
      else if hd s = CHR ''-''
        then map_sum id (\<lambda>n. - int n) (parse_magnitude (2 ^ 63) ''number too small to fit in target type'' 0 (tl s))
      else map_sum id int
        (parse_magnitude (2 ^ 63 - 1) ''number too large to fit in target type'' 0 (if hd s = CHR ''+'' then tl s else s)))"

abbreviation parse_usize :: "string \<Rightarrow> nat option" where
  "parse_usize \<equiv> parse_unsigned 64"

lemma of_char_digit_char [simp]: "d < 10 \<Longrightarrow> of_char (digit_char d) = (48 + d :: nat)"
  by (simp add: digit_char_def)

lemma is_digit_digit_char [simp]: "d < 10 \<Longrightarrow> is_digit (digit_char d)"
  by (simp add: is_digit_def)

lemma show_nat_nonempty [simp]: "show_nat n \<noteq> []"
  by (subst show_nat.simps) simp

lemma show_nat_digits: "list_all is_digit (show_nat n)"
proof (induction n rule: show_nat.induct)
  case (1 n)
  then show ?case by (subst show_nat.simps) (simp add: list_all_append)
qed

lemma digits_val_show_nat: "digits_val (show_nat n) = n"
proof (induction n rule: show_nat.induct)
  case (1 n)
  show ?case
  proof (cases "n < 10")
    case True
    then show ?thesis by (subst show_nat.simps) (simp add: digits_val_def)
  next
    case False
    with 1 have "digits_val (show_nat (n div 10)) = n div 10" by simp
    with False show ?thesis by (subst show_nat.simps) (simp add: digits_val_def)
  qed
qed

lemma parse_digits_show_nat [simp]: "parse_digits (show_nat n) = Some n"
  by (simp add: parse_digits_def show_nat_digits digits_val_show_nat)

lemma show_nat_inject [simp]: "show_nat m = show_nat n \<longleftrightarrow> m = n"
  by (metis digits_val_show_nat)

lemma show_nat_hd: "is_digit (hd (show_nat n))"
  using show_nat_digits [of n] by (cases "show_nat n") (auto dest: arg_cong [of _ _ length])

text \<open>Printing a \<open>usize\<close> and parsing it back.\<close>

lemma parse_unsigned_show_nat: "n < 2 ^ bits \<Longrightarrow> parse_unsigned bits (show_nat n) = Some n"
proof -
  assume b: "n < 2 ^ bits"
  obtain c t where ct: "show_nat n = c # t" by (cases "show_nat n") auto
  with show_nat_hd [of n] have "is_digit c" by simp
  then have "c \<noteq> CHR ''+''" by (auto simp: is_digit_def)
  then have "parse_unsigned bits (c # t) = Some n"
    using b ct parse_digits_show_nat [of n] by (simp add: parse_unsigned_def)
  then show ?thesis by (simp add: ct)
qed

text \<open>Printing an \<open>i64\<close> and parsing it back.\<close>

lemma digits_foldl_mono: "acc \<le> foldl (\<lambda>n c. 10 * n + (of_char c - 48)) acc (s :: string)" for acc :: nat
proof (induction s arbitrary: acc)
  case (Cons c s)
  have "acc \<le> 10 * acc + (of_char c - 48)" by simp
  also have "\<dots> \<le> foldl (\<lambda>n c. 10 * n + (of_char c - 48)) (10 * acc + (of_char c - 48)) s" by (rule Cons)
  finally show ?case by simp
qed simp

lemma parse_magnitude_digits:
  "list_all is_digit s \<Longrightarrow> foldl (\<lambda>n c. 10 * n + (of_char c - 48)) acc s \<le> b \<Longrightarrow>
   parse_magnitude b e acc s = Inr (foldl (\<lambda>n c. 10 * n + (of_char c - 48)) acc s)"
proof (induction s arbitrary: acc)
  case (Cons c s)
  have "10 * acc + (of_char c - 48) \<le> b"
    using Cons.prems(2) digits_foldl_mono [of "10 * acc + (of_char c - 48)" s] by simp
  with Cons show ?case by (simp add: Let_def)
qed simp

lemma parse_magnitude_show_nat: "n \<le> b \<Longrightarrow> parse_magnitude b e 0 (show_nat n) = Inr n"
  using parse_magnitude_digits [OF show_nat_digits, of 0 n b e] digits_val_show_nat [of n]
  by (simp add: digits_val_def)

lemma parse_i64_show_int: "- (2 ^ 63) \<le> i \<Longrightarrow> i < 2 ^ 63 \<Longrightarrow> parse_i64 (show_int i) = Inr i"
proof (cases "i < 0")
  case True
  then show "- (2 ^ 63) \<le> i \<Longrightarrow> ?thesis"
    by (simp add: show_int_def parse_i64_def parse_magnitude_show_nat)
next
  case False
  obtain c t where ct: "show_nat (nat i) = c # t" by (cases "show_nat (nat i)") auto
  with show_nat_hd [of "nat i"] have "is_digit c" by simp
  then have c: "c \<noteq> CHR ''-''" "c \<noteq> CHR ''+''" by (auto simp: is_digit_def)
  assume "i < 2 ^ 63"
  then have "nat i \<le> 2 ^ 63 - 1" using False by simp
  then have "parse_magnitude (2 ^ 63 - 1) e 0 (c # t) = Inr (nat i)" for e
    using parse_magnitude_show_nat ct by metis
  with False c ct show ?thesis by (simp add: show_int_def parse_i64_def del: parse_magnitude.simps)
qed

section \<open>Byte-wise string methods\<close>

definition starts_with :: "string \<Rightarrow> string \<Rightarrow> bool" where
  "starts_with p s \<longleftrightarrow> take (length p) s = p"

fun str_contains :: "string \<Rightarrow> string \<Rightarrow> bool" where
  "str_contains p s \<longleftrightarrow> starts_with p s \<or> (case s of [] \<Rightarrow> False | _ # t \<Rightarrow> str_contains p t)"

declare str_contains.simps [simp del]

definition strip_prefix :: "string \<Rightarrow> string \<Rightarrow> string option" where
  "strip_prefix p s = (if starts_with p s then Some (drop (length p) s) else None)"

text \<open>\<open>replace(c, r)\<close> for an ASCII character \<open>c\<close>.\<close>

definition replace_char :: "char \<Rightarrow> string \<Rightarrow> string \<Rightarrow> string" where
  "replace_char c r s = concat (map (\<lambda>x. if x = c then r else [x]) s)"

text \<open>\<open>split(c)\<close> for an ASCII character \<open>c\<close>.\<close>

fun split_char :: "char \<Rightarrow> string \<Rightarrow> string list" where
  "split_char c [] = [[]]"
| "split_char c (x # xs) =
     (if x = c then [] # split_char c xs
      else (case split_char c xs of [] \<Rightarrow> [[x]] | w # ws \<Rightarrow> (x # w) # ws))"

definition ascii_lower_char :: "char \<Rightarrow> char" where
  "ascii_lower_char c =
     (if 65 \<le> (of_char c :: nat) \<and> (of_char c :: nat) \<le> 90 then char_of (of_char c + (32 :: nat)) else c)"

definition to_ascii_lowercase :: "string \<Rightarrow> string" where
  "to_ascii_lowercase = map ascii_lower_char"

lemma str_contains_iff: "str_contains p s \<longleftrightarrow> (\<exists>u v. s = u @ p @ v)"
proof (induction s)
  case Nil
  show ?case by (subst str_contains.simps) (auto simp: starts_with_def)
next
  case (Cons x s)
  have sw: "starts_with p (x # s) \<longleftrightarrow> (\<exists>v. x # s = p @ v)"
    by (metis append_eq_conv_conj append_take_drop_id starts_with_def)
  have "(\<exists>u v. x # s = u @ p @ v) \<longleftrightarrow> (\<exists>v. x # s = p @ v) \<or> (\<exists>u v. s = u @ p @ v)"
    by (metis append_Cons append_Nil list.sel(3) neq_Nil_conv)
  then show ?case
    by (subst str_contains.simps) (simp add: sw Cons.IH)
qed

lemma str_contains_append_mono: "str_contains p s \<Longrightarrow> str_contains p (u @ s @ v)"
  unfolding str_contains_iff by (metis append_assoc)

lemma not_contains_take: "\<not> str_contains p s \<Longrightarrow> \<not> str_contains p (take n s)"
  using str_contains_append_mono [of p "take n s" "[]" "drop n s"] by auto

lemma str_contains_set: "str_contains p s \<Longrightarrow> set p \<subseteq> set s"
  by (auto simp: str_contains_iff)

lemma lower_append [simp]: "to_ascii_lowercase (u @ v) = to_ascii_lowercase u @ to_ascii_lowercase v"
  by (simp add: to_ascii_lowercase_def)

lemma lower_take: "to_ascii_lowercase (take n s) = take n (to_ascii_lowercase s)"
  by (simp add: to_ascii_lowercase_def take_map)

lemma ascii_lower_fix: "ascii_lower_char c = CHR ''<'' \<Longrightarrow> c = CHR ''<''"
proof -
  assume h: "ascii_lower_char c = CHR ''<''"
  show ?thesis
  proof (cases "65 \<le> (of_char c :: nat) \<and> (of_char c :: nat) \<le> 90")
    case True
    with h have "char_of (of_char c + (32 :: nat)) = CHR ''<''" by (simp add: ascii_lower_char_def)
    then have "(of_char (char_of (of_char c + (32 :: nat)) :: char) :: nat) = 60" by simp
    with True show ?thesis by simp
  next
    case False
    with h show ?thesis by (auto simp: ascii_lower_char_def)
  qed
qed

lemma replace_char_removes: "c \<notin> set r \<Longrightarrow> c \<notin> set (replace_char c r s)"
  by (auto simp: replace_char_def split: if_splits)

lemma replace_char_append [simp]: "replace_char c r (u @ v) = replace_char c r u @ replace_char c r v"
  by (simp add: replace_char_def)

lemma replace_char_Nil [simp]: "replace_char c r [] = []"
  by (simp add: replace_char_def)

lemma replace_char_Cons [simp]: "replace_char c r (x # s) = (if x = c then r else [x]) @ replace_char c r s"
  by (simp add: replace_char_def)

lemma split_char_no_sep: "w \<in> set (split_char c s) \<Longrightarrow> c \<notin> set w"
  by (induction c s arbitrary: w rule: split_char.induct) (auto split: if_splits list.splits)

section \<open>Characters of a UTF-8 string\<close>

text \<open>A continuation byte is \<open>10xxxxxx\<close>; a character is a byte and the continuation bytes after it.\<close>

definition is_cont_byte :: "char \<Rightarrow> bool" where
  "is_cont_byte b \<longleftrightarrow> 128 \<le> (of_char b :: nat) \<and> (of_char b :: nat) < 192"

function utf8_chars :: "string \<Rightarrow> string list" where
  "utf8_chars [] = []"
| "utf8_chars (b # bs) = (b # takeWhile is_cont_byte bs) # utf8_chars (dropWhile is_cont_byte bs)"
  by pat_completeness auto
termination
  by (relation "measure length") (auto simp: le_imp_less_Suc length_dropWhile_le)

definition bytes_of :: "string \<Rightarrow> nat list" where
  "bytes_of ch = map of_char ch"

text \<open>\<open>char::is_control\<close>: U+0000..U+001F, U+007F and U+0080..U+009F.\<close>

definition char_is_control :: "string \<Rightarrow> bool" where
  "char_is_control ch =
     (case bytes_of ch of
        [b] \<Rightarrow> b < 32 \<or> b = 127
      | [b, c] \<Rightarrow> b = 194 \<and> 128 \<le> c \<and> c \<le> 159
      | _ \<Rightarrow> False)"

text \<open>\<open>char::is_whitespace\<close>, the Unicode \<open>White_Space\<close> property.\<close>

definition char_is_whitespace :: "string \<Rightarrow> bool" where
  "char_is_whitespace ch =
     (case bytes_of ch of
        [b] \<Rightarrow> (9 \<le> b \<and> b \<le> 13) \<or> b = 32
      | [b, c] \<Rightarrow> b = 194 \<and> (c = 133 \<or> c = 160)
      | [b, c, d] \<Rightarrow>
          (b = 225 \<and> c = 154 \<and> d = 128)
        \<or> (b = 226 \<and> c = 128 \<and> ((128 \<le> d \<and> d \<le> 138) \<or> d = 168 \<or> d = 169 \<or> d = 175))
        \<or> (b = 226 \<and> c = 129 \<and> d = 159)
        \<or> (b = 227 \<and> c = 128 \<and> d = 128)
      | _ \<Rightarrow> False)"

definition trim :: "string \<Rightarrow> string" where
  "trim s = concat (rev (dropWhile char_is_whitespace (rev (dropWhile char_is_whitespace (utf8_chars s)))))"

text \<open>\<open>str::is_char_boundary\<close>; a slice at a byte offset that is not one panics.\<close>

definition is_char_boundary :: "string \<Rightarrow> nat \<Rightarrow> bool" where
  "is_char_boundary s i \<longleftrightarrow> i = length s \<or> (i < length s \<and> \<not> is_cont_byte (s ! i))"

lemma concat_utf8_chars [simp]: "concat (utf8_chars s) = s"
  by (induction s rule: utf8_chars.induct) auto

text \<open>Every character but the first starts with a byte that is not a continuation byte.\<close>

definition proper_char :: "string \<Rightarrow> bool" where
  "proper_char d \<longleftrightarrow> d \<noteq> [] \<and> \<not> is_cont_byte (hd d) \<and> list_all is_cont_byte (tl d)"

fun chars_ok :: "string list \<Rightarrow> bool" where
  "chars_ok [] = True"
| "chars_ok (c # cs) \<longleftrightarrow> c \<noteq> [] \<and> list_all is_cont_byte (tl c) \<and> list_all proper_char cs"

lemma chars_ok_proper: "list_all proper_char cs \<Longrightarrow> chars_ok cs"
  by (cases cs) (auto simp: proper_char_def)

lemma hd_dropWhile_cont:
  "dropWhile is_cont_byte bs = [] \<or> \<not> is_cont_byte (hd (dropWhile is_cont_byte bs))"
  by (induction bs) simp_all

lemma proper_utf8_chars: "s = [] \<or> \<not> is_cont_byte (hd s) \<Longrightarrow> list_all proper_char (utf8_chars s)"
proof (induction s rule: utf8_chars.induct)
  case 1
  then show ?case by simp
next
  case (2 b bs)
  have "dropWhile is_cont_byte bs = [] \<or> \<not> is_cont_byte (hd (dropWhile is_cont_byte bs))"
    by (rule hd_dropWhile_cont)
  then have "list_all proper_char (utf8_chars (dropWhile is_cont_byte bs))" by (rule "2.IH")
  moreover have "list_all is_cont_byte (takeWhile is_cont_byte bs)"
    by (induction bs) simp_all
  ultimately show ?case using "2.prems" by (simp add: proper_char_def [of "b # _"])
qed

lemma chars_ok_utf8: "chars_ok (utf8_chars s)"
proof (cases s)
  case (Cons b bs)
  have "dropWhile is_cont_byte bs = [] \<or> \<not> is_cont_byte (hd (dropWhile is_cont_byte bs))"
    by (rule hd_dropWhile_cont)
  then have "list_all proper_char (utf8_chars (dropWhile is_cont_byte bs))"
    by (rule proper_utf8_chars)
  moreover have "list_all is_cont_byte (takeWhile is_cont_byte bs)"
    by (induction bs) simp_all
  ultimately show ?thesis using Cons by simp
qed simp

lemma takeWhile_cont_append:
  assumes u: "list_all is_cont_byte u" and cs: "list_all proper_char cs"
  shows "takeWhile is_cont_byte (u @ concat cs) = u" "dropWhile is_cont_byte (u @ concat cs) = concat cs"
proof -
  have "takeWhile is_cont_byte (concat cs) = []" "dropWhile is_cont_byte (concat cs) = concat cs"
    using cs by (cases cs; auto simp: proper_char_def neq_Nil_conv)+
  with u show "takeWhile is_cont_byte (u @ concat cs) = u" "dropWhile is_cont_byte (u @ concat cs) = concat cs"
    by (simp_all add: list_all_iff takeWhile_append2 dropWhile_append2)
qed

lemma utf8_chars_concat: "chars_ok cs \<Longrightarrow> utf8_chars (concat cs) = cs"
proof (induction cs)
  case Nil
  then show ?case by simp
next
  case (Cons c cs)
  then obtain b u where c: "c = b # u" by (cases c) auto
  from Cons.prems c have "takeWhile is_cont_byte (u @ concat cs) = u" "dropWhile is_cont_byte (u @ concat cs) = concat cs"
    by (simp_all add: takeWhile_cont_append)
  moreover from Cons.prems have "chars_ok cs" by (simp add: chars_ok_proper)
  ultimately show ?case using Cons.IH c by simp
qed

lemma list_all_filter: "list_all Q cs \<Longrightarrow> list_all Q (filter P cs)"
  by (auto simp: list_all_iff)

lemma chars_ok_filter: "chars_ok cs \<Longrightarrow> chars_ok (filter P cs)"
  by (cases cs) (auto simp: list_all_filter chars_ok_proper)

lemma chars_ok_take: "chars_ok cs \<Longrightarrow> chars_ok (take n cs)"
  by (cases cs; cases n) (auto simp: list_all_iff dest: in_set_takeD)

lemma utf8_chars_take [simp]: "utf8_chars (concat (take n (utf8_chars s))) = take n (utf8_chars s)"
  by (rule utf8_chars_concat) (simp add: chars_ok_take chars_ok_utf8)

lemma utf8_chars_filter [simp]: "utf8_chars (concat (filter P (utf8_chars s))) = filter P (utf8_chars s)"
  by (rule utf8_chars_concat) (simp add: chars_ok_filter chars_ok_utf8)

end
