(* ===== verification/Floats.thy ===== *)
theory Floats
  imports Complex_Main RustStr
begin

text \<open>
  The program's \<open>f64\<close> and \<open>f32\<close> values. A finite binary float is the rational number it stands
  for; every arithmetic operation computes exactly and then rounds to nearest, ties to even, to
  \<open>p\<close> significant bits with a smallest exponent \<open>emin\<close> (IEEE 754 binary64: 53 and -1022, binary32:
  24 and -126). Overflow to infinity, NaN and the sign of zero are not represented: every float
  of the program is a configuration constant, a weight of a built-in rule, a count, a ratio of
  counts, or a number read from JSON, which serde accepts only when finite.
\<close>

type_synonym f64 = rat
type_synonym f32 = rat

section \<open>Rounding\<close>

definition round_even :: "rat \<Rightarrow> int" where
  "round_even x =
     (let f = \<lfloor>x\<rfloor>; d = x - of_int f
      in if d < 1 / 2 then f else if d > 1 / 2 then f + 1 else if even f then f else f + 1)"

fun ilog2 :: "nat \<Rightarrow> nat" where
  "ilog2 n = (if n < 2 then 0 else Suc (ilog2 (n div 2)))"

declare ilog2.simps [simp del]

text \<open>The exponent of a positive rational: \<open>2 ^ e \<le> x < 2 ^ (e + 1)\<close>.\<close>

definition binexp :: "rat \<Rightarrow> int" where
  "binexp x = (if x \<ge> 1 then int (ilog2 (nat \<lfloor>x\<rfloor>)) else - int (ilog2 (nat (\<lceil>1 / x\<rceil> - 1)) + 1))"

definition fl :: "nat \<Rightarrow> int \<Rightarrow> rat \<Rightarrow> rat" where
  "fl p emin x =
     (if x = 0 then 0
      else (let u = 2 powi (max (binexp \<bar>x\<bar>) emin - int p + 1)
            in sgn x * (of_int (round_even (\<bar>x\<bar> / u)) * u)))"

definition rn64 :: "rat \<Rightarrow> f64" where "rn64 = fl 53 (-1022)"
definition rn32 :: "rat \<Rightarrow> f32" where "rn32 = fl 24 (-126)"

definition f64_add :: "f64 \<Rightarrow> f64 \<Rightarrow> f64" where "f64_add x y = rn64 (x + y)"
definition f64_mul :: "f64 \<Rightarrow> f64 \<Rightarrow> f64" where "f64_mul x y = rn64 (x * y)"
definition f64_div :: "f64 \<Rightarrow> f64 \<Rightarrow> f64" where "f64_div x y = rn64 (x / y)"
definition f64_of_nat :: "nat \<Rightarrow> f64" where "f64_of_nat n = rn64 (of_nat n)"
definition f64_of_int :: "int \<Rightarrow> f64" where "f64_of_int n = rn64 (of_int n)"

text \<open>\<open>iter().sum::<f64>()\<close>: a left fold from zero.\<close>

definition f64_sum :: "f64 list \<Rightarrow> f64" where
  "f64_sum xs = foldl f64_add 0 xs"

definition f64_clamp :: "f64 \<Rightarrow> f64 \<Rightarrow> f64 \<Rightarrow> f64" where
  "f64_clamp lo hi x = (if x < lo then lo else if x > hi then hi else x)"

text \<open>\<open>{:.k}\<close>: the exact value rounded to \<open>k\<close> decimals, ties to even.\<close>

definition fmt_fixed :: "nat \<Rightarrow> f64 \<Rightarrow> string" where
  "fmt_fixed k x =
     (let n = nat (round_even (\<bar>x\<bar> * 10 ^ k)); s = show_nat n;
          padded = replicate (Suc k - length s) (CHR ''0'') @ s;
          body = (if k = 0 then s
                  else take (length padded - k) padded @ ''.'' @ drop (length padded - k) padded)
      in (if x < 0 then CHR ''-'' # body else body))"

section \<open>Facts about rounding\<close>

lemma round_even_of_int [simp]: "round_even (of_int n) = n"
  by (simp add: round_even_def)

lemma round_even_bounds: "\<lfloor>x\<rfloor> \<le> round_even x" "round_even x \<le> \<lfloor>x\<rfloor> + 1"
  by (simp_all add: round_even_def Let_def)

lemma round_even_le_int: "x \<le> of_int n \<Longrightarrow> round_even x \<le> n"
proof -
  assume x: "x \<le> of_int n"
  show ?thesis
  proof (cases "x = of_int n")
    case True
    then show ?thesis by simp
  next
    case False
    with x have "\<lfloor>x\<rfloor> + 1 \<le> n" by linarith
    with round_even_bounds(2) [of x] show ?thesis by linarith
  qed
qed

lemma round_even_ge_int: "of_int n \<le> x \<Longrightarrow> n \<le> round_even x"
  using round_even_bounds(1) [of x] by linarith

lemma round_even_mono: "x \<le> y \<Longrightarrow> round_even x \<le> round_even y"
proof -
  assume xy: "x \<le> y"
  show ?thesis
  proof (cases "\<lfloor>x\<rfloor> = \<lfloor>y\<rfloor>")
    case True
    with xy show ?thesis by (simp add: round_even_def Let_def)
  next
    case False
    with xy have "\<lfloor>x\<rfloor> + 1 \<le> \<lfloor>y\<rfloor>" using floor_mono [OF xy] by linarith
    with round_even_bounds [of x] round_even_bounds [of y] show ?thesis by linarith
  qed
qed

lemma ilog2_bounds: "0 < n \<Longrightarrow> 2 ^ ilog2 n \<le> n \<and> n < 2 * 2 ^ ilog2 n"
proof (induction n rule: ilog2.induct)
  case (1 n)
  show ?case
  proof (cases "n < 2")
    case True
    with 1 show ?thesis by (subst (1 2) ilog2.simps) simp
  next
    case False
    with 1 have "2 ^ ilog2 (n div 2) \<le> n div 2 \<and> n div 2 < 2 * 2 ^ ilog2 (n div 2)" by simp
    with False show ?thesis by (subst (1 2) ilog2.simps) auto
  qed
qed

lemma binexp_bounds:
  assumes "0 < x"
  shows "2 powi (binexp x) \<le> x" "x < 2 powi (binexp x + 1)"
proof -
  have *: "2 powi (binexp x) \<le> x \<and> x < 2 powi (binexp x + 1)"
  proof (cases "x \<ge> 1")
    case True
    let ?n = "nat \<lfloor>x\<rfloor>"
    from True have n: "0 < ?n" by simp
    have "rat_of_nat (2 ^ ilog2 ?n) \<le> rat_of_nat ?n" "rat_of_nat (?n + 1) \<le> rat_of_nat (2 * 2 ^ ilog2 ?n)"
      using ilog2_bounds [OF n] by (simp_all only: of_nat_le_iff, linarith)
    moreover have "rat_of_nat ?n \<le> x" "x < rat_of_nat (?n + 1)"
      using True by (simp_all add: of_nat_nat) linarith
    ultimately have "2 ^ ilog2 ?n \<le> x" "x < 2 * 2 ^ ilog2 ?n"
      by (metis of_nat_numeral of_nat_power order_trans, metis of_nat_mult of_nat_numeral of_nat_power order_less_le_trans)
    then show ?thesis
      using True by (simp add: binexp_def power_int_add)
  next
    case False
    let ?m = "nat (\<lceil>1 / x\<rceil> - 1)"
    from False assms have inv: "1 < 1 / x" by simp
    then have c: "1 < \<lceil>1 / x\<rceil>" by linarith
    then have m: "0 < ?m" by simp
    have "rat_of_nat (2 ^ ilog2 ?m) \<le> rat_of_nat ?m" "rat_of_nat (?m + 1) \<le> rat_of_nat (2 * 2 ^ ilog2 ?m)"
      using ilog2_bounds [OF m] by (simp_all only: of_nat_le_iff, linarith)
    moreover have "rat_of_nat ?m < 1 / x" "1 / x \<le> rat_of_nat (?m + 1)"
      using c by (simp_all add: of_nat_nat) linarith+
    ultimately have "2 ^ ilog2 ?m < 1 / x" "1 / x \<le> 2 * 2 ^ ilog2 ?m"
      by (metis of_nat_numeral of_nat_power order_le_less_trans,
          metis of_nat_mult of_nat_numeral of_nat_power order_trans)
    then have "1 / (2 * 2 ^ ilog2 ?m) \<le> x" "x < 1 / 2 ^ ilog2 ?m"
      using assms by (simp_all add: field_simps)
    with False show ?thesis
      by (simp add: binexp_def power_int_minus power_int_add power_int_diff divide_simps)
  qed
  then show "2 powi (binexp x) \<le> x" "x < 2 powi (binexp x + 1)" by simp_all
qed

lemma powi_less_cancel: "(2::rat) powi m < 2 powi n \<Longrightarrow> m < n"
  by (metis linorder_not_less one_le_numeral power_int_increasing)

lemma binexp_mono: "0 < x \<Longrightarrow> x \<le> y \<Longrightarrow> binexp x \<le> binexp y"
proof -
  assume "0 < x" "x \<le> y"
  then have "2 powi binexp x < (2::rat) powi (binexp y + 1)"
    using binexp_bounds [of x] binexp_bounds [of y] by linarith
  then show ?thesis using powi_less_cancel by fastforce
qed

lemma fl_0 [simp]: "fl p emin 0 = 0"
  by (simp add: fl_def)

lemma fl_pos: "0 < x \<Longrightarrow> fl p emin x =
   of_int (round_even (x / 2 powi (max (binexp x) emin - int p + 1))) * 2 powi (max (binexp x) emin - int p + 1)"
  by (simp add: fl_def Let_def)

lemma fl_nonneg: "0 \<le> x \<Longrightarrow> 0 \<le> fl p emin x"
proof (cases "x = 0")
  case False
  assume "0 \<le> x"
  with False have x: "0 < x" by simp
  have "0 \<le> round_even (x / 2 powi (max (binexp x) emin - int p + 1))"
    by (rule round_even_ge_int) (use x in simp)
  with x show ?thesis by (simp add: fl_pos)
qed simp

text \<open>A float stays where it is: the quotient by the unit in the last place is an integer.\<close>

lemma fl_exact:
  assumes "0 < x" and "x = of_int k * 2 powi (max (binexp x) emin - int p + 1)"
  shows "fl p emin x = x"
proof -
  let ?u = "(2::rat) powi (max (binexp x) emin - int p + 1)"
  have "x / ?u = of_int k" using assms(2) by (metis nonzero_mult_div_cancel_right power_int_not_zero zero_neq_numeral)
  then show ?thesis using assms by (simp add: fl_pos)
qed

text \<open>The value lies between the powers of two around its exponent.\<close>

lemma fl_upper: "0 < x \<Longrightarrow> fl p emin x \<le> 2 powi (max (binexp x) emin + 1)"
proof -
  assume x: "0 < x"
  let ?e = "max (binexp x) emin"
  let ?u = "(2::rat) powi (?e - int p + 1)"
  have "x < 2 powi (binexp x + 1)" using binexp_bounds(2) [OF x] .
  also have "\<dots> \<le> 2 powi (?e + 1)" by (rule power_int_increasing) simp_all
  finally have "x / ?u \<le> 2 powi (?e + 1) / ?u" by (simp add: divide_right_mono)
  also have "\<dots> = of_int (2 ^ p)" by (simp add: power_int_diff power_int_add field_simps)
  finally have "round_even (x / ?u) \<le> 2 ^ p" by (rule round_even_le_int)
  then have "of_int (round_even (x / ?u)) * ?u \<le> of_int (2 ^ p) * ?u"
    by (intro mult_right_mono) (simp_all only: of_int_le_iff, simp)
  also have "\<dots> = 2 powi (?e + 1)" by (simp add: power_int_diff power_int_add field_simps)
  finally show ?thesis using x by (simp add: fl_pos)
qed

lemma fl_lower: "0 < x \<Longrightarrow> 0 < p \<Longrightarrow> emin \<le> binexp x \<Longrightarrow> 2 powi (binexp x) \<le> fl p emin x"
proof -
  assume x: "0 < x" and p: "0 < p" and e: "emin \<le> binexp x"
  let ?u = "(2::rat) powi (binexp x - int p + 1)"
  obtain q where q: "p = Suc q" using p by (cases p) auto
  have pp: "2 powi (binexp x) = of_int (2 ^ (p - 1)) * ?u"
    by (simp add: q power_int_diff)
  have "of_int (2 ^ (p - 1)) \<le> x / ?u"
    using binexp_bounds(1) [OF x] by (simp add: pp pos_le_divide_eq)
  then have "2 ^ (p - 1) \<le> round_even (x / ?u)" by (rule round_even_ge_int)
  then have "of_int (2 ^ (p - 1)) * ?u \<le> of_int (round_even (x / ?u)) * ?u"
    by (intro mult_right_mono) (simp_all only: of_int_le_iff, simp)
  with pp have "2 powi (binexp x) \<le> of_int (round_even (x / ?u)) * ?u" by simp
  with x e show ?thesis by (simp only: fl_pos max_absorb1)
qed

lemma fl_mono:
  assumes "0 < p" "0 \<le> x" "x \<le> y"
  shows "fl p emin x \<le> fl p emin y"
proof (cases "x = 0")
  case True
  with assms show ?thesis by (simp add: fl_nonneg)
next
  case False
  with assms have x: "0 < x" and y: "0 < y" by simp_all
  let ?ex = "max (binexp x) emin" and ?ey = "max (binexp y) emin"
  have le: "binexp x \<le> binexp y" using x assms(3) by (rule binexp_mono)
  show ?thesis
  proof (cases "?ex = ?ey")
    case True
    have "round_even (x / 2 powi (?ex - int p + 1)) \<le> round_even (y / 2 powi (?ex - int p + 1))"
      by (rule round_even_mono) (simp add: assms(3) divide_right_mono)
    with True x y show ?thesis by (simp add: fl_pos mult_right_mono)
  next
    case False
    with le have "?ex + 1 \<le> binexp y" "emin \<le> binexp y" by linarith+
    have "fl p emin x \<le> 2 powi (?ex + 1)" using x by (rule fl_upper)
    also have "\<dots> \<le> 2 powi (binexp y)" using \<open>?ex + 1 \<le> binexp y\<close> by (simp add: power_int_increasing)
    also have "\<dots> \<le> fl p emin y" using y assms(1) \<open>emin \<le> binexp y\<close> by (rule fl_lower)
    finally show ?thesis .
  qed
qed

lemma binexp_int_le: "0 < n \<Longrightarrow> n \<le> 2 ^ k \<Longrightarrow> binexp (of_int n) \<le> int k"
proof -
  assume n: "0 < n" "n \<le> 2 ^ k"
  have "2 powi (binexp (of_int n)) \<le> rat_of_int n" using n by (intro binexp_bounds(1)) simp
  also have "\<dots> \<le> of_int (2 ^ k)" using n by (simp only: of_int_le_iff)
  also have "\<dots> = 2 powi (int k)" by simp
  finally have "2 powi (binexp (of_int n)) \<le> (2::rat) powi (int k)" .
  also have "\<dots> < 2 powi (int k + 1)" by (simp add: power_int_add)
  finally show ?thesis using powi_less_cancel by fastforce
qed

text \<open>Integers of at most \<open>p\<close> bits are represented exactly.\<close>

lemma fl_int_exact:
  assumes "0 \<le> n" "n \<le> 2 ^ p" "emin \<le> 0" "0 < p"
  shows "fl p emin (of_int n) = of_int n"
proof (cases "n = 0")
  case False
  with assms(1) have n: "0 < n" by simp
  then have n1: "(1::rat) \<le> of_int n" by simp
  let ?e = "binexp (rat_of_int n)"
  have e0: "0 \<le> ?e" using n1 by (simp add: binexp_def)
  then have me: "max ?e emin = ?e" using assms(3) by simp
  show ?thesis
  proof (cases "?e \<le> int p - 1")
    case True
    have "rat_of_int n = of_int (n * 2 ^ nat (int p - 1 - ?e)) * 2 powi (?e - int p + 1)"
    proof -
      have "(2::rat) ^ nat (int p - 1 - ?e) = 2 powi (int p - 1 - ?e)" using True by (simp add: power_int_def)
      then show ?thesis by (simp add: power_int_diff power_int_add field_simps)
    qed
    then show ?thesis using n fl_exact [of "rat_of_int n" _ emin p, unfolded me] by (metis of_int_0_less_iff)
  next
    case False
    with binexp_int_le [OF n assms(2)] have ep: "?e = int p" by simp
    have "2 powi (int p) \<le> rat_of_int n" using binexp_bounds(1) [of "rat_of_int n"] n ep by simp
    then have "of_int (2 ^ p) \<le> rat_of_int n" by simp
    then have "n = 2 ^ p" using assms(2) by (simp only: of_int_le_iff)
    then have "rat_of_int n = of_int (2 ^ (p - 1)) * 2 powi (?e - int p + 1)"
      using assms(4) ep by (simp add: power_eq_if)
    then show ?thesis using n fl_exact [of "rat_of_int n" _ emin p, unfolded me] by (metis of_int_0_less_iff)
  qed
qed simp

text \<open>Rounding a float again changes nothing.\<close>

lemma fl_idem:
  assumes "0 \<le> x" "0 < p"
  shows "fl p emin (fl p emin x) = fl p emin x"
proof (cases "fl p emin x = 0")
  case False
  let ?y = "fl p emin x"
  let ?e = "max (binexp x) emin"
  have x: "0 < x" using False assms(1) by (cases "x = 0") simp_all
  have y: "0 < ?y" using fl_nonneg [OF assms(1), of p emin] False by simp
  let ?r = "round_even (x / 2 powi (?e - int p + 1))"
  have yr: "?y = of_int ?r * 2 powi (?e - int p + 1)" using x by (rule fl_pos)
  have up: "?y \<le> 2 powi (?e + 1)" using x by (rule fl_upper)
  let ?b = "max (binexp ?y) emin"
  show ?thesis
  proof (cases "?b \<le> ?e")
    case True
    have "?y = of_int (?r * 2 ^ nat (?e - ?b)) * 2 powi (?b - int p + 1)"
    proof -
      have "(2::rat) ^ nat (?e - ?b) = 2 powi (?e - ?b)" using True by (simp add: power_int_def)
      then show ?thesis by (subst yr) (simp add: power_int_diff power_int_add field_simps)
    qed
    with y show ?thesis by (rule fl_exact)
  next
    case False
    have "2 powi (binexp ?y) \<le> ?y" using y by (rule binexp_bounds(1))
    also have "\<dots> \<le> 2 powi (?e + 1)" by (rule up)
    also have "\<dots> < 2 powi (?e + 1 + 1)" by (rule power_int_strict_increasing) simp_all
    finally have "binexp ?y < ?e + 1 + 1" by (rule powi_less_cancel)
    with False have b: "?b = ?e + 1" "binexp ?y = ?e + 1" by linarith+
    with binexp_bounds(1) [OF y] up have "?y = 2 powi (?e + 1)" by simp
    also have "\<dots> = of_int (2 ^ (p - 1)) * 2 powi (?b - int p + 1)"
      using assms(2) b by (cases p) (simp_all add: power_int_diff power_int_add field_simps)
    finally show ?thesis by (rule fl_exact [OF y])
  qed
qed simp

lemma rn64_idem: "0 \<le> x \<Longrightarrow> rn64 (rn64 x) = rn64 x" by (simp add: rn64_def fl_idem)
lemma rn64_0 [simp]: "rn64 0 = 0" by (simp add: rn64_def)
lemma rn64_nonneg: "0 \<le> x \<Longrightarrow> 0 \<le> rn64 x" by (simp add: rn64_def fl_nonneg)
lemma rn64_mono: "0 \<le> x \<Longrightarrow> x \<le> y \<Longrightarrow> rn64 x \<le> rn64 y" by (simp add: rn64_def fl_mono)
lemma rn64_int: "0 \<le> n \<Longrightarrow> n \<le> 2 ^ 53 \<Longrightarrow> rn64 (of_int n) = of_int n"
  unfolding rn64_def by (rule fl_int_exact) simp_all
lemma rn64_nat: "n \<le> 2 ^ 53 \<Longrightarrow> rn64 (of_nat n) = of_nat n"
proof -
  assume "n \<le> 2 ^ 53"
  then have "int n \<le> 2 ^ 53" by simp
  then show ?thesis using rn64_int [of "int n"] by simp
qed
lemma rn32_mono: "0 \<le> x \<Longrightarrow> x \<le> y \<Longrightarrow> rn32 x \<le> rn32 y" by (simp add: rn32_def fl_mono)
lemma rn32_0 [simp]: "rn32 0 = 0" by (simp add: rn32_def)
lemma rn32_1 [simp]: "rn32 1 = 1"
  unfolding rn32_def using fl_int_exact [of 1 24 "-126"] by simp

lemma rn32_unit: "0 \<le> x \<Longrightarrow> x \<le> 1 \<Longrightarrow> 0 \<le> rn32 x \<and> rn32 x \<le> 1"
  using rn32_mono [of 0 x] rn32_mono [of x 1] by simp

lemma f64_clamp_bounds: "lo \<le> hi \<Longrightarrow> lo \<le> f64_clamp lo hi x \<and> f64_clamp lo hi x \<le> hi"
  by (simp add: f64_clamp_def)

lemma f64_foldl_nonneg: "0 \<le> a \<Longrightarrow> list_all (\<lambda>x. 0 \<le> x) xs \<Longrightarrow> 0 \<le> foldl f64_add a xs"
  by (induction xs arbitrary: a) (simp_all add: f64_add_def rn64_nonneg)

lemma f64_foldl_mono: "0 \<le> a \<Longrightarrow> a \<le> b \<Longrightarrow> list_all (\<lambda>x. 0 \<le> x) xs \<Longrightarrow> foldl f64_add a xs \<le> foldl f64_add b xs"
  by (induction xs arbitrary: a b) (simp_all add: f64_add_def rn64_nonneg rn64_mono)

lemma f64_sum_nonneg: "list_all (\<lambda>x. 0 \<le> x) xs \<Longrightarrow> 0 \<le> f64_sum xs"
  by (simp add: f64_sum_def f64_foldl_nonneg)

text \<open>A sum of naturals that stays within 53 bits is exact.\<close>

lemma f64_foldl_nat:
  "a + sum_list ns \<le> 2 ^ 53 \<Longrightarrow> foldl f64_add (of_nat a) (map of_nat ns) = of_nat (a + sum_list ns)"
proof (induction ns arbitrary: a)
  case (Cons n ns)
  then have "f64_add (of_nat a) (of_nat n) = of_nat (a + n)"
    using rn64_nat [of "a + n"] by (simp add: f64_add_def)
  then show ?case using Cons.IH [of "a + n"] Cons.prems by (simp add: add.assoc)
qed simp

lemma f64_sum_nat: "sum_list ns \<le> 2 ^ 53 \<Longrightarrow> f64_sum (map of_nat ns) = of_nat (sum_list ns)"
  using f64_foldl_nat [of 0 ns] by (simp add: f64_sum_def)

end
