(* ===== verification/Domain.thy ===== *)
theory Domain
  imports Floats "HOL-Library.Word"
begin

text \<open>
  The \<open>domain\<close> crate: the vocabulary every other crate shares. Structs are records whose fields
  carry a short prefix (several structs have an \<open>id\<close> or a \<open>created_at\<close>), enums are datatypes
  with the source's variant names, qualified by the enum where two enums share a name
  (\<open>alert_status.Dismissed\<close>, \<open>decision.Dismissed\<close>).

  A \<open>DateTime<Utc>\<close> is the number of nanoseconds since the epoch, a \<open>chrono::Duration\<close> a number
  of nanoseconds, a \<open>Uuid\<close> a 128-bit word. A \<open>rust_decimal::Decimal\<close> is its documented
  representation, an integer mantissa scaled by a power of ten, ordered by its value.
\<close>

type_synonym uuid = "128 word"
type_synonym datetime = int
type_synonym duration = int
type_synonym tx_id = string
type_synonym account_id = string

definition seconds :: "int \<Rightarrow> duration" where "seconds n = n * 1000000000"
definition minutes :: "int \<Rightarrow> duration" where "minutes n = seconds (60 * n)"
definition hours :: "int \<Rightarrow> duration" where "hours n = seconds (3600 * n)"

datatype decimal = Decimal (mantissa: int) (scale: nat)

definition dec_value :: "decimal \<Rightarrow> rat" where
  "dec_value d = of_int (mantissa d) / 10 ^ scale d"

definition dec_gt :: "decimal \<Rightarrow> decimal \<Rightarrow> bool" where
  "dec_gt a b \<longleftrightarrow> mantissa b * 10 ^ scale a < mantissa a * 10 ^ scale b"

definition dec_of_nat :: "nat \<Rightarrow> decimal" where
  "dec_of_nat n = Decimal (int n) 0"

lemma dec_gt_value: "dec_gt a b \<longleftrightarrow> dec_value b < dec_value a"
proof -
  have "dec_value b < dec_value a \<longleftrightarrow>
     rat_of_int (mantissa b) * 10 ^ scale a < rat_of_int (mantissa a) * 10 ^ scale b"
    by (simp add: dec_value_def field_simps)
  also have "\<dots> \<longleftrightarrow> rat_of_int (mantissa b * 10 ^ scale a) < rat_of_int (mantissa a * 10 ^ scale b)"
    by simp
  also have "\<dots> \<longleftrightarrow> dec_gt a b" by (simp only: of_int_less_iff dec_gt_def)
  finally show ?thesis by simp
qed

text \<open>A \<open>serde_json::Value\<close>; an object keeps the order in which the code lists its keys.\<close>

datatype json = JNull | JBool bool | JInt int | JFloat f64 | JString string
  | JArray "json list" | JObject "(string \<times> json) list"

definition json_opt :: "('a \<Rightarrow> json) \<Rightarrow> 'a option \<Rightarrow> json" where
  "json_opt f x = (case x of None \<Rightarrow> JNull | Some y \<Rightarrow> f y)"

section \<open>Transactions\<close>

record asset =
  as_code :: string
  as_issuer :: "account_id option"

definition asset_native :: asset where
  "asset_native = \<lparr>as_code = ''native'', as_issuer = None\<rparr>"

definition asset_key :: "asset \<Rightarrow> string" where
  "asset_key a = (case as_issuer a of Some issuer \<Rightarrow> as_code a @ '':'' @ issuer | None \<Rightarrow> as_code a)"

record asset_movement =
  mv_asset :: asset
  mv_from :: account_id
  mv_to :: account_id
  mv_amount :: decimal

record normalized_transaction =
  tx_id :: tx_id
  tx_ledger :: "32 word"
  tx_created_at :: datetime
  tx_source_account :: account_id
  tx_fee_charged :: int
  tx_memo :: "string option"
  tx_operation_count :: "32 word"
  tx_successful :: bool
  tx_movements :: "asset_movement list"
  tx_contract_ids :: "string list"

text \<open>The loop pushes the source account and then both ends of every movement.\<close>

definition movement_accounts :: "asset_movement list \<Rightarrow> account_id list" where
  "movement_accounts ms = concat (map (\<lambda>m. [mv_from m, mv_to m]) ms)"

definition involved_accounts :: "normalized_transaction \<Rightarrow> account_id list" where
  "involved_accounts t = sort_dedup (tx_source_account t # movement_accounts (tx_movements t))"

definition dedup_assets :: "asset list \<Rightarrow> asset list" where
  "dedup_assets as = dedup_by_key asset_key (sort_key asset_key as)"

definition tx_assets :: "normalized_transaction \<Rightarrow> asset list" where
  "tx_assets t = dedup_assets (map mv_asset (tx_movements t))"

section \<open>Rules and evaluation results\<close>

datatype severity = Low | Medium | High | Critical

definition severity_str :: "severity \<Rightarrow> string" where
  "severity_str s = (case s of Low \<Rightarrow> ''low'' | Medium \<Rightarrow> ''medium'' | High \<Rightarrow> ''high'' | Critical \<Rightarrow> ''critical'')"

definition severity_from_str :: "string \<Rightarrow> string + severity" where
  "severity_from_str s =
     (if s = ''low'' then Inr Low else if s = ''medium'' then Inr Medium
      else if s = ''high'' then Inr High else if s = ''critical'' then Inr Critical
      else Inl (''unknown severity: '' @ s))"

text \<open>\<open>#[derive(PartialOrd, Ord)]\<close>: variants in declaration order.\<close>

primrec severity_rank :: "severity \<Rightarrow> nat" where
  "severity_rank Low = 0"
| "severity_rank Medium = 1"
| "severity_rank High = 2"
| "severity_rank Critical = 3"

instantiation severity :: linorder
begin

definition less_eq_severity :: "severity \<Rightarrow> severity \<Rightarrow> bool" where
  "less_eq_severity a b \<longleftrightarrow> severity_rank a \<le> severity_rank b"

definition less_severity :: "severity \<Rightarrow> severity \<Rightarrow> bool" where
  "less_severity a b \<longleftrightarrow> severity_rank a < severity_rank b"

instance
proof
  fix a b c :: severity
  show "a < b \<longleftrightarrow> a \<le> b \<and> \<not> b \<le> a" by (auto simp: less_eq_severity_def less_severity_def)
  show "a \<le> a" by (simp add: less_eq_severity_def)
  show "a \<le> b \<Longrightarrow> b \<le> c \<Longrightarrow> a \<le> c" by (simp add: less_eq_severity_def)
  show "a \<le> b \<Longrightarrow> b \<le> a \<Longrightarrow> a = b" by (cases a; cases b) (simp_all add: less_eq_severity_def)
  show "a \<le> b \<or> b \<le> a" by (auto simp: less_eq_severity_def)
qed

end

record rule_trigger =
  rt_rule_id :: string
  rt_rule_name :: string
  rt_reason :: string
  rt_weight :: f64
  rt_evidence :: json

record evaluation_result =
  er_tx_id :: tx_id
  er_triggers :: "rule_trigger list"
  er_score :: f64
  er_severity :: "severity option"

definition is_flagged :: "evaluation_result \<Rightarrow> bool" where
  "is_flagged r \<longleftrightarrow> er_triggers r \<noteq> []"

section \<open>Alerts, decisions and AI advisories\<close>

record risk_assessment =
  ra_level :: string
  ra_rationale :: string

record ai_advisory =
  adv_alert_id :: uuid
  adv_generated_at :: datetime
  adv_summary :: string
  adv_suspicious_signals :: "string list"
  adv_relevant_history :: string
  adv_risk_assessment :: risk_assessment
  adv_recommended_next_steps :: "string list"
  adv_confidence :: f32
  adv_explanation :: string
  adv_model :: string
  adv_disclaimer :: string

text \<open>The em dash of the disclaimer is the byte sequence E2 80 94.\<close>

definition em_dash :: string where
  "em_dash = [CHR 0xE2, CHR 0x80, CHR 0x94]"

definition ai_advisory_disclaimer :: string where
  "ai_advisory_disclaimer =
     ''AI Advisory '' @ em_dash @
     '' informational only. This is not a decision and does not change alert status. '' @
     ''A human investigator must review and record the final decision.''"

datatype ai_advisory_status =
    Pending
  | Ready ai_advisory
  | Unavailable string datetime

datatype alert_status = Open | UnderInvestigation | Escalated | Dismissed | ConfirmedSuspicious

definition alert_status_str :: "alert_status \<Rightarrow> string" where
  "alert_status_str s =
     (case s of Open \<Rightarrow> ''open'' | UnderInvestigation \<Rightarrow> ''under_investigation''
      | Escalated \<Rightarrow> ''escalated'' | Dismissed \<Rightarrow> ''dismissed''
      | ConfirmedSuspicious \<Rightarrow> ''confirmed_suspicious'')"

definition alert_status_from_str :: "string \<Rightarrow> string + alert_status" where
  "alert_status_from_str s =
     (if s = ''open'' then Inr Open
      else if s = ''under_investigation'' then Inr UnderInvestigation
      else if s = ''escalated'' then Inr Escalated
      else if s = ''dismissed'' then Inr Dismissed
      else if s = ''confirmed_suspicious'' then Inr ConfirmedSuspicious
      else Inl (''unknown alert status: '' @ s))"

record alert =
  al_id :: uuid
  al_tx_id :: tx_id
  al_accounts :: "account_id list"
  al_assets :: "asset list"
  al_created_at :: datetime
  al_triggered_rules :: "rule_trigger list"
  al_score :: f64
  al_severity :: severity
  al_status :: alert_status
  al_ai_status :: ai_advisory_status

datatype decision = Dismissed | UnderInvestigation | Escalated | ConfirmedSuspicious

definition decision_str :: "decision \<Rightarrow> string" where
  "decision_str d =
     (case d of decision.Dismissed \<Rightarrow> ''dismissed''
      | decision.UnderInvestigation \<Rightarrow> ''under_investigation''
      | decision.Escalated \<Rightarrow> ''escalated''
      | decision.ConfirmedSuspicious \<Rightarrow> ''confirmed_suspicious'')"

definition decision_from_str :: "string \<Rightarrow> string + decision" where
  "decision_from_str s =
     (if s = ''dismissed'' then Inr decision.Dismissed
      else if s = ''under_investigation'' then Inr decision.UnderInvestigation
      else if s = ''escalated'' then Inr decision.Escalated
      else if s = ''confirmed_suspicious'' then Inr decision.ConfirmedSuspicious
      else Inl (''unknown decision: '' @ s))"

definition status_of_decision :: "decision \<Rightarrow> alert_status" where
  "status_of_decision d =
     (case d of decision.Dismissed \<Rightarrow> alert_status.Dismissed
      | decision.UnderInvestigation \<Rightarrow> alert_status.UnderInvestigation
      | decision.Escalated \<Rightarrow> alert_status.Escalated
      | decision.ConfirmedSuspicious \<Rightarrow> alert_status.ConfirmedSuspicious)"

record decision_record =
  dr_id :: uuid
  dr_alert_id :: uuid
  dr_investigator_id :: string
  dr_decision :: decision
  dr_rationale :: string
  dr_created_at :: datetime

section \<open>Audit events, roles and errors\<close>

datatype audit_event_kind =
    AlertCreated tx_id "string list" severity f64
  | AiAdvisoryRequested json
  | AiAdvisoryReceived ai_advisory
  | AiAdvisoryUnavailable string
  | InvestigatorDecision string decision string alert_status
  | IngestionFailure string "string option" string

record audit_record =
  ar_id :: uuid
  ar_alert_id :: "uuid option"
  ar_tx_id :: "tx_id option"
  ar_event :: audit_event_kind
  ar_event_json :: string
  ar_created_at :: datetime
  ar_sequence :: int
  ar_prev_hash :: string
  ar_hash :: string

datatype role = Viewer | Investigator | Admin

definition role_str :: "role \<Rightarrow> string" where
  "role_str r = (case r of Viewer \<Rightarrow> ''viewer'' | Investigator \<Rightarrow> ''investigator'' | Admin \<Rightarrow> ''admin'')"

definition role_from_str :: "string \<Rightarrow> string + role" where
  "role_from_str s =
     (if s = ''viewer'' then Inr Viewer else if s = ''investigator'' then Inr Investigator
      else if s = ''admin'' then Inr Admin else Inl (''unknown role: '' @ s))"

definition can_decide :: "role \<Rightarrow> bool" where
  "can_decide r = (case r of Investigator \<Rightarrow> True | Admin \<Rightarrow> True | _ \<Rightarrow> False)"

definition can_administer :: "role \<Rightarrow> bool" where
  "can_administer r = (case r of Admin \<Rightarrow> True | _ \<Rightarrow> False)"

record investigator =
  inv_id :: string
  inv_username :: string
  inv_role :: role

datatype domain_error = DomNotFound string | DomInvalidInput string | DomConflict string
  | DomStorage string | DomInternal string

definition domain_error_text :: "domain_error \<Rightarrow> string" where
  "domain_error_text e =
     (case e of DomNotFound m \<Rightarrow> ''not found: '' @ m | DomInvalidInput m \<Rightarrow> ''invalid input: '' @ m
      | DomConflict m \<Rightarrow> ''conflict: '' @ m | DomStorage m \<Rightarrow> ''storage error: '' @ m
      | DomInternal m \<Rightarrow> ''internal error: '' @ m)"


section \<open>Facts\<close>

text \<open>
  Each of the four closed vocabularies (alert status, decision, role, severity) is parsed
  back exactly from its rendering: \<open>from_str\<close> accepts the strings \<open>as_str\<close> produces, each as
  the variant it came from, and nothing else. No text outside the four decision names can be
  read as a decision.
\<close>
theorem vocabulary_closed:
  "(decision_from_str s = Inr d \<longleftrightarrow> s = decision_str d)
   \<and> (alert_status_from_str s = Inr st \<longleftrightarrow> s = alert_status_str st)
   \<and> (role_from_str s = Inr r \<longleftrightarrow> s = role_str r)
   \<and> (severity_from_str s = Inr sv \<longleftrightarrow> s = severity_str sv)"
proof (intro conjI)
  show "decision_from_str s = Inr d \<longleftrightarrow> s = decision_str d"
    by (cases d) (auto simp: decision_from_str_def decision_str_def)
  show "alert_status_from_str s = Inr st \<longleftrightarrow> s = alert_status_str st"
    by (cases st) (auto simp: alert_status_from_str_def alert_status_str_def)
  show "role_from_str s = Inr r \<longleftrightarrow> s = role_str r"
    by (cases r) (auto simp: role_from_str_def role_str_def)
  show "severity_from_str s = Inr sv \<longleftrightarrow> s = severity_str sv"
    by (cases sv) (auto simp: severity_from_str_def severity_str_def)
qed

lemma decision_roundtrip [simp]: "decision_from_str (decision_str d) = Inr d"
  by (cases d) (simp_all add: decision_from_str_def decision_str_def)

lemma alert_status_roundtrip [simp]: "alert_status_from_str (alert_status_str d) = Inr d"
  by (cases d) (simp_all add: alert_status_from_str_def alert_status_str_def)

lemma role_roundtrip [simp]: "role_from_str (role_str d) = Inr d"
  by (cases d) (simp_all add: role_from_str_def role_str_def)

lemma severity_roundtrip [simp]: "severity_from_str (severity_str d) = Inr d"
  by (cases d) (simp_all add: severity_from_str_def severity_str_def)

lemma status_of_decision_not_open [simp]: "status_of_decision d \<noteq> Open"
  by (cases d) (simp_all add: status_of_decision_def)

lemma status_of_decision_str: "alert_status_str (status_of_decision d) = decision_str d"
  by (cases d) (simp_all add: status_of_decision_def alert_status_str_def decision_str_def)

lemma status_of_decision_inject: "status_of_decision d = status_of_decision e \<longleftrightarrow> d = e"
  by (cases d; cases e) (simp_all add: status_of_decision_def)

lemma set_movement_accounts: "set (movement_accounts ms) = mv_from ` set ms \<union> mv_to ` set ms"
  by (auto simp: movement_accounts_def)

lemma set_involved_accounts:
  "set (involved_accounts t) = insert (tx_source_account t) (mv_from ` set (tx_movements t) \<union> mv_to ` set (tx_movements t))"
  by (simp add: involved_accounts_def set_movement_accounts)

lemma dedup_assets_keys: "asset_key ` set (dedup_assets as) = asset_key ` set as"
  by (simp add: dedup_assets_def image_dedup_by_key)

lemma dedup_assets_sorted: "sorted (map asset_key (dedup_assets as))"
  by (simp add: dedup_assets_def map_dedup_by_key sorted_remdups_adj)

lemma dedup_assets_distinct: "distinct (map asset_key (dedup_assets as))"
  by (simp add: dedup_assets_def dedup_by_key_sorted)

lemma asset_key_inject:
  assumes "CHR '':'' \<notin> set (as_code a)" "CHR '':'' \<notin> set (as_code b)" "asset_key a = asset_key b"
  shows "a = b"
proof -
  have *: "u = v \<and> x = y" if "u @ '':'' @ x = v @ '':'' @ y" "CHR '':'' \<notin> set u" "CHR '':'' \<notin> set v"
    for u v x y :: string
    using that by (induction u v rule: list_induct2') (auto simp: Cons_eq_append_conv)
  have no: "u @ '':'' @ x \<noteq> v" if "CHR '':'' \<notin> set v" for u v x :: string
    using that by auto
  from assms show ?thesis
    by (auto simp: asset_key_def no [simplified] no [simplified, symmetric] dest!: * [simplified]
             split: option.splits intro: asset.equality)
qed

end
