(* ===== verification/Crates.thy ===== *)
theory Crates
  imports Domain
begin

text \<open>
  What the program takes from outside its source tree. The functions of third-party crates are
  parameters of the model: the fields of one record \<open>crates\<close>, passed to every definition that
  calls them. What the program relies on about them is stated as named predicates
  (\<open>codecs_ok\<close>, \<open>rfc3339_ordered\<close>), which are hypotheses where a property needs them and never
  assumptions of the model. The clock, the generator of random identifiers, the success of
  each database statement and the answers of remote servers are oracles carried in the state (\<open>env\<close>), consumed one value per call.
\<close>

section \<open>Third-party functions\<close>

record 'a codec =
  to_text :: "'a \<Rightarrow> string + string"
  of_text :: "string \<Rightarrow> string + 'a"

text \<open>
  \<open>cr_dec_text\<close>/\<open>cr_dec_parse\<close>: \<open>rust_decimal\<close>; \<open>cr_rfc3339\<close>: \<open>chrono\<close>; \<open>cr_uuid_text\<close>,
  \<open>cr_uuid_bytes\<close>: \<open>uuid\<close>; \<open>cr_sha256\<close>, \<open>cr_hex\<close>: \<open>sha2\<close> and \<open>hex\<close>; the codecs: \<open>serde_json\<close> on
  the named type, an error being its message; \<open>cr_status_text\<close>: how \<open>reqwest\<close> displays a status code; \<open>cr_unique_error\<close> (of a column) and
  \<open>cr_foreign_key_error\<close>: the message of a violated constraint.
\<close>

record crates =
  cr_dec_text :: "decimal \<Rightarrow> string"
  cr_dec_parse :: "string \<Rightarrow> decimal option"
  cr_rfc3339 :: "datetime \<Rightarrow> string"
  cr_rfc3339_parse :: "string \<Rightarrow> string + datetime"
  cr_uuid_text :: "uuid \<Rightarrow> string"
  cr_uuid_parse :: "string \<Rightarrow> string + uuid"
  cr_uuid_bytes :: "uuid \<Rightarrow> string"
  cr_sha256 :: "string \<Rightarrow> string"
  cr_hex :: "string \<Rightarrow> string"
  cr_json :: "json \<Rightarrow> string + string"
  cr_event :: "audit_event_kind codec"
  cr_strings :: "string list codec"
  cr_assets :: "asset list codec"
  cr_triggers :: "rule_trigger list codec"
  cr_ai_status :: "ai_advisory_status codec"
  cr_movements :: "asset_movement list codec"
  cr_tx_json :: "normalized_transaction \<Rightarrow> string + string"
  cr_status_text :: "nat \<Rightarrow> string"
  cr_unique_error :: "string \<Rightarrow> string"
  cr_foreign_key_error :: string

text \<open>Reading back what was written gives the value that was written.\<close>

definition codec_exact :: "'a codec \<Rightarrow> bool" where
  "codec_exact c \<longleftrightarrow> (\<forall>x. \<exists>t. to_text c x = Inr t \<and> of_text c t = Inr x)"

text \<open>
  Values that contain floating-point numbers may come back changed in a last digit, as the
  comment on \<open>AuditRecord::event_json\<close> says; only that they can be read back is relied on.
\<close>

definition codec_readable :: "'a codec \<Rightarrow> bool" where
  "codec_readable c \<longleftrightarrow> (\<forall>x. \<exists>t y. to_text c x = Inr t \<and> of_text c t = Inr y)"

definition codecs_ok :: "crates \<Rightarrow> bool" where
  "codecs_ok X \<longleftrightarrow>
     (\<forall>u. cr_uuid_parse X (cr_uuid_text X u) = Inr u)
     \<and> (\<forall>t. cr_rfc3339_parse X (cr_rfc3339 X t) = Inr t)
     \<and> codec_exact (cr_strings X) \<and> codec_exact (cr_assets X) \<and> codec_exact (cr_movements X)
     \<and> codec_readable (cr_triggers X) \<and> codec_readable (cr_ai_status X) \<and> codec_readable (cr_event X)"

text \<open>\<open>serde_json\<close> writes every JSON value.\<close>

definition json_writes :: "crates \<Rightarrow> bool" where
  "json_writes X \<longleftrightarrow> (\<forall>v. \<exists>t. cr_json X v = Inr t)"

definition reread :: "'a codec \<Rightarrow> 'a \<Rightarrow> 'a" where
  "reread c x = (case to_text c x of Inl _ \<Rightarrow> x
     | Inr t \<Rightarrow> (case of_text c t of Inl _ \<Rightarrow> x | Inr y \<Rightarrow> y))"

lemma codec_exactE:
  assumes "codec_exact c"
  obtains t where "to_text c x = Inr t" "of_text c t = Inr x"
  using assms by (auto simp: codec_exact_def)

lemma codec_readableE:
  assumes "codec_readable c"
  obtains t where "to_text c x = Inr t" "of_text c t = Inr (reread c x)"
proof -
  from assms obtain t y where "to_text c x = Inr t" "of_text c t = Inr y"
    unfolding codec_readable_def by blast
  then show ?thesis using that by (simp add: reread_def)
qed

text \<open>
  Timestamps of years 0 to 9999, for which RFC 3339 text in UTC has a four-digit year, sort as
  text the way they sort as instants. The database compares \<open>created_at\<close> columns as text.
\<close>

definition four_digit_year :: "datetime \<Rightarrow> bool" where
  "four_digit_year t \<longleftrightarrow> seconds (- 62167219200) \<le> t \<and> t < seconds 253402300800"

definition rfc3339_ordered :: "crates \<Rightarrow> bool" where
  "rfc3339_ordered X \<longleftrightarrow> (\<forall>t u. four_digit_year t \<longrightarrow> four_digit_year u \<longrightarrow>
     (cr_rfc3339 X t \<le> cr_rfc3339 X u \<longleftrightarrow> t \<le> u))"

section \<open>The environment\<close>

text \<open>
  HTTP through \<open>reqwest\<close>: a request, and what came back. A failed exchange, and reading a body as
  text or as JSON that fails, carry the error's message.
\<close>

record http_request =
  rq_method :: string
  rq_url :: string
  rq_query :: "(string \<times> string) list"
  rq_headers :: "(string \<times> string) list"
  rq_body :: "json option"

record http_response =
  hr_status :: nat
  hr_text :: "string + string"
  hr_json :: "string + json"

definition is_success :: "nat \<Rightarrow> bool" where
  "is_success code \<longleftrightarrow> 200 \<le> code \<and> code < 300"

record env =
  env_clock :: "nat \<Rightarrow> datetime"
  env_ticks :: nat
  env_uuid_src :: "nat \<Rightarrow> uuid"
  env_uuids :: nat
  env_faults :: "nat \<Rightarrow> string option"
  env_calls :: nat
  env_http :: "nat \<Rightarrow> http_request \<Rightarrow> string + http_response"
  env_sent :: "http_request list"
  env_slept :: "nat list"

text \<open>\<open>Utc::now()\<close> and \<open>Uuid::new_v4()\<close>.\<close>

definition utc_now :: "('a env_scheme, 'e, datetime) action" where
  "utc_now s = (Inr (env_clock s (env_ticks s)), s\<lparr>env_ticks := Suc (env_ticks s)\<rparr>)"

definition new_uuid :: "('a env_scheme, 'e, uuid) action" where
  "new_uuid s = (Inr (env_uuid_src s (env_uuids s)), s\<lparr>env_uuids := Suc (env_uuids s)\<rparr>)"

text \<open>The next database statement: its error message, or success.\<close>

definition sql_call :: "('a env_scheme, string, unit) action" where
  "sql_call s =
     ((case env_faults s (env_calls s) of None \<Rightarrow> Inr () | Some e \<Rightarrow> Inl e),
      s\<lparr>env_calls := Suc (env_calls s)\<rparr>)"

text \<open>Sending a request; the requests sent so far are kept in order.\<close>

definition http_send :: "http_request \<Rightarrow> ('a env_scheme, string, http_response) action" where
  "http_send rq s = (env_http s (length (env_sent s)) rq, s\<lparr>env_sent := env_sent s @ [rq]\<rparr>)"

text \<open>\<open>tokio::time::sleep\<close>, in milliseconds.\<close>

definition sleep_ms :: "nat \<Rightarrow> 'a env_scheme \<Rightarrow> 'a env_scheme" where
  "sleep_ms n s = s\<lparr>env_slept := env_slept s @ [n]\<rparr>"

section \<open>JSON values\<close>

text \<open>\<open>Value::get\<close> on an object, \<open>as_str\<close>, \<open>as_array\<close>.\<close>

definition json_get :: "string \<Rightarrow> json \<Rightarrow> json option" where
  "json_get k v = (case v of JObject kvs \<Rightarrow> map_of kvs k | _ \<Rightarrow> None)"

definition json_as_str :: "json \<Rightarrow> string option" where
  "json_as_str v = (case v of JString t \<Rightarrow> Some t | _ \<Rightarrow> None)"

definition json_as_array :: "json \<Rightarrow> json list option" where
  "json_as_array v = (case v of JArray xs \<Rightarrow> Some xs | _ \<Rightarrow> None)"

definition json_str_field :: "string \<Rightarrow> json \<Rightarrow> string option" where
  "json_str_field k v = Option.bind (json_get k v) json_as_str"

lemma utc_now_then [simp]:
  "and_then utc_now k s = k (env_clock s (env_ticks s)) (s\<lparr>env_ticks := Suc (env_ticks s)\<rparr>)"
  by (simp add: and_then_def utc_now_def)

lemma new_uuid_then [simp]:
  "and_then new_uuid k s = k (env_uuid_src s (env_uuids s)) (s\<lparr>env_uuids := Suc (env_uuids s)\<rparr>)"
  by (simp add: and_then_def new_uuid_def)

end
