(* ===== verification/Samples.thy ===== *)
theory Samples
  imports Crates
begin

text \<open>
  A concrete instance of the third-party functions, used only where a property with a hypothesis
  about them is shown to be satisfiable: length-prefixed strings, fixed-width decimal timestamps,
  decimal identifiers. \<open>sample_codecs_ok\<close> and \<open>sample_rfc3339_ordered\<close> show that the predicates of
  \<open>Crates\<close> can hold.
\<close>

section \<open>Length-prefixed lists of strings\<close>

definition enc_string :: "string \<Rightarrow> string" where
  "enc_string s = show_nat (length s) @ '':'' @ s"

definition enc_strings :: "string list \<Rightarrow> string" where
  "enc_strings ss = concat (map enc_string ss)"

definition split_len :: "string \<Rightarrow> nat \<times> string" where
  "split_len s = (digits_val (takeWhile is_digit s), drop 1 (dropWhile is_digit s))"

fun dec_strings :: "nat \<Rightarrow> string \<Rightarrow> string list" where
  "dec_strings 0 s = []"
| "dec_strings (Suc fuel) s =
     (if s = [] then []
      else (let (n, r) = split_len s in take n r # dec_strings fuel (drop n r)))"

lemma split_len_enc: "split_len (enc_string s @ t) = (length s, s @ t)"
proof -
  have c: "\<not> is_digit (CHR '':'')" by (simp add: is_digit_def)
  have "takeWhile is_digit (show_nat (length s) @ CHR '':'' # s @ t) = show_nat (length s)"
       "dropWhile is_digit (show_nat (length s) @ CHR '':'' # s @ t) = CHR '':'' # s @ t"
    using show_nat_digits [of "length s"] c
    by (simp_all add: list_all_iff takeWhile_append2 dropWhile_append2)
  then show ?thesis by (simp add: split_len_def enc_string_def digits_val_show_nat)
qed

lemma enc_string_nonempty [simp]: "enc_string s \<noteq> []" by (simp add: enc_string_def)

lemma dec_enc_strings: "length ss < fuel \<Longrightarrow> dec_strings fuel (enc_strings ss) = ss"
proof (induction ss arbitrary: fuel)
  case Nil
  then show ?case by (cases fuel) (simp_all add: enc_strings_def)
next
  case (Cons s ss)
  then obtain f where f: "fuel = Suc f" by (cases fuel) auto
  have e: "enc_strings (s # ss) = enc_string s @ enc_strings ss" by (simp add: enc_strings_def)
  show ?case using Cons by (simp add: f e split_len_enc)
qed

lemma length_enc_strings: "length ss \<le> length (enc_strings ss)"
proof (induction ss)
  case (Cons s ss)
  have "1 \<le> length (enc_string s)" by (simp add: enc_string_def)
  with Cons show ?case by (simp add: enc_strings_def)
qed (simp add: enc_strings_def)

definition strings_codec :: "string list codec" where
  "strings_codec = \<lparr>to_text = (\<lambda>ss. Inr (enc_strings ss)), of_text = (\<lambda>s. Inr (dec_strings (Suc (length s)) s))\<rparr>"

lemma dec_strings_codec [simp]: "dec_strings (Suc (length (enc_strings ss))) (enc_strings ss) = ss"
  by (rule dec_enc_strings) (simp add: le_imp_less_Suc length_enc_strings)

text \<open>A codec for lists of records that are written as a fixed number of strings each.\<close>

fun unflat :: "nat \<Rightarrow> nat \<Rightarrow> (string list \<Rightarrow> 'a) \<Rightarrow> string list \<Rightarrow> 'a list" where
  "unflat 0 k f ss = []"
| "unflat (Suc fuel) k f ss = (if ss = [] then [] else f (take k ss) # unflat fuel k f (drop k ss))"

definition rows_codec :: "nat \<Rightarrow> ('a \<Rightarrow> string list) \<Rightarrow> (string list \<Rightarrow> 'a) \<Rightarrow> 'a list codec" where
  "rows_codec k g f =
     \<lparr>to_text = (\<lambda>xs. Inr (enc_strings (concat (map g xs)))),
      of_text = (\<lambda>s. let ss = dec_strings (Suc (length s)) s in Inr (unflat (length ss) k f ss))\<rparr>"

lemma unflat_flat:
  assumes "\<And>x. length (g x) = k" "0 < k" "\<And>x. f (g x) = x"
  shows "length xs \<le> fuel \<Longrightarrow> unflat fuel k f (concat (map g xs)) = xs"
proof (induction xs arbitrary: fuel)
  case Nil
  then show ?case by (cases fuel) simp_all
next
  case (Cons x xs)
  then obtain n where n: "fuel = Suc n" by (cases fuel) auto
  have "g x \<noteq> []" using assms(1) [of x] assms(2) by auto
  with Cons n assms show ?case by simp
qed

lemma rows_codec_exact:
  assumes "\<And>x. length (g x) = k" "0 < k" "\<And>x. f (g x) = x"
  shows "codec_exact (rows_codec k g f)"
proof -
  have "length xs \<le> length (concat (map g xs))" for xs
  proof (induction xs)
    case (Cons x xs)
    then show ?case using assms(1) [of x] assms(2) by simp
  qed simp
  then show ?thesis
    using unflat_flat [of g k f] assms
    by (simp add: codec_exact_def rows_codec_def Let_def del: dec_strings.simps)
qed

section \<open>Numbers and timestamps\<close>

definition read_int :: "string \<Rightarrow> int" where
  "read_int s = (case s of [] \<Rightarrow> 0 | c # t \<Rightarrow> if c = CHR ''-'' then - int (digits_val t) else int (digits_val s))"

lemma read_show_int [simp]: "read_int (show_int i) = i"
proof (cases "i < 0")
  case True
  then show ?thesis by (simp add: read_int_def show_int_def digits_val_show_nat)
next
  case False
  obtain c t where ct: "show_nat (nat i) = c # t" by (cases "show_nat (nat i)") auto
  with show_nat_hd [of "nat i"] have "c \<noteq> CHR ''-''" by (auto simp: is_digit_def)
  with False ct show ?thesis
    by (simp add: read_int_def show_int_def) (metis digits_val_show_nat int_nat_eq not_less ct)
qed

text \<open>\<open>k\<close> decimal digits, most significant first.\<close>

fun fixed_digits :: "nat \<Rightarrow> nat \<Rightarrow> string" where
  "fixed_digits 0 n = []"
| "fixed_digits (Suc k) n = digit_char (n div 10 ^ k) # fixed_digits k (n mod 10 ^ k)"

lemma fixed_digits_foldl:
  "n < 10 ^ k \<Longrightarrow> foldl (\<lambda>a c. 10 * a + (of_char c - 48)) a (fixed_digits k n) = a * 10 ^ k + n"
proof (induction k arbitrary: a n)
  case (Suc k)
  then have d: "n div 10 ^ k < 10" by (simp add: less_mult_imp_div_less mult.commute)
  have "(a * 10 + n div 10 ^ k) * 10 ^ k + n mod 10 ^ k = a * 10 ^ Suc k + n"
    by (simp add: algebra_simps)
  with d Suc.IH [of "n mod 10 ^ k"] show ?case by (simp add: mult.commute)
qed simp

lemma fixed_digits_val: "n < 10 ^ k \<Longrightarrow> digits_val (fixed_digits k n) = n"
  using fixed_digits_foldl [of n k 0] by (simp add: digits_val_def)

lemma char_less_digit: "a < 10 \<Longrightarrow> b < 10 \<Longrightarrow> digit_char a < digit_char b \<longleftrightarrow> a < b"
  by (simp add: less_char_def)

text \<open>Strings of the same number of digits compare as the numbers do.\<close>

lemma fixed_digits_le: "m < 10 ^ k \<Longrightarrow> n < 10 ^ k \<Longrightarrow> fixed_digits k m \<le> fixed_digits k n \<longleftrightarrow> m \<le> n"
proof (induction k arbitrary: m n)
  case (Suc k)
  let ?a = "m div 10 ^ k" and ?b = "n div 10 ^ k"
  have d: "?a < 10" "?b < 10" using Suc.prems by (simp_all add: less_mult_imp_div_less mult.commute)
  have "fixed_digits (Suc k) m \<le> fixed_digits (Suc k) n \<longleftrightarrow>
      ?a < ?b \<or> ?a = ?b \<and> m mod 10 ^ k \<le> n mod 10 ^ k"
    using d Suc.IH [of "m mod 10 ^ k" "n mod 10 ^ k"] char_less_digit [of ?a ?b]
    by (auto dest: arg_cong [of _ _ "of_char :: char \<Rightarrow> nat"])
  also have "\<dots> \<longleftrightarrow> m \<le> n"
  proof -
    have "?a \<le> ?b" if "m \<le> n" using that by (rule div_le_mono)
    moreover have "m < n" if "?a < ?b"
      using that by (metis div_le_mono linorder_not_less)
    moreover have "m \<le> n \<longleftrightarrow> m mod 10 ^ k \<le> n mod 10 ^ k" if "?a = ?b"
      using that by (metis add_le_cancel_left div_mult_mod_eq)
    ultimately show ?thesis by (meson le_eq_less_or_eq)
  qed
  finally show ?case .
qed simp

definition time_offset :: int where "time_offset = seconds 62167219200"

definition sample_rfc3339 :: "datetime \<Rightarrow> string" where
  "sample_rfc3339 t =
     (if four_digit_year t then CHR ''t'' # fixed_digits 21 (nat (t + time_offset))
      else CHR ''x'' # show_int t)"

definition sample_rfc3339_parse :: "string \<Rightarrow> string + datetime" where
  "sample_rfc3339_parse s =
     (case s of [] \<Rightarrow> Inl ''premature end of input''
      | c # r \<Rightarrow> Inr (if c = CHR ''t'' then int (digits_val r) - time_offset else read_int r))"

lemma four_digit_year_nat:
  assumes "four_digit_year t"
  shows "int (nat (t + time_offset)) = t + time_offset" "nat (t + time_offset) < 10 ^ 21"
proof -
  show "int (nat (t + time_offset)) = t + time_offset"
    using assms by (simp add: four_digit_year_def time_offset_def seconds_def)
  have "t + time_offset < 10 ^ 21"
    using assms by (simp add: four_digit_year_def time_offset_def seconds_def)
  then show "nat (t + time_offset) < 10 ^ 21"
    by (simp add: nat_less_iff)
qed

lemma sample_rfc3339_roundtrip: "sample_rfc3339_parse (sample_rfc3339 t) = Inr t"
  using four_digit_year_nat [of t]
  by (simp add: sample_rfc3339_def sample_rfc3339_parse_def fixed_digits_val del: fixed_digits.simps)

section \<open>The instance\<close>

definition asset_row :: "asset \<Rightarrow> string list" where
  "asset_row a = [as_code a, (case as_issuer a of None \<Rightarrow> [] | Some i \<Rightarrow> CHR ''i'' # i)]"

definition asset_of_row :: "string list \<Rightarrow> asset" where
  "asset_of_row r = \<lparr>as_code = r ! 0, as_issuer = (case r ! 1 of [] \<Rightarrow> None | _ # i \<Rightarrow> Some i)\<rparr>"

definition movement_row :: "asset_movement \<Rightarrow> string list" where
  "movement_row m = asset_row (mv_asset m) @
     [mv_from m, mv_to m, show_int (mantissa (mv_amount m)), show_nat (scale (mv_amount m))]"

definition movement_of_row :: "string list \<Rightarrow> asset_movement" where
  "movement_of_row r =
     \<lparr>mv_asset = asset_of_row (take 2 r), mv_from = r ! 2, mv_to = r ! 3,
      mv_amount = Decimal (read_int (r ! 4)) (digits_val (r ! 5))\<rparr>"

text \<open>An unambiguous rendering of JSON values.\<close>

fun json_text :: "json \<Rightarrow> string" where
  "json_text JNull = ''n''"
| "json_text (JBool b) = (if b then ''t'' else ''f'')"
| "json_text (JInt i) = CHR ''i'' # enc_string (show_int i)"
| "json_text (JFloat q) = CHR ''q'' # enc_string (show_int (fst (quotient_of q))) @ enc_string (show_int (snd (quotient_of q)))"
| "json_text (JString t) = CHR ''s'' # enc_string t"
| "json_text (JArray vs) = CHR ''['' # concat (map json_text vs) @ '']''"
| "json_text (JObject kvs) = CHR ''{'' # concat (map (\<lambda>(k, v). enc_string k @ json_text v) kvs) @ ''}''"

definition const_codec :: "'a \<Rightarrow> 'a codec" where
  "const_codec x = \<lparr>to_text = (\<lambda>_. Inr ''{}''), of_text = (\<lambda>_. Inr x)\<rparr>"

definition sample_crates :: crates where
  "sample_crates =
     \<lparr>cr_dec_text = (\<lambda>d. show_int (mantissa d) @ ''e-'' @ show_nat (scale d)),
      cr_dec_parse = (\<lambda>s. map_option dec_of_nat (parse_digits s)),
      cr_rfc3339 = sample_rfc3339,
      cr_rfc3339_parse = sample_rfc3339_parse,
      cr_uuid_text = (\<lambda>u. show_nat (unat u)),
      cr_uuid_parse = (\<lambda>s. case parse_digits s of None \<Rightarrow> Inl ''invalid uuid'' | Some n \<Rightarrow> Inr (of_nat n)),
      cr_uuid_bytes = (\<lambda>u. show_nat (unat u)),
      cr_sha256 = (\<lambda>s. s),
      cr_hex = (\<lambda>s. s),
      cr_json = (\<lambda>v. Inr (json_text v)),
      cr_event = const_codec (AiAdvisoryUnavailable ''offline''),
      cr_strings = strings_codec,
      cr_assets = rows_codec 2 asset_row asset_of_row,
      cr_triggers = const_codec [],
      cr_ai_status = const_codec Pending,
      cr_movements = rows_codec 6 movement_row movement_of_row,
      cr_tx_json = (\<lambda>_. Inr ''{}''),
      cr_status_text = show_nat,
      cr_unique_error = (\<lambda>c. ''UNIQUE constraint failed: '' @ c),
      cr_foreign_key_error = ''FOREIGN KEY constraint failed''\<rparr>"

lemma const_codec_readable [simp]: "codec_readable (const_codec x)"
  by (simp add: codec_readable_def const_codec_def)

lemma strings_codec_exact [simp]: "codec_exact strings_codec"
  by (simp add: codec_exact_def strings_codec_def del: dec_strings.simps)

lemma asset_row_inverse [simp]: "asset_of_row (asset_row a) = a"
  by (cases a) (simp add: asset_of_row_def asset_row_def split: option.split)

lemma movement_row_inverse [simp]: "movement_of_row (movement_row m) = m"
proof -
  have "take 2 (movement_row m) = asset_row (mv_asset m)" by (simp add: movement_row_def asset_row_def)
  then show ?thesis
    by (cases m) (simp add: movement_of_row_def, simp add: movement_row_def asset_row_def digits_val_show_nat)
qed

lemma assets_codec_exact [simp]: "codec_exact (rows_codec 2 asset_row asset_of_row)"
  by (rule rows_codec_exact) (simp_all add: asset_row_def [abs_def] asset_of_row_def split: option.split)

lemma movements_codec_exact [simp]: "codec_exact (rows_codec 6 movement_row movement_of_row)"
  by (rule rows_codec_exact [OF _ _ movement_row_inverse]) (simp_all add: movement_row_def asset_row_def)

lemma sample_codecs_ok: "codecs_ok sample_crates"
  by (simp add: codecs_ok_def sample_crates_def sample_rfc3339_roundtrip)

lemma sample_rfc3339_ordered: "rfc3339_ordered sample_crates"
proof -
  have "sample_rfc3339 t \<le> sample_rfc3339 u \<longleftrightarrow> t \<le> u" if "four_digit_year t" "four_digit_year u" for t u
  proof -
    have "nat (t + time_offset) \<le> nat (u + time_offset) \<longleftrightarrow> t \<le> u"
      using four_digit_year_nat(1) [OF that(1)] four_digit_year_nat(1) [OF that(2)] by linarith
    then show ?thesis
      using that four_digit_year_nat(2) [OF that(1)] four_digit_year_nat(2) [OF that(2)]
      by (simp add: sample_rfc3339_def fixed_digits_le del: fixed_digits.simps)
  qed
  then show ?thesis by (simp add: rfc3339_ordered_def sample_crates_def)
qed

text \<open>A transaction for the witnesses.\<close>

definition sample_movement :: asset_movement where
  "sample_movement = \<lparr>mv_asset = asset_native, mv_from = ''GALICE'', mv_to = ''GBOB'', mv_amount = dec_of_nat 50000\<rparr>"

definition sample_tx :: normalized_transaction where
  "sample_tx =
     \<lparr>tx_id = ''tx-1'', tx_ledger = 1, tx_created_at = seconds 1000, tx_source_account = ''GALICE'',
      tx_fee_charged = 100, tx_memo = None, tx_operation_count = 1, tx_successful = True,
      tx_movements = [sample_movement], tx_contract_ids = []\<rparr>"

end
