(* ===== verification/AiAdvisor.thy ===== *)
theory AiAdvisor
  imports Samples
begin

text \<open>
  The \<open>ai_advisor\<close> crate: the request that is shown to the model (\<open>request.rs\<close>), the validation
  of what comes back (\<open>validate.rs\<close>), the HTTP client and the null advisor (\<open>client.rs\<close>).
\<close>

datatype advisor_error = AdvNetwork string | AdvProvider string | AdvInvalidResponse string | AdvNotConfigured

definition advisor_error_text :: "advisor_error \<Rightarrow> string" where
  "advisor_error_text e =
     (case e of AdvNetwork m \<Rightarrow> ''network error: '' @ m
      | AdvProvider m \<Rightarrow> ''AI provider returned an error: '' @ m
      | AdvInvalidResponse m \<Rightarrow> ''AI response failed validation: '' @ m
      | AdvNotConfigured \<Rightarrow> ''AI advisor not configured'')"

section \<open>The request\<close>

record movement_summary =
  ms_asset :: string
  ms_amount :: string
  ms_from :: string
  ms_to :: string

record history_summary =
  hs_recent_transaction_count :: nat
  hs_baseline_tx_per_hour :: f64
  hs_known_asset_count :: nat

record advisory_request =
  aq_alert_id :: uuid
  aq_tx_id :: tx_id
  aq_source_account :: string
  aq_movements :: "movement_summary list"
  aq_triggered_rules :: "rule_trigger list"
  aq_score :: f64
  aq_severity :: severity
  aq_history :: history_summary

text \<open>The derived \<open>Serialize\<close> implementations: one key per field, in declaration order.\<close>

definition movement_summary_json :: "movement_summary \<Rightarrow> json" where
  "movement_summary_json m =
     JObject [(''asset'', JString (ms_asset m)), (''amount'', JString (ms_amount m)),
              (''from'', JString (ms_from m)), (''to'', JString (ms_to m))]"

definition history_summary_json :: "history_summary \<Rightarrow> json" where
  "history_summary_json h =
     JObject [(''recent_transaction_count'', JInt (int (hs_recent_transaction_count h))),
              (''baseline_tx_per_hour'', JFloat (hs_baseline_tx_per_hour h)),
              (''known_asset_count'', JInt (int (hs_known_asset_count h)))]"

definition rule_trigger_json :: "rule_trigger \<Rightarrow> json" where
  "rule_trigger_json t =
     JObject [(''rule_id'', JString (rt_rule_id t)), (''rule_name'', JString (rt_rule_name t)),
              (''reason'', JString (rt_reason t)), (''weight'', JFloat (rt_weight t)), (''evidence'', rt_evidence t)]"

definition to_payload :: "crates \<Rightarrow> advisory_request \<Rightarrow> json" where
  "to_payload X q =
     JObject [(''alert_id'', JString (cr_uuid_text X (aq_alert_id q))),
              (''tx_id'', JString (aq_tx_id q)),
              (''source_account'', JString (aq_source_account q)),
              (''movements'', JArray (map movement_summary_json (aq_movements q))),
              (''triggered_rules'', JArray (map rule_trigger_json (aq_triggered_rules q))),
              (''score'', JFloat (aq_score q)),
              (''severity'', JString (severity_str (aq_severity q))),
              (''history'', history_summary_json (aq_history q))]"

section \<open>Validation of model output\<close>

definition max_text_len :: nat where "max_text_len = 2000"
definition max_short_len :: nat where "max_short_len = 300"
definition max_list_items :: nat where "max_list_items = 10"

definition allowed_risk_levels :: "string list" where
  "allowed_risk_levels = [''low'', ''elevated'', ''high'', ''critical'']"

record raw_advisory_input =
  ri_summary :: string
  ri_suspicious_signals :: "string list"
  ri_relevant_history :: string
  ri_risk_level :: string
  ri_risk_rationale :: string
  ri_recommended_next_steps :: "string list"
  ri_confidence :: f64
  ri_explanation :: string

record sanitized_advisory =
  sa_summary :: string
  sa_suspicious_signals :: "string list"
  sa_relevant_history :: string
  sa_risk_assessment :: risk_assessment
  sa_recommended_next_steps :: "string list"
  sa_confidence :: f32
  sa_explanation :: string

text \<open>A character is its UTF-8 bytes; \<open>chars().filter(..).collect()\<close> concatenates what is kept.\<close>

definition keep_char :: "string \<Rightarrow> bool" where
  "keep_char c \<longleftrightarrow> c = [CHR 0x0A] \<or> c = [CHR 0x09] \<or> \<not> char_is_control c"

definition is_angle :: "string \<Rightarrow> bool" where
  "is_angle c \<longleftrightarrow> c = ''<'' \<or> c = ''>''"

definition sanitize_text :: "string \<Rightarrow> nat \<Rightarrow> string" where
  "sanitize_text input max_len =
     (let stripped = concat (filter keep_char (utf8_chars input));
          cleaned = (if str_contains ''<script'' (to_ascii_lowercase stripped)
                     then concat (filter (\<lambda>c. \<not> is_angle c) (utf8_chars stripped)) else stripped)
      in concat (take max_len (utf8_chars cleaned)))"

definition checked_risk_level :: "string \<Rightarrow> string" where
  "checked_risk_level level =
     (let l = to_ascii_lowercase (trim level) in if l \<in> set allowed_risk_levels then l else ''unspecified'')"

definition validate_and_sanitize :: "raw_advisory_input \<Rightarrow> advisor_error + sanitized_advisory" where
  "validate_and_sanitize raw =
     (if trim (ri_summary raw) = [] then Inl (AdvInvalidResponse ''summary was empty'')
      else Inr
        \<lparr>sa_summary = sanitize_text (ri_summary raw) max_text_len,
         sa_suspicious_signals = map (\<lambda>s. sanitize_text s max_short_len) (take max_list_items (ri_suspicious_signals raw)),
         sa_relevant_history = sanitize_text (ri_relevant_history raw) max_text_len,
         sa_risk_assessment = \<lparr>ra_level = checked_risk_level (ri_risk_level raw),
                               ra_rationale = sanitize_text (ri_risk_rationale raw) max_text_len\<rparr>,
         sa_recommended_next_steps =
           map (\<lambda>s. sanitize_text s max_short_len) (take max_list_items (ri_recommended_next_steps raw)),
         sa_confidence = rn32 (f64_clamp 0 1 (ri_confidence raw)),
         sa_explanation = sanitize_text (ri_explanation raw) max_text_len\<rparr>)"

section \<open>The client\<close>

text \<open>The \<open>AiAdvisor\<close> trait.\<close>

type_synonym 's ai_advisor = "advisory_request \<Rightarrow> ('s, advisor_error, ai_advisory) action"

definition default_model :: string where "default_model = ''claude-opus-5''"
definition anthropic_version :: string where "anthropic_version = ''2023-06-01''"
definition tool_name :: string where "tool_name = ''submit_fraud_advisory''"

definition string_prop :: "string \<Rightarrow> json" where
  "string_prop d = JObject [(''type'', JString ''string''), (''description'', JString d)]"

definition strings_prop :: "string \<Rightarrow> json" where
  "strings_prop d =
     JObject [(''type'', JString ''array''), (''items'', JObject [(''type'', JString ''string'')]),
              (''description'', JString d)]"

definition advisory_fields :: "string list" where
  "advisory_fields =
     [''summary'', ''suspicious_signals'', ''relevant_history'', ''risk_level'', ''risk_rationale'',
      ''recommended_next_steps'', ''confidence'', ''explanation'']"

definition tool_schema :: json where
  "tool_schema =
     JObject
       [(''name'', JString tool_name),
        (''description'', JString (''Submit a structured, advisory-only fraud investigation assessment for a flagged Stellar transaction. This is never a final decision '' @ em_dash @ '' a human investigator makes that call separately.'')),
        (''strict'', JBool True),
        (''input_schema'', JObject
          [(''type'', JString ''object''),
           (''properties'', JObject
             [(''summary'', string_prop ''Concise summary of the transaction and why it was flagged.''),
              (''suspicious_signals'', strings_prop ''The specific suspicious signals detected.''),
              (''relevant_history'', string_prop ''Relevant context from the account's available transaction history.''),
              (''risk_level'', JObject [(''type'', JString ''string''), (''enum'', JArray (map JString allowed_risk_levels))]),
              (''risk_rationale'', string_prop ''Why this risk level, in plain terms.''),
              (''recommended_next_steps'', strings_prop ''Concrete next investigative steps for a human investigator.''),
              (''confidence'', JObject [(''type'', JString ''number''), (''minimum'', JInt 0), (''maximum'', JInt 1),
                 (''description'', JString ''Confidence in this assessment, 0 to 1.'')]),
              (''explanation'', string_prop ''Brief explanation of the reasoning behind this assessment.'')]),
           (''required'', JArray (map JString advisory_fields)),
           (''additionalProperties'', JBool False)])]"

definition system_prompt :: string where
  "system_prompt =
     ''You are a fraud/anomaly triage assistant for a Stellar blockchain risk system. '' @
     ''You analyze transactions that a deterministic rules engine has already flagged, and produce a structured, '' @
     ''advisory-only assessment for a human investigator. You are strictly advisory: you never approve, reject, '' @
     ''freeze, reverse, or block a transaction, and nothing you output is treated as a decision. Base your '' @
     ''assessment only on the rule triggers, transaction data, and history summary provided '' @ em_dash @ '' do not invent '' @
     ''account history, identities, or off-chain facts you were not given. Call the submit_fraud_advisory tool '' @
     ''exactly once with your assessment.''"

record anthropic_advisor =
  aa_base_url :: string
  aa_api_key :: string
  aa_model :: string

definition anthropic_new :: "string \<Rightarrow> anthropic_advisor" where
  "anthropic_new key = \<lparr>aa_base_url = ''https://api.anthropic.com'', aa_api_key = key, aa_model = default_model\<rparr>"

definition with_base_url :: "anthropic_advisor \<Rightarrow> string \<Rightarrow> anthropic_advisor" where
  "with_base_url a url = a\<lparr>aa_base_url := url\<rparr>"

definition with_model :: "anthropic_advisor \<Rightarrow> string \<Rightarrow> anthropic_advisor" where
  "with_model a m = a\<lparr>aa_model := m\<rparr>"

definition unwrap_or_default :: "string + string \<Rightarrow> string" where
  "unwrap_or_default r = (case r of Inl _ \<Rightarrow> [] | Inr t \<Rightarrow> t)"

definition advisory_http_request :: "crates \<Rightarrow> anthropic_advisor \<Rightarrow> advisory_request \<Rightarrow> http_request" where
  "advisory_http_request X a q =
     \<lparr>rq_method = ''POST'', rq_url = aa_base_url a @ ''/v1/messages'', rq_query = [],
      rq_headers = [(''content-type'', ''application/json''), (''x-api-key'', aa_api_key a),
                    (''anthropic-version'', anthropic_version)],
      rq_body = Some (JObject
        [(''model'', JString (aa_model a)),
         (''max_tokens'', JInt 8000),
         (''system'', JString system_prompt),
         (''tools'', JArray [tool_schema]),
         (''tool_choice'', JObject [(''type'', JString ''tool''), (''name'', JString tool_name)]),
         (''output_config'', JObject [(''effort'', JString ''medium'')]),
         (''messages'', JArray [JObject
            [(''role'', JString ''user''),
             (''content'', JString (unwrap_or_default (cr_json X (to_payload X q))))]])])\<rparr>"

definition is_advisory_call :: "json \<Rightarrow> bool" where
  "is_advisory_call block \<longleftrightarrow>
     json_str_field ''type'' block = Some ''tool_use'' \<and> json_str_field ''name'' block = Some tool_name"

text \<open>From the response to the tool input; \<open>parse_raw\<close> is the derived \<open>Deserialize\<close>.\<close>

definition tool_input :: "json \<Rightarrow> advisor_error + json" where
  "tool_input payload =
     (if json_str_field ''stop_reason'' payload = Some ''refusal''
      then Inl (AdvProvider ''model declined to respond (refusal)'')
      else res_bind (ok_or (AdvInvalidResponse ''missing content array'')
                       (Option.bind (json_get ''content'' payload) json_as_array)) (\<lambda>content.
           ok_or (AdvInvalidResponse ''no submit_fraud_advisory tool call in response'')
             (Option.bind (find is_advisory_call content) (json_get ''input''))))"

definition read_response ::
  "crates \<Rightarrow> (json \<Rightarrow> string + raw_advisory_input) \<Rightarrow> http_response \<Rightarrow> advisor_error + sanitized_advisory" where
  "read_response X parse_raw resp =
     (if \<not> is_success (hr_status resp)
      then Inl (AdvProvider (''HTTP '' @ cr_status_text X (hr_status resp) @ '': '' @ unwrap_or_default (hr_text resp)))
      else res_bind (map_err AdvInvalidResponse (hr_json resp)) (\<lambda>payload.
           res_bind (tool_input payload) (\<lambda>inp.
           res_bind (map_err (\<lambda>e. AdvInvalidResponse (''malformed tool input: '' @ e)) (parse_raw inp))
             validate_and_sanitize)))"

definition anthropic_investigate ::
  "crates \<Rightarrow> (json \<Rightarrow> string + raw_advisory_input) \<Rightarrow> anthropic_advisor \<Rightarrow> 'a env_scheme ai_advisor" where
  "anthropic_investigate X parse_raw a q =
     and_then (map_err_act AdvNetwork (http_send (advisory_http_request X a q))) (\<lambda>resp.
     and_then (lift_res (read_response X parse_raw resp)) (\<lambda>sanitized.
     and_then utc_now (\<lambda>now.
       ok \<lparr>adv_alert_id = aq_alert_id q, adv_generated_at = now, adv_summary = sa_summary sanitized,
           adv_suspicious_signals = sa_suspicious_signals sanitized,
           adv_relevant_history = sa_relevant_history sanitized,
           adv_risk_assessment = sa_risk_assessment sanitized,
           adv_recommended_next_steps = sa_recommended_next_steps sanitized,
           adv_confidence = sa_confidence sanitized, adv_explanation = sa_explanation sanitized,
           adv_model = aa_model a, adv_disclaimer = ai_advisory_disclaimer\<rparr>)))"

definition null_advisor :: "'s ai_advisor" where
  "null_advisor q = err AdvNotConfigured"

section \<open>What sanitizing guarantees\<close>

lemma byte_is_char:
  "chars_ok cs \<Longrightarrow> concat cs = u @ b # v \<Longrightarrow> \<not> is_cont_byte b \<Longrightarrow> v = [] \<or> \<not> is_cont_byte (hd v) \<Longrightarrow> [b] \<in> set cs"
proof (induction cs arbitrary: u)
  case (Cons d ds)
  obtain h tl where d: "d = h # tl" "list_all is_cont_byte tl" using Cons.prems(1) by (cases d) auto
  show ?case
  proof (cases u)
    case Nil
    then have "b = h" "v = tl @ concat ds" using Cons.prems(2) d by auto
    moreover have "tl = []" using Cons.prems(4) d(2) calculation(2) by (cases tl) auto
    ultimately show ?thesis using d by simp
  next
    case (Cons x u')
    with \<open>concat (d # ds) = u @ b # v\<close> d have e: "tl @ concat ds = u' @ b # v" by simp
    have "length tl \<le> length u'"
    proof (rule ccontr)
      assume "\<not> length tl \<le> length u'"
      then have "tl ! length u' = (u' @ b # v) ! length u'" "length u' < length tl"
        using arg_cong [OF e, of "\<lambda>w. w ! length u'"] by (simp_all add: nth_append)
      then have "is_cont_byte b" using d(2) by (metis list_all_length nth_append_length)
      with Cons.prems(3) show False by simp
    qed
    then have "concat ds = drop (length tl) u' @ b # v" using arg_cong [OF e, of "drop (length tl)"] by simp
    moreover have "chars_ok ds" using Cons.prems(1) by (simp add: chars_ok_proper)
    ultimately have "[b] \<in> set ds" using Cons.IH Cons.prems(3,4) by blast
    then show ?thesis by simp
  qed
qed simp

text \<open>Where the lower-cased text shows \<open><script\<close>, the text has the character \<open><\<close>.\<close>

lemma script_has_angle:
  assumes "str_contains ''<script'' (to_ascii_lowercase s)"
  shows "''<'' \<in> set (utf8_chars s)"
proof -
  obtain u v where uv: "to_ascii_lowercase s = u @ ''<script'' @ v"
    using assms by (auto simp: str_contains_iff)
  let ?r = "drop (length u) s"
  have "to_ascii_lowercase ?r = drop (length u) (to_ascii_lowercase s)"
    by (simp add: to_ascii_lowercase_def drop_map)
  then have r: "to_ascii_lowercase ?r = ''<script'' @ v" using uv by simp
  then obtain b c w where bc: "?r = b # c # w" "ascii_lower_char b = CHR ''<''" "ascii_lower_char c = CHR ''s''"
    by (auto simp: to_ascii_lowercase_def map_eq_Cons_conv)
  have b: "b = CHR ''<''" by (rule ascii_lower_fix [OF bc(2)])
  have "\<not> is_cont_byte c"
  proof
    assume "is_cont_byte c"
    then have "ascii_lower_char c = c" by (auto simp: is_cont_byte_def ascii_lower_char_def)
    with bc(3) \<open>is_cont_byte c\<close> show False by (simp add: is_cont_byte_def)
  qed
  moreover have "concat (utf8_chars s) = take (length u) s @ CHR ''<'' # c # w"
    using bc(1) b by (metis append_take_drop_id concat_utf8_chars)
  ultimately show ?thesis
    using byte_is_char [OF chars_ok_utf8 [of s], of "take (length u) s" "CHR ''<''" "c # w"]
    by (simp add: is_cont_byte_def)
qed

lemma sanitized_chars:
  "utf8_chars (sanitize_text s n) =
     (let cs = filter keep_char (utf8_chars s)
      in take n (if str_contains ''<script'' (to_ascii_lowercase (concat cs)) then filter (\<lambda>c. \<not> is_angle c) cs else cs))"
  by (simp add: sanitize_text_def Let_def)

lemma sanitize_keeps: "c \<in> set (utf8_chars (sanitize_text s n)) \<Longrightarrow> keep_char c"
  by (auto simp: sanitized_chars Let_def split: if_splits dest!: in_set_takeD)

lemma sanitize_length: "length (utf8_chars (sanitize_text s n)) \<le> n"
  by (simp add: sanitized_chars Let_def)

lemma concat_take_prefix: "\<exists>r. concat cs = concat (take n cs) @ r"
  by (metis append_take_drop_id concat_append)

lemma sanitize_no_script: "\<not> str_contains ''<script'' (to_ascii_lowercase (sanitize_text s n))"
proof -
  let ?cs = "filter keep_char (utf8_chars s)"
  show ?thesis
  proof (cases "str_contains ''<script'' (to_ascii_lowercase (concat ?cs))")
    case True
    then have "''<'' \<notin> set (utf8_chars (sanitize_text s n))"
      by (auto simp: sanitized_chars Let_def is_angle_def dest!: in_set_takeD)
    then show ?thesis using script_has_angle by blast
  next
    case False
    obtain r where "concat ?cs = concat (take n ?cs) @ r" using concat_take_prefix by blast
    then have "\<not> str_contains ''<script'' (to_ascii_lowercase (concat (take n ?cs)))"
      using False str_contains_append_mono [of "''<script''" "to_ascii_lowercase (concat (take n ?cs))" "[]" "to_ascii_lowercase r"]
      by auto
    moreover have "sanitize_text s n = concat (take n ?cs)" using False by (simp add: sanitize_text_def Let_def)
    ultimately show ?thesis by simp
  qed
qed

text \<open>A text that is already clean and short enough.\<close>

definition clean_text :: "nat \<Rightarrow> string \<Rightarrow> bool" where
  "clean_text n s \<longleftrightarrow>
     length (utf8_chars s) \<le> n \<and> (\<forall>c \<in> set (utf8_chars s). keep_char c)
     \<and> \<not> str_contains ''<script'' (to_ascii_lowercase s)"

lemma sanitize_clean: "clean_text n (sanitize_text s n)"
  using sanitize_keeps sanitize_length sanitize_no_script by (simp add: clean_text_def)

lemma sanitize_id: "clean_text n s \<Longrightarrow> sanitize_text s n = s"
  by (simp add: clean_text_def sanitize_text_def Let_def filter_id_conv)


text \<open>The bounds every accepted advisory meets.\<close>

definition advisory_within_bounds :: "sanitized_advisory \<Rightarrow> bool" where
  "advisory_within_bounds a \<longleftrightarrow>
     clean_text 2000 (sa_summary a) \<and> clean_text 2000 (sa_relevant_history a)
     \<and> clean_text 2000 (ra_rationale (sa_risk_assessment a)) \<and> clean_text 2000 (sa_explanation a)
     \<and> length (sa_suspicious_signals a) \<le> 10 \<and> length (sa_recommended_next_steps a) \<le> 10
     \<and> (\<forall>t \<in> set (sa_suspicious_signals a) \<union> set (sa_recommended_next_steps a). clean_text 300 t)
     \<and> ra_level (sa_risk_assessment a) \<in> {''low'', ''elevated'', ''high'', ''critical'', ''unspecified''}
     \<and> 0 \<le> sa_confidence a \<and> sa_confidence a \<le> 1"

lemma validated_bounds:
  assumes "validate_and_sanitize raw = Inr a"
  shows "advisory_within_bounds a"
proof -
  have "0 \<le> rn32 (f64_clamp 0 1 (ri_confidence raw)) \<and> rn32 (f64_clamp 0 1 (ri_confidence raw)) \<le> 1"
    using f64_clamp_bounds [of 0 1 "ri_confidence raw"] rn32_unit by simp
  then show ?thesis
    using assms
    by (auto simp: validate_and_sanitize_def advisory_within_bounds_def sanitize_clean max_text_len_def
          max_short_len_def max_list_items_def checked_risk_level_def allowed_risk_levels_def Let_def split: if_splits)
qed

text \<open>
  Validation rejects model output exactly when its summary is blank, and what it accepts is
  bounded: clean texts of at most 2000 characters, at most ten list items of at most 300 characters
  each, a risk level of the closed vocabulary and a confidence between 0 and 1.
\<close>
theorem validation_bounds:
  "case validate_and_sanitize raw of
     Inl e \<Rightarrow> trim (ri_summary raw) = [] \<and> e = AdvInvalidResponse ''summary was empty''
   | Inr a \<Rightarrow> trim (ri_summary raw) \<noteq> [] \<and> advisory_within_bounds a"
  using validated_bounds [of raw] by (auto simp: validate_and_sanitize_def split: sum.split)

text \<open>
  The emptiness check looks at the text before control characters are removed: a summary that
  consists of a control character is accepted and stored empty.
\<close>

definition bell_input :: raw_advisory_input where
  "bell_input =
     \<lparr>ri_summary = [CHR 0x07], ri_suspicious_signals = [], ri_relevant_history = [], ri_risk_level = ''low'',
      ri_risk_rationale = [], ri_recommended_next_steps = [], ri_confidence = 1, ri_explanation = []\<rparr>"

theorem empty_summary_accepted:
  "\<exists>a. validate_and_sanitize bell_input = Inr a \<and> sa_summary a = []"
  by (simp add: validate_and_sanitize_def bell_input_def trim_def char_is_whitespace_def bytes_of_def
        sanitize_text_def Let_def keep_char_def char_is_control_def max_text_len_def str_contains.simps
        starts_with_def to_ascii_lowercase_def)

section \<open>What the client returns\<close>


end
