(* ===== verification/Ingestion.thy ===== *)
theory Ingestion
  imports Samples "HOL-Library.Sublist"
begin

text \<open>
  The \<open>ingestion\<close> crate: normalising Horizon records (\<open>normalize.rs\<close>), the mock source
  (\<open>mock.rs\<close>), the Horizon client with its retries and paging (\<open>horizon.rs\<close>).
\<close>

datatype ingestion_error = IngNetwork string | IngDecode string

definition ingestion_error_text :: "ingestion_error \<Rightarrow> string" where
  "ingestion_error_text e =
     (case e of IngNetwork m \<Rightarrow> ''network error: '' @ m | IngDecode m \<Rightarrow> ''unexpected response shape: '' @ m)"

record fetch_failure =
  ff_raw_id :: string
  ff_error :: string

record fetched_batch =
  fb_transactions :: "normalized_transaction list"
  fb_failures :: "fetch_failure list"
  fb_next_cursor :: "string option"

text \<open>The \<open>TransactionSource\<close> trait.\<close>

record 's transaction_source =
  src_name :: string
  src_poll :: "string option \<Rightarrow> ('s, ingestion_error, fetched_batch) action"

section \<open>Normalisation\<close>

record horizon_transaction =
  ht_hash :: string
  ht_ledger :: "32 word"
  ht_created_at :: string
  ht_source_account :: string
  ht_fee_charged :: string
  ht_operation_count :: "32 word"
  ht_successful :: bool
  ht_memo :: "string option"
  ht_paging_token :: string

record horizon_operation =
  ho_type :: string
  ho_from :: "string option"
  ho_to :: "string option"
  ho_funder :: "string option"
  ho_account :: "string option"
  ho_amount :: "string option"
  ho_starting_balance :: "string option"
  ho_asset_type :: "string option"
  ho_asset_code :: "string option"
  ho_asset_issuer :: "string option"

definition op_asset :: "horizon_operation \<Rightarrow> asset" where
  "op_asset op =
     (case ho_asset_type op of
        None \<Rightarrow> asset_native
      | Some ty \<Rightarrow>
          if ty = ''native'' then asset_native
          else \<lparr>as_code = (case ho_asset_code op of Some c \<Rightarrow> c | None \<Rightarrow> ''unknown''),
                as_issuer = ho_asset_issuer op\<rparr>)"

text \<open>Every \<open>?\<close> of \<open>movement\<close> gives up with \<open>None\<close>.\<close>

definition movement_of ::
  "crates \<Rightarrow> asset \<Rightarrow> string option \<Rightarrow> string option \<Rightarrow> string option \<Rightarrow> asset_movement option" where
  "movement_of X a from to amount =
     Option.bind amount (\<lambda>amount.
     Option.bind from (\<lambda>from.
     Option.bind to (\<lambda>to.
     Option.bind (cr_dec_parse X amount) (\<lambda>d.
       Some \<lparr>mv_asset = a, mv_from = from, mv_to = to, mv_amount = d\<rparr>))))"

definition op_movement :: "crates \<Rightarrow> horizon_operation \<Rightarrow> asset_movement option" where
  "op_movement X op =
     (if ho_type op \<in> {''payment'', ''path_payment_strict_send'', ''path_payment_strict_receive''}
      then movement_of X (op_asset op) (ho_from op) (ho_to op) (ho_amount op)
      else if ho_type op = ''create_account''
      then movement_of X asset_native (ho_funder op) (ho_account op) (ho_starting_balance op)
      else None)"

definition normalize_transaction ::
  "crates \<Rightarrow> horizon_transaction \<Rightarrow> horizon_operation list \<Rightarrow> string list \<Rightarrow> ingestion_error + normalized_transaction" where
  "normalize_transaction X tx operations contract_ids =
     res_bind (map_err (\<lambda>e. IngDecode (''bad created_at: '' @ e)) (cr_rfc3339_parse X (ht_created_at tx))) (\<lambda>created_at.
     res_bind (map_err (\<lambda>e. IngDecode (''bad fee_charged: '' @ e)) (parse_i64 (ht_fee_charged tx))) (\<lambda>fee.
       Inr \<lparr>tx_id = ht_hash tx, tx_ledger = ht_ledger tx, tx_created_at = created_at,
            tx_source_account = ht_source_account tx, tx_fee_charged = fee, tx_memo = ht_memo tx,
            tx_operation_count = ht_operation_count tx, tx_successful = ht_successful tx,
            tx_movements = List.map_filter (op_movement X) operations, tx_contract_ids = contract_ids\<rparr>))"

section \<open>The mock source\<close>

record mock_source =
  mk_transactions :: "normalized_transaction list"
  mk_batch_size :: nat

definition mock_new :: "normalized_transaction list \<Rightarrow> mock_source" where
  "mock_new txs = \<lparr>mk_transactions = txs, mk_batch_size = 10\<rparr>"

definition with_batch_size :: "mock_source \<Rightarrow> nat \<Rightarrow> mock_source" where
  "with_batch_size m n = m\<lparr>mk_batch_size := max n 1\<rparr>"

definition mock_poll :: "mock_source \<Rightarrow> string option \<Rightarrow> ingestion_error + fetched_batch" where
  "mock_poll m cursor =
     res_bind (case cursor of
                 None \<Rightarrow> Inr 0
               | Some c \<Rightarrow> ok_or (IngDecode (''invalid mock cursor: '' @ c)) (parse_usize c)) (\<lambda>start.
       let txs = mk_transactions m in
       if start \<ge> length txs
       then Inr \<lparr>fb_transactions = [], fb_failures = [], fb_next_cursor = cursor\<rparr>
       else let end' = min (start + mk_batch_size m) (length txs)
            in Inr \<lparr>fb_transactions = take (end' - start) (drop start txs), fb_failures = [],
                    fb_next_cursor = Some (show_nat end')\<rparr>)"

definition mock_transaction_source :: "mock_source \<Rightarrow> 's transaction_source" where
  "mock_transaction_source m = \<lparr>src_name = ''mock'', src_poll = (\<lambda>c. lift_res (mock_poll m c))\<rparr>"

section \<open>The Horizon client\<close>

text \<open>The derived \<open>Deserialize\<close> of the two page types, from the body of a response.\<close>

record horizon_codec =
  hc_tx_page :: "json \<Rightarrow> string + horizon_transaction list"
  hc_op_page :: "json \<Rightarrow> string + horizon_operation list"

record horizon_source =
  hz_base_url :: string
  hz_page_limit :: "32 word"
  hz_max_retries :: nat

definition horizon_new :: "string \<Rightarrow> horizon_source" where
  "horizon_new url = \<lparr>hz_base_url = url, hz_page_limit = 50, hz_max_retries = 3\<rparr>"

definition with_page_limit :: "horizon_source \<Rightarrow> 32 word \<Rightarrow> horizon_source" where
  "with_page_limit h n = h\<lparr>hz_page_limit := n\<rparr>"

definition http_get :: "string \<Rightarrow> http_request" where
  "http_get url = \<lparr>rq_method = ''GET'', rq_url = url, rq_query = [], rq_headers = [], rq_body = None\<rparr>"

definition is_server_error :: "nat \<Rightarrow> bool" where
  "is_server_error code \<longleftrightarrow> 500 \<le> code \<and> code < 600"

text \<open>
  One pass of the loop decides whether to return or to try again; \<open>attempt\<close> is its value after
  the increment at the head of the loop.
\<close>

definition get_json_outcome ::
  "crates \<Rightarrow> (json \<Rightarrow> string + 'b) \<Rightarrow> nat \<Rightarrow> string \<Rightarrow> nat \<Rightarrow> string + http_response \<Rightarrow> (ingestion_error + 'b) option" where
  "get_json_outcome X parse max_retries url attempt outcome =
     (case outcome of
        Inr resp \<Rightarrow>
          if is_success (hr_status resp) then Some (map_err IngDecode (res_bind (hr_json resp) parse))
          else if attempt \<ge> max_retries \<or> \<not> is_server_error (hr_status resp)
          then Some (Inl (IngNetwork (''HTTP '' @ cr_status_text X (hr_status resp) @ '' from '' @ url)))
          else None
      | Inl e \<Rightarrow> if attempt \<ge> max_retries then Some (Inl (IngNetwork e)) else None)"

lemma get_json_retry: "get_json_outcome X parse n url a outcome = None \<Longrightarrow> a < n"
  by (auto simp: get_json_outcome_def split: sum.splits if_splits)

function get_json_loop ::
  "crates \<Rightarrow> (json \<Rightarrow> string + 'b) \<Rightarrow> nat \<Rightarrow> string \<Rightarrow> nat \<Rightarrow> ('a env_scheme, ingestion_error, 'b) action" where
  "get_json_loop X parse max_retries url attempt s =
     (let attempt = attempt + 1; (outcome, s) = http_send (http_get url) s
      in case get_json_outcome X parse max_retries url attempt outcome of
           Some r \<Rightarrow> (r, s)
         | None \<Rightarrow> get_json_loop X parse max_retries url attempt (sleep_ms (200 * 2 ^ (attempt - 1)) s))"
  by pat_completeness auto

termination
  by (relation "measure (\<lambda>(X, parse, n, url, a, s). n - a)") (auto dest!: get_json_retry)

declare get_json_loop.simps [simp del]

definition get_json ::
  "crates \<Rightarrow> horizon_source \<Rightarrow> (json \<Rightarrow> string + 'b) \<Rightarrow> string \<Rightarrow> ('a env_scheme, ingestion_error, 'b) action" where
  "get_json X h parse url = get_json_loop X parse (hz_max_retries h) url 0"

definition fetch_operations ::
  "crates \<Rightarrow> horizon_codec \<Rightarrow> horizon_source \<Rightarrow> string \<Rightarrow> ('a env_scheme, ingestion_error, horizon_operation list) action" where
  "fetch_operations X C h tx_hash =
     get_json X h (hc_op_page C) (hz_base_url h @ ''/transactions/'' @ tx_hash @ ''/operations?limit=200'')"

definition poll_url :: "horizon_source \<Rightarrow> string option \<Rightarrow> string" where
  "poll_url h cursor =
     (case cursor of
        Some c \<Rightarrow> hz_base_url h @ ''/transactions?cursor='' @ c @ ''&order=asc&limit='' @ show_nat (unat (hz_page_limit h))
      | None \<Rightarrow> hz_base_url h @ ''/transactions?order=desc&limit='' @ show_nat (unat (hz_page_limit h)))"

text \<open>What becomes of one record, given its operations or the error of fetching them.\<close>

definition record_outcome ::
  "crates \<Rightarrow> horizon_transaction \<Rightarrow> ingestion_error + horizon_operation list \<Rightarrow> fetch_failure + normalized_transaction" where
  "record_outcome X rec ops =
     map_err (\<lambda>e. \<lparr>ff_raw_id = ht_hash rec, ff_error = ingestion_error_text e\<rparr>)
       (res_bind ops (\<lambda>operations. normalize_transaction X rec operations []))"

definition add_outcome :: "fetch_failure + normalized_transaction \<Rightarrow> string \<Rightarrow> fetched_batch \<Rightarrow> fetched_batch" where
  "add_outcome out paging_token b =
     (case out of
        Inr t \<Rightarrow> b\<lparr>fb_transactions := fb_transactions b @ [t], fb_next_cursor := Some paging_token\<rparr>
      | Inl f \<Rightarrow> b\<lparr>fb_failures := fb_failures b @ [f], fb_next_cursor := Some paging_token\<rparr>)"

fun poll_records ::
  "crates \<Rightarrow> horizon_codec \<Rightarrow> horizon_source \<Rightarrow> horizon_transaction list \<Rightarrow> fetched_batch \<Rightarrow>
   'a env_scheme \<Rightarrow> fetched_batch \<times> 'a env_scheme" where
  "poll_records X C h [] b s = (b, s)"
| "poll_records X C h (rec # recs) b s =
     (let (ops, s) = fetch_operations X C h (ht_hash rec) s
      in poll_records X C h recs (add_outcome (record_outcome X rec ops) (ht_paging_token rec) b) s)"

definition horizon_poll ::
  "crates \<Rightarrow> horizon_codec \<Rightarrow> horizon_source \<Rightarrow> string option \<Rightarrow> ('a env_scheme, ingestion_error, fetched_batch) action" where
  "horizon_poll X C h cursor =
     and_then (get_json X h (hc_tx_page C) (poll_url h cursor)) (\<lambda>page s.
       let records = (if cursor = None then rev page else page);
           (b, s) = poll_records X C h records
                      \<lparr>fb_transactions = [], fb_failures = [], fb_next_cursor = cursor\<rparr> s
       in (Inr b, s))"

definition horizon_transaction_source ::
  "crates \<Rightarrow> horizon_codec \<Rightarrow> horizon_source \<Rightarrow> 'a env_scheme transaction_source" where
  "horizon_transaction_source X C h = \<lparr>src_name = ''horizon'', src_poll = horizon_poll X C h\<rparr>"

section \<open>Retries\<close>

definition transient :: "string + http_response \<Rightarrow> bool" where
  "transient outcome = (case outcome of Inl _ \<Rightarrow> True | Inr resp \<Rightarrow> is_server_error (hr_status resp))"

lemma get_json_outcome_None: "get_json_outcome X parse n url a outcome = None \<Longrightarrow> transient outcome"
  by (auto simp: get_json_outcome_def transient_def split: sum.splits if_splits)

lemma get_json_loop_run:
  "get_json_loop X parse n url a s = (r, t) \<Longrightarrow>
   \<exists>k \<ge> 1. a + k \<le> max (a + 1) n
     \<and> t = s\<lparr>env_sent := env_sent s @ replicate k (http_get url),
            env_slept := env_slept s @ map (\<lambda>i. 200 * 2 ^ (a + i)) [0..<k - 1]\<rparr>
     \<and> (\<forall>i < k - 1. transient (env_http s (length (env_sent s) + i) (http_get url)))
     \<and> get_json_outcome X parse n url (a + k) (env_http s (length (env_sent s) + (k - 1)) (http_get url)) = Some r"
proof (induction X parse n url a s rule: get_json_loop.induct)
  case (1 X parse n url a s)
  let ?o = "env_http s (length (env_sent s)) (http_get url)"
  let ?s = "s\<lparr>env_sent := env_sent s @ [http_get url]\<rparr>"
  have run: "get_json_loop X parse n url a s =
      (case get_json_outcome X parse n url (a + 1) ?o of Some r \<Rightarrow> (r, ?s)
       | None \<Rightarrow> get_json_loop X parse n url (a + 1) (sleep_ms (200 * 2 ^ a) ?s))"
    by (subst get_json_loop.simps) (simp add: http_send_def cong: option.case_cong)
  show ?case
  proof (cases "get_json_outcome X parse n url (a + 1) ?o")
    case (Some q)
    with run "1.prems" have "r = q" "t = ?s" by simp_all
    with Some show ?thesis by (intro exI [of _ 1]) simp
  next
    case None
    let ?s' = "sleep_ms (200 * 2 ^ a) ?s"
    have tr: "transient ?o" by (rule get_json_outcome_None [OF None])
    have sent: "(?o, ?s) = http_send (http_get url) s" by (simp add: http_send_def)
    have "get_json_loop X parse n url (a + 1) (sleep_ms (200 * 2 ^ (a + 1 - 1)) ?s) = (r, t)"
      using run None "1.prems" by simp
    from "1.IH" [OF refl refl sent None this] obtain k where k: "1 \<le> k" "a + 1 + k \<le> max (a + 1 + 1) n"
      and t: "t = ?s'\<lparr>env_sent := env_sent ?s' @ replicate k (http_get url),
            env_slept := env_slept ?s' @ map (\<lambda>i. 200 * 2 ^ (a + 1 + i)) [0..<k - 1]\<rparr>"
      and mid: "\<forall>i < k - 1. transient (env_http ?s' (length (env_sent ?s') + i) (http_get url))"
      and out: "get_json_outcome X parse n url (a + 1 + k) (env_http ?s' (length (env_sent ?s') + (k - 1)) (http_get url)) = Some r"
      by auto
    have b: "a + (k + 1) \<le> max (a + 1) n" using k get_json_retry [OF None] by simp
    have up: "[0..<k] = 0 # map Suc [0..<k - 1]"
      using k(1) by (metis One_nat_def Suc_diff_1 less_eq_Suc_le map_Suc_upt upt_conv_Cons)
    have e: "length (env_sent s) + 1 + (k - 1) = length (env_sent s) + k" using k(1) by simp
    show ?thesis
    proof (intro exI [of _ "k + 1"] conjI allI impI)
      show "t = s\<lparr>env_sent := env_sent s @ replicate (k + 1) (http_get url),
            env_slept := env_slept s @ map (\<lambda>i. 200 * 2 ^ (a + i)) [0..<k + 1 - 1]\<rparr>"
        using t up by (simp add: sleep_ms_def o_def)
      show "transient (env_http s (length (env_sent s) + i) (http_get url))" if "i < k + 1 - 1" for i
        using that mid tr by (cases i) (auto simp: sleep_ms_def)
      show "get_json_outcome X parse n url (a + (k + 1)) (env_http s (length (env_sent s) + (k + 1 - 1)) (http_get url)) = Some r"
        using out e by (simp add: sleep_ms_def add.commute add.left_commute)
    qed (use b in simp_all)
  qed
qed

text \<open>
  C32: A Horizon request is tried between one and \<open>max_retries\<close> times and always returns. It is
  repeated only after a network error or a 5xx answer, with delays 200 ms, 400 ms, 800 ms, ...; the
  result is the one of the last try, and the state changes in nothing but the requests sent and
  the delays.
\<close>
theorem get_json_retries:
  "case get_json X h parse url s of
     (r, t) \<Rightarrow>
       \<exists>k. 1 \<le> k \<and> k \<le> max 1 (hz_max_retries h)
         \<and> t = s\<lparr>env_sent := env_sent s @ replicate k (http_get url),
                env_slept := env_slept s @ map (\<lambda>i. 200 * 2 ^ i) [0..<k - 1]\<rparr>
         \<and> list_all (\<lambda>i. transient (env_http s (length (env_sent s) + i) (http_get url))) [0..<k - 1]
         \<and> get_json_outcome X parse (hz_max_retries h) url k
              (env_http s (length (env_sent s) + (k - 1)) (http_get url)) = Some r"
proof -
  obtain r t where rt: "get_json_loop X parse (hz_max_retries h) url 0 s = (r, t)" by fastforce
  from get_json_loop_run [OF this] show ?thesis
    by (auto simp: get_json_def rt list_all_iff)
qed

section \<open>Polling Horizon\<close>

lemma record_outcome_id:
  "case record_outcome X rec ops of Inr t \<Rightarrow> tx_id t = ht_hash rec | Inl f \<Rightarrow> ff_raw_id f = ht_hash rec"
  by (auto simp: record_outcome_def normalize_transaction_def map_err_def res_bind_def split: sum.splits)

definition batch_ids :: "fetched_batch \<Rightarrow> string multiset" where
  "batch_ids b = mset (map tx_id (fb_transactions b)) + mset (map ff_raw_id (fb_failures b))"

lemma add_outcome_ids:
  "batch_ids (add_outcome (record_outcome X rec ops) tok b) = add_mset (ht_hash rec) (batch_ids b)"
  "fb_next_cursor (add_outcome out tok b) = Some tok"
  "\<exists>ts. fb_transactions (add_outcome (record_outcome X rec ops) tok b) = fb_transactions b @ ts \<and> subseq (map tx_id ts) [ht_hash rec]"
  using record_outcome_id [where X = X and rec = rec and ops = ops]
  by (auto simp: add_outcome_def batch_ids_def split: sum.splits)

lemma poll_records_ids:
  "poll_records X C h recs b s = (b', t) \<Longrightarrow>
     batch_ids b' = batch_ids b + mset (map ht_hash recs)
     \<and> fb_next_cursor b' = (if recs = [] then fb_next_cursor b else Some (ht_paging_token (last recs)))
     \<and> (\<exists>ts. fb_transactions b' = fb_transactions b @ ts \<and> subseq (map tx_id ts) (map ht_hash recs))"
proof (induction recs arbitrary: b s)
  case (Cons rec recs)
  obtain ops s1 where f: "fetch_operations X C h (ht_hash rec) s = (ops, s1)" by (cases "fetch_operations X C h (ht_hash rec) s")
  let ?b = "add_outcome (record_outcome X rec ops) (ht_paging_token rec) b"
  have "poll_records X C h recs ?b s1 = (b', t)" using Cons.prems f by simp
  note ih = Cons.IH [OF this]
  obtain ts where ts: "fb_transactions ?b = fb_transactions b @ ts" "subseq (map tx_id ts) [ht_hash rec]"
    using add_outcome_ids(3) by blast
  obtain us where us: "fb_transactions b' = fb_transactions ?b @ us" "subseq (map tx_id us) (map ht_hash recs)"
    using ih by blast
  have "subseq (map tx_id (ts @ us)) (map ht_hash (rec # recs))"
    using list_emb_append_mono [OF ts(2) us(2)] by simp
  then show ?case using ih ts(1) us(1)
    by (auto simp: add_outcome_ids intro: exI [of _ "ts @ us"])
qed (simp add: batch_ids_def)

text \<open>
  C22: A poll of Horizon loses nothing. Every record of the fetched page ends up exactly once in
  the batch, as a transaction or as a reported failure; the transactions keep ascending order (the
  first page, fetched in descending order, is reversed), and the next cursor is the paging token
  of the last record, or the old cursor when the page is empty. Only a failure to fetch the page
  itself is an error.
\<close>
theorem horizon_poll_loses_nothing:
  "case horizon_poll X C h cursor s of
     (Inl e, t) \<Rightarrow> get_json X h (hc_tx_page C) (poll_url h cursor) s = (Inl e, t)
   | (Inr b, t) \<Rightarrow>
       \<exists>page u. get_json X h (hc_tx_page C) (poll_url h cursor) s = (Inr page, u)
         \<and> batch_ids b = mset (map ht_hash page)
         \<and> (let records = (if cursor = None then rev page else page) in
              subseq (map tx_id (fb_transactions b)) (map ht_hash records)
              \<and> fb_next_cursor b = (if records = [] then cursor else Some (ht_paging_token (last records))))"
proof (cases "get_json X h (hc_tx_page C) (poll_url h cursor) s")
  case (Pair r u)
  show ?thesis
  proof (cases r)
    case (Inl e)
    with Pair show ?thesis by (simp add: horizon_poll_def and_then_def)
  next
    case (Inr page)
    let ?records = "if cursor = None then rev page else page"
    let ?b0 = "\<lparr>fb_transactions = [], fb_failures = [], fb_next_cursor = cursor\<rparr>"
    obtain b t where bt: "poll_records X C h ?records ?b0 u = (b, t)" by (cases "poll_records X C h ?records ?b0 u")
    have hp: "horizon_poll X C h cursor s = (Inr b, t)"
      using Pair Inr bt by (simp add: horizon_poll_def and_then_def)
    have "mset (map ht_hash ?records) = mset (map ht_hash page)" by (simp add: mset_map)
    then show ?thesis using poll_records_ids [OF bt] Pair Inr hp
      by (auto simp: batch_ids_def Let_def)
  qed
qed

section \<open>Replaying the mock source\<close>

text \<open>The transactions of \<open>n\<close> polls in a row, each from the cursor the previous one returned.\<close>

fun mock_drain :: "mock_source \<Rightarrow> nat \<Rightarrow> string option \<Rightarrow> normalized_transaction list" where
  "mock_drain m 0 cursor = []"
| "mock_drain m (Suc n) cursor =
     (case mock_poll m cursor of Inl _ \<Rightarrow> []
      | Inr b \<Rightarrow> fb_transactions b @ mock_drain m n (fb_next_cursor b))"

lemma mock_poll_at:
  assumes "length (mk_transactions m) < 2 ^ 64" "k \<le> length (mk_transactions m)"
    "cursor = Some (show_nat k) \<or> cursor = None \<and> k = 0"
  shows "mock_poll m cursor =
    Inr (if k = length (mk_transactions m) then \<lparr>fb_transactions = [], fb_failures = [], fb_next_cursor = cursor\<rparr>
     else \<lparr>fb_transactions = take (mk_batch_size m) (drop k (mk_transactions m)), fb_failures = [],
           fb_next_cursor = Some (show_nat (min (k + mk_batch_size m) (length (mk_transactions m))))\<rparr>)"
proof -
  have "parse_usize (show_nat k) = Some k" using assms(1,2) by (intro parse_unsigned_show_nat) simp
  moreover have "take (min (k + n) (length xs) - k) (drop k xs) = take n (drop k xs)" if "k \<le> length xs" for n and xs :: "'z list"
    using that by (simp add: min_def)
  ultimately show ?thesis using assms(2,3) by (auto simp: mock_poll_def Let_def)
qed

lemma mock_drain_from:
  assumes "length (mk_transactions m) < 2 ^ 64" "0 < mk_batch_size m"
  shows "k \<le> length (mk_transactions m) \<Longrightarrow> cursor = Some (show_nat k) \<or> cursor = None \<and> k = 0 \<Longrightarrow>
    length (mk_transactions m) - k \<le> n * mk_batch_size m \<Longrightarrow>
    mock_drain m n cursor = drop k (mk_transactions m)"
proof (induction n arbitrary: k cursor)
  case (Suc n)
  let ?xs = "mk_transactions m" and ?b = "mk_batch_size m"
  note p = mock_poll_at [OF assms(1) Suc.prems(1,2)]
  show ?case
  proof (cases "k = length ?xs")
    case True
    then show ?thesis using p Suc.IH [OF Suc.prems(1,2)] by simp
  next
    case False
    have "mock_drain m n (Some (show_nat (min (k + ?b) (length ?xs)))) = drop (min (k + ?b) (length ?xs)) ?xs"
      using Suc.prems(3) by (intro Suc.IH) simp_all
    moreover have "drop (min (k + ?b) (length ?xs)) ?xs = drop ?b (drop k ?xs)"
      by (simp add: min_def add.commute)
    moreover have "take ?b (drop k ?xs) @ drop ?b (drop k ?xs) = drop k ?xs" by (rule append_take_drop_id)
    ultimately show ?thesis using p False by simp
  qed
qed simp

text \<open>
  Replaying the mock source from the start delivers all its transactions, each once and in
  order: as many polls as there are batches give exactly the list, and further polls add nothing.
\<close>
theorem mock_source_delivers_all:
  assumes "length (mk_transactions m) < 2 ^ 64" and "0 < mk_batch_size m"
    and "length (mk_transactions m) \<le> n * mk_batch_size m"
  shows "mock_drain m n None = mk_transactions m"
  using mock_drain_from [OF assms(1,2), of 0 None n] assms(3) by simp

theorem mock_source_delivers_all_witness:
  "mock_drain (with_batch_size (mock_new [sample_tx, sample_tx\<lparr>tx_id := ''tx-2''\<rparr>, sample_tx\<lparr>tx_id := ''tx-3''\<rparr>]) 2) 2 None =
     [sample_tx, sample_tx\<lparr>tx_id := ''tx-2''\<rparr>, sample_tx\<lparr>tx_id := ''tx-3''\<rparr>]"
  using mock_source_delivers_all
    [of "with_batch_size (mock_new [sample_tx, sample_tx\<lparr>tx_id := ''tx-2''\<rparr>, sample_tx\<lparr>tx_id := ''tx-3''\<rparr>]) 2" 2]
  by (simp add: with_batch_size_def mock_new_def)

section \<open>Normalisation\<close>

text \<open>
  Normalising a record can only fail on its timestamp or its fee. Operations never fail:
  those that are not payments or account creations, and also those with a missing account or an
  amount that is not a decimal, contribute no movement and are not reported. The other fields are
  copied.
\<close>
theorem normalize_outcome:
  "case normalize_transaction X tx ops cids of
     Inl e \<Rightarrow> (\<exists>m. e = IngDecode (''bad created_at: '' @ m) \<and> cr_rfc3339_parse X (ht_created_at tx) = Inl m)
            \<or> (\<exists>m. e = IngDecode (''bad fee_charged: '' @ m) \<and> parse_i64 (ht_fee_charged tx) = Inl m)
   | Inr t \<Rightarrow> tx_id t = ht_hash tx \<and> tx_ledger t = ht_ledger tx \<and> tx_source_account t = ht_source_account tx
            \<and> tx_operation_count t = ht_operation_count tx \<and> tx_successful t = ht_successful tx
            \<and> cr_rfc3339_parse X (ht_created_at tx) = Inr (tx_created_at t)
            \<and> parse_i64 (ht_fee_charged tx) = Inr (tx_fee_charged t)
            \<and> tx_contract_ids t = cids
            \<and> tx_movements t = concat (map (\<lambda>op. case op_movement X op of None \<Rightarrow> [] | Some m \<Rightarrow> [m]) ops)"
proof -
  have "List.map_filter (op_movement X) ops = concat (map (\<lambda>op. case op_movement X op of None \<Rightarrow> [] | Some m \<Rightarrow> [m]) ops)"
    by (induction ops) (simp_all add: map_filter_simps split: option.split)
  then show ?thesis
    by (auto simp: normalize_transaction_def map_err_def res_bind_def split: sum.splits)
qed

end
