(* ===== verification/AuditChain.thy ===== *)
theory AuditChain
  imports Samples
begin

text \<open>
  \<open>audit/chain.rs\<close>: the hash of one audit record and the verification of a chain, with what a
  successful verification does and does not establish.
\<close>

datatype audit_error = AuSerialization string | AuStorage string | AuNotFound string

definition audit_error_text :: "audit_error \<Rightarrow> string" where
  "audit_error_text e =
     (case e of AuSerialization m \<Rightarrow> ''serialization error: '' @ m
      | AuStorage m \<Rightarrow> ''storage error: '' @ m | AuNotFound m \<Rightarrow> ''not found: '' @ m)"

definition genesis_hash :: string where
  "genesis_hash = replicate 64 (CHR ''0'')"

text \<open>The JSON object that is hashed.\<close>

definition canonical_record ::
  "crates \<Rightarrow> string \<Rightarrow> int \<Rightarrow> uuid option \<Rightarrow> tx_id option \<Rightarrow> string \<Rightarrow> datetime \<Rightarrow> json" where
  "canonical_record X prev_hash sequence alert_id tx event_json created_at =
     JObject [(''prev_hash'', JString prev_hash),
              (''sequence'', JInt sequence),
              (''alert_id'', json_opt (\<lambda>u. JString (cr_uuid_text X u)) alert_id),
              (''tx_id'', json_opt JString tx),
              (''event_json'', JString event_json),
              (''created_at'', JString (cr_rfc3339 X created_at))]"

definition digest :: "crates \<Rightarrow> json \<Rightarrow> audit_error + string" where
  "digest X v = (case cr_json X v of Inl e \<Rightarrow> Inl (AuSerialization e)
     | Inr bytes \<Rightarrow> Inr (cr_hex X (cr_sha256 X bytes)))"

definition compute_hash ::
  "crates \<Rightarrow> string \<Rightarrow> int \<Rightarrow> uuid option \<Rightarrow> tx_id option \<Rightarrow> string \<Rightarrow> datetime \<Rightarrow> audit_error + string" where
  "compute_hash X prev_hash sequence alert_id tx event_json created_at =
     digest X (canonical_record X prev_hash sequence alert_id tx event_json created_at)"

record chain_verification =
  cv_valid :: bool
  cv_records_checked :: nat
  cv_broken_at_sequence :: "int option"
  cv_detail :: "string option"

fun verify_loop :: "crates \<Rightarrow> nat \<Rightarrow> string \<Rightarrow> audit_record list \<Rightarrow> chain_verification" where
  "verify_loop X i expected_prev [] =
     \<lparr>cv_valid = True, cv_records_checked = i, cv_broken_at_sequence = None, cv_detail = None\<rparr>"
| "verify_loop X i expected_prev (r # rs) =
     (if ar_prev_hash r \<noteq> expected_prev then
        \<lparr>cv_valid = False, cv_records_checked = i, cv_broken_at_sequence = Some (ar_sequence r),
         cv_detail = Some (''record '' @ show_int (ar_sequence r) @ '' prev_hash does not match hash of previous record'')\<rparr>
      else
        (case compute_hash X (ar_prev_hash r) (ar_sequence r) (ar_alert_id r) (ar_tx_id r)
                (ar_event_json r) (ar_created_at r) of
           Inl e \<Rightarrow>
             \<lparr>cv_valid = False, cv_records_checked = i, cv_broken_at_sequence = Some (ar_sequence r),
              cv_detail = Some (''failed to recompute hash: '' @ audit_error_text e)\<rparr>
         | Inr recomputed \<Rightarrow>
             (if recomputed \<noteq> ar_hash r then
                \<lparr>cv_valid = False, cv_records_checked = i, cv_broken_at_sequence = Some (ar_sequence r),
                 cv_detail = Some (''record '' @ show_int (ar_sequence r) @
                   '' stored hash does not match recomputed hash '' @ em_dash @ '' content was altered'')\<rparr>
              else verify_loop X (Suc i) (ar_hash r) rs)))"

definition verify_chain :: "crates \<Rightarrow> audit_record list \<Rightarrow> chain_verification" where
  "verify_chain X records = verify_loop X 0 genesis_hash records"

section \<open>What verification checks\<close>

text \<open>
  An entry is what is stored of a record besides the typed event; the events are represented by
  the stored text, which is what the hash covers.
\<close>

record audit_entry =
  ae_id :: uuid
  ae_alert_id :: "uuid option"
  ae_tx_id :: "tx_id option"
  ae_event_json :: string
  ae_created_at :: datetime
  ae_sequence :: int
  ae_prev_hash :: string
  ae_hash :: string

definition entry_of :: "audit_record \<Rightarrow> audit_entry" where
  "entry_of r =
     \<lparr>ae_id = ar_id r, ae_alert_id = ar_alert_id r, ae_tx_id = ar_tx_id r, ae_event_json = ar_event_json r,
      ae_created_at = ar_created_at r, ae_sequence = ar_sequence r, ae_prev_hash = ar_prev_hash r,
      ae_hash = ar_hash r\<rparr>"

lemma entry_of_sel [simp]:
  "ae_id (entry_of r) = ar_id r" "ae_alert_id (entry_of r) = ar_alert_id r"
  "ae_tx_id (entry_of r) = ar_tx_id r" "ae_event_json (entry_of r) = ar_event_json r"
  "ae_created_at (entry_of r) = ar_created_at r" "ae_sequence (entry_of r) = ar_sequence r"
  "ae_prev_hash (entry_of r) = ar_prev_hash r" "ae_hash (entry_of r) = ar_hash r"
  by (simp_all add: entry_of_def)

definition canonical_entry :: "crates \<Rightarrow> audit_entry \<Rightarrow> json" where
  "canonical_entry X e =
     canonical_record X (ae_prev_hash e) (ae_sequence e) (ae_alert_id e) (ae_tx_id e) (ae_event_json e) (ae_created_at e)"

text \<open>The hash that the next record has to continue from.\<close>

definition last_hash :: "audit_entry list \<Rightarrow> string" where
  "last_hash es = (if es = [] then genesis_hash else ae_hash (last es))"

fun links_from :: "crates \<Rightarrow> string \<Rightarrow> audit_entry list \<Rightarrow> bool" where
  "links_from X prev [] = True"
| "links_from X prev (e # es) \<longleftrightarrow>
     ae_prev_hash e = prev \<and> digest X (canonical_entry X e) = Inr (ae_hash e) \<and> links_from X (ae_hash e) es"

abbreviation linked :: "crates \<Rightarrow> audit_entry list \<Rightarrow> bool" where
  "linked X es \<equiv> links_from X genesis_hash es"

lemma links_from_append:
  "links_from X p (es @ fs) \<longleftrightarrow> links_from X p es \<and> links_from X (if es = [] then p else ae_hash (last es)) fs"
  by (induction es arbitrary: p) auto

lemma linked_snoc:
  "linked X (es @ [e]) \<longleftrightarrow>
     linked X es \<and> ae_prev_hash e = last_hash es \<and> digest X (canonical_entry X e) = Inr (ae_hash e)"
  by (auto simp: links_from_append last_hash_def)

lemma last_hash_snoc [simp]: "last_hash (es @ [e]) = ae_hash e"
  by (simp add: last_hash_def)

lemma links_from_take: "links_from X p es \<Longrightarrow> links_from X p (take n es)"
  by (metis append_take_drop_id links_from_append)

lemma verify_loop_spec:
  "(links_from X p (map entry_of rs) \<longrightarrow>
      verify_loop X i p rs =
        \<lparr>cv_valid = True, cv_records_checked = i + length rs, cv_broken_at_sequence = None, cv_detail = None\<rparr>)
   \<and> (\<not> links_from X p (map entry_of rs) \<longrightarrow>
      (\<exists>good bad rest. rs = good @ bad # rest \<and> links_from X p (map entry_of good)
         \<and> \<not> links_from X p (map entry_of (good @ [bad]))
         \<and> \<not> cv_valid (verify_loop X i p rs)
         \<and> cv_records_checked (verify_loop X i p rs) = i + length good
         \<and> cv_broken_at_sequence (verify_loop X i p rs) = Some (ar_sequence bad)))"
proof (induction rs arbitrary: i p)
  case Nil
  then show ?case by simp
next
  case (Cons r rs)
  let ?h = "compute_hash X (ar_prev_hash r) (ar_sequence r) (ar_alert_id r) (ar_tx_id r) (ar_event_json r) (ar_created_at r)"
  have h: "?h = digest X (canonical_entry X (entry_of r))"
    by (simp add: compute_hash_def canonical_entry_def)
  show ?case
  proof (cases "ar_prev_hash r = p \<and> ?h = Inr (ar_hash r)")
    case False
    then have "verify_loop X i p (r # rs) = verify_loop X i p [r]" "\<not> cv_valid (verify_loop X i p [r])"
      "cv_records_checked (verify_loop X i p [r]) = i"
      "cv_broken_at_sequence (verify_loop X i p [r]) = Some (ar_sequence r)"
      by (auto split: sum.splits)
    with False h show ?thesis by (intro conjI impI) (auto intro!: exI [of _ "[]"])
  next
    case True
    then have p: "p = ar_prev_hash r" and hash: "?h = Inr (ar_hash r)" by auto
    from hash have v: "verify_loop X i p (r # rs) = verify_loop X (Suc i) (ar_hash r) rs"
      by (simp add: p)
    have l: "links_from X p (map entry_of (r # ss)) \<longleftrightarrow> links_from X (ar_hash r) (map entry_of ss)" for ss
      using True h by simp
    show ?thesis
    proof (intro conjI impI)
      assume "links_from X p (map entry_of (r # rs))"
      then show "verify_loop X i p (r # rs) =
        \<lparr>cv_valid = True, cv_records_checked = i + length (r # rs), cv_broken_at_sequence = None, cv_detail = None\<rparr>"
        using Cons.IH [of "ar_hash r" "Suc i"] l v by simp
    next
      assume "\<not> links_from X p (map entry_of (r # rs))"
      then obtain good bad rest where "rs = good @ bad # rest" "links_from X (ar_hash r) (map entry_of good)"
        "\<not> links_from X (ar_hash r) (map entry_of (good @ [bad]))" "\<not> cv_valid (verify_loop X (Suc i) (ar_hash r) rs)"
        "cv_records_checked (verify_loop X (Suc i) (ar_hash r) rs) = Suc i + length good"
        "cv_broken_at_sequence (verify_loop X (Suc i) (ar_hash r) rs) = Some (ar_sequence bad)"
        using Cons.IH [of "ar_hash r" "Suc i"] l by blast
      then show "\<exists>good bad rest. r # rs = good @ bad # rest \<and> links_from X p (map entry_of good)
         \<and> \<not> links_from X p (map entry_of (good @ [bad]))
         \<and> \<not> cv_valid (verify_loop X i p (r # rs))
         \<and> cv_records_checked (verify_loop X i p (r # rs)) = i + length good
         \<and> cv_broken_at_sequence (verify_loop X i p (r # rs)) = Some (ar_sequence bad)"
        using l [of good] l [of "good @ [bad]"] v by (intro exI [of _ "r # good"] exI [of _ bad] exI [of _ rest]) simp
    qed
  qed
qed

lemma verify_chain_linked:
  "linked X (map entry_of rs) \<Longrightarrow> verify_chain X rs =
     \<lparr>cv_valid = True, cv_records_checked = length rs, cv_broken_at_sequence = None, cv_detail = None\<rparr>"
  using verify_loop_spec [of X genesis_hash rs 0] by (simp add: verify_chain_def)

lemma verify_chain_valid_iff: "cv_valid (verify_chain X rs) \<longleftrightarrow> linked X (map entry_of rs)"
  using verify_loop_spec [of X genesis_hash rs 0] by (auto simp: verify_chain_def)

text \<open>
  C9: \<open>verify_chain\<close> finds the first bad record. It reports success, with the number of records,
  exactly when every record continues the hash before it (the first one the genesis hash) and its
  stored hash is the recomputed one; otherwise it reports as checked the longest good prefix and
  as broken the sequence number of the record right after it.
\<close>
theorem verify_chain_first_break:
  "if linked X (map entry_of rs)
   then verify_chain X rs =
     \<lparr>cv_valid = True, cv_records_checked = length rs, cv_broken_at_sequence = None, cv_detail = None\<rparr>
   else \<exists>good bad rest. rs = good @ bad # rest
     \<and> linked X (map entry_of good) \<and> \<not> linked X (map entry_of (good @ [bad]))
     \<and> \<not> cv_valid (verify_chain X rs)
     \<and> cv_records_checked (verify_chain X rs) = length good
     \<and> cv_broken_at_sequence (verify_chain X rs) = Some (ar_sequence bad)"
  using verify_loop_spec [of X genesis_hash rs 0] by (auto simp: verify_chain_def)

text \<open>Two different documents with the same digest, among those hashed for two logs.\<close>

definition digest_collision :: "crates \<Rightarrow> audit_entry list \<Rightarrow> audit_entry list \<Rightarrow> bool" where
  "digest_collision X es fs \<longleftrightarrow>
     (\<exists>e \<in> set es. \<exists>f \<in> set fs. canonical_entry X e \<noteq> canonical_entry X f
        \<and> digest X (canonical_entry X e) = digest X (canonical_entry X f))"

lemma canonical_entry_prev: "canonical_entry X e = canonical_entry X f \<Longrightarrow> ae_prev_hash e = ae_prev_hash f"
  by (simp add: canonical_entry_def canonical_record_def)

lemma linked_tamper:
  "linked X es \<Longrightarrow> linked X fs \<Longrightarrow> last_hash es = last_hash fs \<Longrightarrow>
   map (canonical_entry X) es = map (canonical_entry X) fs
   \<or> digest_collision X es fs \<or> (\<exists>e \<in> set es \<union> set fs. ae_hash e = genesis_hash)"
proof (induction es arbitrary: fs rule: rev_induct)
  case Nil
  show ?case
  proof (cases fs rule: rev_cases)
    case (snoc fs' f)
    with Nil show ?thesis by (auto simp: last_hash_def)
  qed simp
next
  case (snoc e es)
  show ?case
  proof (cases fs rule: rev_cases)
    case Nil
    with snoc.prems show ?thesis by (auto simp: last_hash_def)
  next
    case fs: (snoc fs' f)
    from snoc.prems have l: "linked X es" "linked X fs'" "ae_prev_hash e = last_hash es" "ae_prev_hash f = last_hash fs'"
      "digest X (canonical_entry X e) = digest X (canonical_entry X f)"
      by (simp_all only: fs linked_snoc last_hash_snoc)
    show ?thesis
    proof (cases "canonical_entry X e = canonical_entry X f")
      case False
      with l(5) fs show ?thesis by (auto simp: digest_collision_def)
    next
      case True
      with l have "last_hash es = last_hash fs'" using canonical_entry_prev by metis
      from snoc.IH [OF l(1,2) this] True show ?thesis
        by (auto simp: fs digest_collision_def)
    qed
  qed
qed

lemma links_from_relabel:
  "links_from X p (map entry_of (map (\<lambda>r. r\<lparr>ar_id := f r, ar_event := g r\<rparr>) rs)) = links_from X p (map entry_of rs)"
  by (induction rs arbitrary: p) (simp_all add: canonical_entry_def)

text \<open>What the hash of a record covers: everything but its identifier, its parsed event and the hash itself.\<close>

definition hashed_fields :: "audit_record \<Rightarrow> string \<times> int \<times> uuid option \<times> tx_id option \<times> string \<times> datetime" where
  "hashed_fields r =
     (ar_prev_hash r, ar_sequence r, ar_alert_id r, ar_tx_id r, ar_event_json r, ar_created_at r)"

lemma json_opt_inject: "(\<And>x y. f x = f y \<Longrightarrow> x = y) \<Longrightarrow> (\<And>x. f x \<noteq> JNull) \<Longrightarrow> json_opt f a = json_opt f b \<longleftrightarrow> a = b"
  by (cases a; cases b) (auto simp: json_opt_def dest: sym)

lemma canonical_hashed_fields:
  assumes "codecs_ok X" "canonical_entry X (entry_of r) = canonical_entry X (entry_of q)"
  shows "hashed_fields r = hashed_fields q"
proof -
  have u: "cr_uuid_text X a = cr_uuid_text X b \<longleftrightarrow> a = b" for a b
    using assms(1) unfolding codecs_ok_def by (metis sum.inject(2))
  have t: "cr_rfc3339 X a = cr_rfc3339 X b \<longleftrightarrow> a = b" for a b
    using assms(1) unfolding codecs_ok_def by (metis sum.inject(2))
  have o: "json_opt (\<lambda>u. JString (cr_uuid_text X u)) a = json_opt (\<lambda>u. JString (cr_uuid_text X u)) b \<longleftrightarrow> a = b"
    "json_opt JString c = json_opt JString d \<longleftrightarrow> c = d" for a b c d
    by (rule json_opt_inject; simp add: u)+
  show ?thesis using assms(2)
    by (simp add: canonical_entry_def canonical_record_def hashed_fields_def o t)
qed

lemma map_coarser:
  assumes "\<And>x y. f x = f y \<Longrightarrow> g x = g y"
  shows "map f xs = map f ys \<Longrightarrow> map g xs = map g ys"
proof (induction xs arbitrary: ys)
  case (Cons x xs)
  then obtain y ys' where "ys = y # ys'" "f x = f y" "map f xs = map f ys'" by (cases ys) auto
  with Cons.IH [of ys'] assms [of x y] show ?case by simp
qed simp

text \<open>
  C8: Tamper evidence. Two logs that both verify and end in the same hash agree, record by record, on
  the previous hash, the sequence number, the alert, the transaction, the text of the event and the
  time, unless the two logs exhibit a collision of the digest or a record whose digest is the
  all-zero genesis hash. So changing, inserting, removing or reordering records under an unchanged
  last hash requires breaking the hash function.
\<close>
theorem tamper_evidence:
  assumes "codecs_ok X" and "cv_valid (verify_chain X rs)" and "cv_valid (verify_chain X ss)"
    and "last_hash (map entry_of rs) = last_hash (map entry_of ss)"
  shows "map hashed_fields rs = map hashed_fields ss
    \<or> digest_collision X (map entry_of rs) (map entry_of ss)
    \<or> (\<exists>r \<in> set rs \<union> set ss. ar_hash r = genesis_hash)"
proof -
  have "map (\<lambda>r. canonical_entry X (entry_of r)) rs = map (\<lambda>r. canonical_entry X (entry_of r)) ss \<Longrightarrow>
    map hashed_fields rs = map hashed_fields ss"
    by (rule map_coarser) (rule canonical_hashed_fields [OF assms(1)])
  then show ?thesis
    using linked_tamper [of X "map entry_of rs" "map entry_of ss"] assms(2-4)
    by (auto simp: verify_chain_valid_iff o_def)
qed

text \<open>A two-record log for the witnesses.\<close>

definition sample_record :: "uuid \<Rightarrow> int \<Rightarrow> string \<Rightarrow> audit_record" where
  "sample_record i n prev =
     \<lparr>ar_id = i, ar_alert_id = Some 7, ar_tx_id = Some ''tx-1'', ar_event = AiAdvisoryUnavailable ''offline'',
      ar_event_json = ''{}'', ar_created_at = seconds n, ar_sequence = n, ar_prev_hash = prev,
      ar_hash = (case compute_hash sample_crates prev n (Some 7) (Some ''tx-1'') ''{}'' (seconds n) of
                   Inl _ \<Rightarrow> [] | Inr h \<Rightarrow> h)\<rparr>"

definition sample_log :: "audit_record list" where
  "sample_log = (let r = sample_record 1 0 genesis_hash in [r, sample_record 2 1 (ar_hash r)])"

lemma sample_digest [simp]: "digest sample_crates v = Inr (json_text v)"
  by (simp add: digest_def sample_crates_def)

lemma sample_record_sound:
  "ar_prev_hash (sample_record i n p) = p"
  "digest sample_crates (canonical_entry sample_crates (entry_of (sample_record i n p))) = Inr (ar_hash (sample_record i n p))"
  by (simp_all add: sample_record_def canonical_entry_def compute_hash_def)

lemma sample_log_linked: "linked sample_crates (map entry_of sample_log)"
  by (simp only: sample_log_def Let_def list.map links_from.simps entry_of_sel sample_record_sound)

lemma sample_log_valid: "cv_valid (verify_chain sample_crates sample_log)"
  by (simp only: verify_chain_valid_iff sample_log_linked)

definition relabelled_log :: "audit_record list" where
  "relabelled_log = map (\<lambda>r. r\<lparr>ar_id := 9\<rparr>) sample_log"

lemma relabelled_log_valid: "cv_valid (verify_chain sample_crates relabelled_log)"
  using sample_log_linked links_from_relabel [where f = "\<lambda>_. 9" and g = ar_event and rs = sample_log and p = genesis_hash and X = sample_crates]
  by (simp add: verify_chain_valid_iff relabelled_log_def)

lemma relabelled_last_hash: "last_hash (map entry_of sample_log) = last_hash (map entry_of relabelled_log)"
  by (simp add: relabelled_log_def sample_log_def Let_def last_hash_def)

theorem tamper_evidence_witness:
  "sample_log \<noteq> relabelled_log \<and>
   (map hashed_fields sample_log = map hashed_fields relabelled_log
    \<or> digest_collision sample_crates (map entry_of sample_log) (map entry_of relabelled_log)
    \<or> (\<exists>r \<in> set sample_log \<union> set relabelled_log. ar_hash r = genesis_hash))"
proof
  show "sample_log \<noteq> relabelled_log"
    by (simp add: relabelled_log_def sample_log_def Let_def sample_record_def)
  show "map hashed_fields sample_log = map hashed_fields relabelled_log
    \<or> digest_collision sample_crates (map entry_of sample_log) (map entry_of relabelled_log)
    \<or> (\<exists>r \<in> set sample_log \<union> set relabelled_log. ar_hash r = genesis_hash)"
    by (rule tamper_evidence [OF sample_codecs_ok sample_log_valid relabelled_log_valid relabelled_last_hash])
qed

text \<open>
  C38: What verification cannot see. Dropping any number of the newest records leaves a log that
  verifies, and so does changing the record identifiers and the parsed events, which the hash does
  not cover: only the stored event text is protected.
\<close>
theorem verification_blind_spots:
  assumes "cv_valid (verify_chain X rs)"
  shows "cv_valid (verify_chain X (take n rs))
    \<and> cv_valid (verify_chain X (map (\<lambda>r. r\<lparr>ar_id := new_id r, ar_event := new_event r\<rparr>) rs))"
proof -
  have "linked X (map entry_of rs)" using assms by (simp add: verify_chain_valid_iff)
  then have "linked X (map entry_of (take n rs))" using links_from_take [of X genesis_hash "map entry_of rs" n] by (simp only: take_map)
  then show ?thesis using assms by (simp add: verify_chain_valid_iff links_from_relabel del: map_map)
qed

theorem verification_blind_spots_witness:
  "cv_valid (verify_chain sample_crates (take 1 sample_log))
   \<and> cv_valid (verify_chain sample_crates
        (map (\<lambda>r. r\<lparr>ar_id := 0, ar_event := AiAdvisoryUnavailable ''changed''\<rparr>) sample_log))"
  by (rule verification_blind_spots [OF sample_log_valid])

end
