(* ===== verification/AuditStore.thy ===== *)
theory AuditStore
  imports AuditChain Samples "HOL-Library.Sublist"
begin

text \<open>
  \<open>audit/store.rs\<close>: the \<open>AuditStore\<close> trait as a table of operations, its in-memory
  implementation, and the locale \<open>audit_store\<close> of the laws that the alert service and the API
  rely on. The locale is interpreted here on the in-memory store and in \<open>SqlAudit\<close> on the SQLite
  store. A \<open>Mutex\<close> serialises the operations of a store, so one operation is one atomic step.
\<close>

record new_audit_event =
  ne_alert_id :: "uuid option"
  ne_tx_id :: "tx_id option"
  ne_event :: audit_event_kind

definition new_event :: "audit_event_kind \<Rightarrow> new_audit_event" where
  "new_event e = \<lparr>ne_alert_id = None, ne_tx_id = None, ne_event = e\<rparr>"

definition for_alert :: "new_audit_event \<Rightarrow> uuid \<Rightarrow> new_audit_event" where
  "for_alert e a = e\<lparr>ne_alert_id := Some a\<rparr>"

definition for_tx :: "new_audit_event \<Rightarrow> tx_id \<Rightarrow> new_audit_event" where
  "for_tx e t = e\<lparr>ne_tx_id := Some t\<rparr>"

record 's audit_ops =
  au_append :: "new_audit_event \<Rightarrow> ('s, audit_error, audit_record) action"
  au_list_for_alert :: "uuid \<Rightarrow> ('s, audit_error, audit_record list) action"
  au_list_for_tx :: "tx_id \<Rightarrow> ('s, audit_error, audit_record list) action"
  au_list_all :: "int \<Rightarrow> ('s, audit_error, audit_record list) action"
  au_verify_chain :: "('s, audit_error, chain_verification) action"

section \<open>The in-memory store\<close>

record audit_mem = env +
  am_records :: "audit_record list"

definition event_text :: "crates \<Rightarrow> audit_event_kind \<Rightarrow> audit_error + string" where
  "event_text X e = map_err AuSerialization (to_text (cr_event X) e)"

definition mem_append :: "crates \<Rightarrow> new_audit_event \<Rightarrow> ('a audit_mem_scheme, audit_error, audit_record) action" where
  "mem_append X ev s =
     (let records = am_records s;
          sequence = int (length records);
          prev_hash = (if records = [] then genesis_hash else ar_hash (last records))
      in and_then utc_now (\<lambda>created_at.
         and_then (lift_res (event_text X (ne_event ev))) (\<lambda>event_json.
         and_then (lift_res (compute_hash X prev_hash sequence (ne_alert_id ev) (ne_tx_id ev) event_json created_at)) (\<lambda>hash.
         and_then new_uuid (\<lambda>id s.
           let rec = \<lparr>ar_id = id, ar_alert_id = ne_alert_id ev, ar_tx_id = ne_tx_id ev, ar_event = ne_event ev,
                      ar_event_json = event_json, ar_created_at = created_at, ar_sequence = sequence,
                      ar_prev_hash = prev_hash, ar_hash = hash\<rparr>
           in (Inr rec, s\<lparr>am_records := am_records s @ [rec]\<rparr>))))) s)"

definition mem_list_for_alert :: "uuid \<Rightarrow> ('a audit_mem_scheme, audit_error, audit_record list) action" where
  "mem_list_for_alert a s = (Inr (filter (\<lambda>r. ar_alert_id r = Some a) (am_records s)), s)"

definition mem_list_for_tx :: "tx_id \<Rightarrow> ('a audit_mem_scheme, audit_error, audit_record list) action" where
  "mem_list_for_tx t s = (Inr (filter (\<lambda>r. ar_tx_id r = Some t) (am_records s)), s)"

text \<open>\<open>limit.max(0)\<close>, then a saturating subtraction.\<close>

definition mem_list_all :: "int \<Rightarrow> ('a audit_mem_scheme, audit_error, audit_record list) action" where
  "mem_list_all limit s =
     (Inr (drop (length (am_records s) - nat (max limit 0)) (am_records s)), s)"

definition mem_verify_chain :: "crates \<Rightarrow> ('a audit_mem_scheme, audit_error, chain_verification) action" where
  "mem_verify_chain X s = (Inr (verify_chain X (am_records s)), s)"

definition mem_audit_ops :: "crates \<Rightarrow> 'a audit_mem_scheme audit_ops" where
  "mem_audit_ops X =
     \<lparr>au_append = mem_append X, au_list_for_alert = mem_list_for_alert, au_list_for_tx = mem_list_for_tx,
      au_list_all = mem_list_all, au_verify_chain = mem_verify_chain X\<rparr>"

lemma mem_audit_ops_sel [simp]:
  "au_append (mem_audit_ops X) = mem_append X" "au_list_for_alert (mem_audit_ops X) = mem_list_for_alert"
  "au_list_for_tx (mem_audit_ops X) = mem_list_for_tx" "au_list_all (mem_audit_ops X) = mem_list_all"
  "au_verify_chain (mem_audit_ops X) = mem_verify_chain X"
  by (simp_all add: mem_audit_ops_def)

section \<open>The contract of an audit store\<close>

text \<open>What a stored entry has to be for a given event.\<close>

definition records_event :: "crates \<Rightarrow> new_audit_event \<Rightarrow> audit_record \<Rightarrow> bool" where
  "records_event X ev r \<longleftrightarrow>
     ar_alert_id r = ne_alert_id ev \<and> ar_tx_id r = ne_tx_id ev \<and> ar_event r = ne_event ev
     \<and> to_text (cr_event X) (ne_event ev) = Inr (ar_event_json r)"

definition numbered :: "audit_entry list \<Rightarrow> bool" where
  "numbered es \<longleftrightarrow> map ae_sequence es = map int [0..<length es]"

lemma numbered_snoc: "numbered (es @ [e]) \<longleftrightarrow> numbered es \<and> ae_sequence e = int (length es)"
  by (simp add: numbered_def)

lemma numbered_nth: "numbered es \<Longrightarrow> i < length es \<Longrightarrow> ae_sequence (es ! i) = int i"
  by (metis add.left_neutral diff_zero length_map length_upt nth_map nth_upt numbered_def)

locale audit_store =
  fixes X :: crates
    and ops :: "'s audit_ops"
    and inv :: "'s \<Rightarrow> bool"
    and log :: "'s \<Rightarrow> audit_entry list"
  assumes append_ok: "inv s \<Longrightarrow> au_append ops ev s = (Inr r, t) \<Longrightarrow>
      inv t \<and> log t = log s @ [entry_of r] \<and> records_event X ev r"
    and append_failed: "inv s \<Longrightarrow> au_append ops ev s = (Inl e, t) \<Longrightarrow> inv t \<and> log t = log s"
    and log_linked: "inv s \<Longrightarrow> linked X (log s)"
    and log_numbered: "inv s \<Longrightarrow> numbered (log s)"
    and list_for_alert_keeps: "inv s \<Longrightarrow> au_list_for_alert ops a s = (res, t) \<Longrightarrow> inv t \<and> log t = log s"
    and list_for_alert_ok: "inv s \<Longrightarrow> au_list_for_alert ops a s = (Inr rs, t) \<Longrightarrow>
      map entry_of rs = filter (\<lambda>e. ae_alert_id e = Some a) (log s)"
    and list_for_tx_keeps: "inv s \<Longrightarrow> au_list_for_tx ops x s = (res, t) \<Longrightarrow> inv t \<and> log t = log s"
    and list_for_tx_ok: "inv s \<Longrightarrow> au_list_for_tx ops x s = (Inr rs, t) \<Longrightarrow>
      map entry_of rs = filter (\<lambda>e. ae_tx_id e = Some x) (log s)"
    and list_all_keeps: "inv s \<Longrightarrow> au_list_all ops n s = (res, t) \<Longrightarrow> inv t \<and> log t = log s"
    and list_all_ok: "inv s \<Longrightarrow> 0 \<le> n \<Longrightarrow> au_list_all ops n s = (Inr rs, t) \<Longrightarrow>
      map entry_of rs = drop (length (log s) - nat n) (log s)"
    and verify_keeps: "inv s \<Longrightarrow> au_verify_chain ops s = (vres, t) \<Longrightarrow> inv t \<and> log t = log s"
    and verify_reads: "inv s \<Longrightarrow> au_verify_chain ops s = (Inr v, t) \<Longrightarrow>
      \<exists>rs. map entry_of rs = log s \<and> v = verify_chain X rs"
begin

lemma verify_ok:
  assumes "inv s" "au_verify_chain ops s = (Inr v, t)"
  shows "v = \<lparr>cv_valid = True, cv_records_checked = length (log s), cv_broken_at_sequence = None, cv_detail = None\<rparr>"
proof -
  obtain rs where rs: "map entry_of rs = log s" "v = verify_chain X rs"
    using verify_reads [OF assms] by blast
  then have "linked X (map entry_of rs)" using log_linked [OF assms(1)] by simp
  with rs show ?thesis by (metis length_map verify_chain_linked)
qed

lemma append_entry:
  assumes "inv s" "au_append ops ev s = (Inr r, t)"
  shows "inv t" "log t = log s @ [entry_of r]" "records_event X ev r"
    "ar_sequence r = int (length (log s))" "ar_prev_hash r = last_hash (log s)"
proof -
  show t: "inv t" "log t = log s @ [entry_of r]" "records_event X ev r" using append_ok [OF assms] by auto
  show "ar_sequence r = int (length (log s))" using log_numbered [OF t(1)] t(2) by (simp add: numbered_snoc)
  show "ar_prev_hash r = last_hash (log s)" using log_linked [OF t(1)] t(2) by (simp add: linked_snoc)
qed

text \<open>The contract also holds for a stronger invariant that every operation keeps.\<close>

lemma audit_strengthen:
  assumes "\<And>s ev r t. inv s \<Longrightarrow> K s \<Longrightarrow> au_append ops ev s = (r, t) \<Longrightarrow> K t"
    and "\<And>s a r t. inv s \<Longrightarrow> K s \<Longrightarrow> au_list_for_alert ops a s = (r, t) \<Longrightarrow> K t"
    and "\<And>s x r t. inv s \<Longrightarrow> K s \<Longrightarrow> au_list_for_tx ops x s = (r, t) \<Longrightarrow> K t"
    and "\<And>s n r t. inv s \<Longrightarrow> K s \<Longrightarrow> au_list_all ops n s = (r, t) \<Longrightarrow> K t"
    and "\<And>s r t. inv s \<Longrightarrow> K s \<Longrightarrow> au_verify_chain ops s = (r, t) \<Longrightarrow> K t"
  shows "audit_store X ops (\<lambda>s. inv s \<and> K s) log"
proof (unfold_locales, goal_cases)
  case (1 s ev r t)
  then show ?case using append_ok [of s ev r t] assms(1) [of s ev _ t] by simp
next
  case (2 s ev e t)
  then show ?case using append_failed [of s ev e t] assms(1) [of s ev _ t] by simp
next
  case (5 s a r t)
  then show ?case using list_for_alert_keeps [of s a r t] assms(2) [of s a r t] by simp
next
  case (7 s x r t)
  then show ?case using list_for_tx_keeps [of s x r t] assms(3) [of s x r t] by simp
next
  case (9 s n r t)
  then show ?case using list_all_keeps [of s n r t] assms(4) [of s n r t] by simp
next
  case (11 s r t)
  then show ?case using verify_keeps [of s r t] assms(5) [of s r t] by simp
qed (simp_all add: log_linked log_numbered list_for_alert_ok list_for_tx_ok list_all_ok verify_reads)

lemma append_prefix: "inv s \<Longrightarrow> au_append ops ev s = (r, t) \<Longrightarrow> inv t \<and> prefix (log s) (log t)"
  using append_ok [of s ev _ t] append_failed [of s ev _ t] by (cases r) (auto simp: prefix_def)

end

text \<open>Any sequence of calls through the trait.\<close>

datatype audit_call =
    CallAppend new_audit_event
  | CallListForAlert uuid
  | CallListForTx tx_id
  | CallListAll int
  | CallVerify

fun audit_call_effect :: "'s audit_ops \<Rightarrow> audit_call \<Rightarrow> 's \<Rightarrow> 's" where
  "audit_call_effect ops (CallAppend ev) s = snd (au_append ops ev s)"
| "audit_call_effect ops (CallListForAlert a) s = snd (au_list_for_alert ops a s)"
| "audit_call_effect ops (CallListForTx x) s = snd (au_list_for_tx ops x s)"
| "audit_call_effect ops (CallListAll n) s = snd (au_list_all ops n s)"
| "audit_call_effect ops CallVerify s = snd (au_verify_chain ops s)"

definition audit_calls_effect :: "'s audit_ops \<Rightarrow> audit_call list \<Rightarrow> 's \<Rightarrow> 's" where
  "audit_calls_effect ops calls s = foldl (\<lambda>s c. audit_call_effect ops c s) s calls"

context audit_store
begin

lemma call_prefix: "inv s \<Longrightarrow> inv (audit_call_effect ops c s) \<and> prefix (log s) (log (audit_call_effect ops c s))"
proof (cases c)
  case (CallAppend ev)
  then show "inv s \<Longrightarrow> ?thesis" using append_prefix [of s ev] by (cases "au_append ops ev s") simp
next
  case (CallListForAlert a)
  then show "inv s \<Longrightarrow> ?thesis" using list_for_alert_keeps [of s a] by (cases "au_list_for_alert ops a s") simp
next
  case (CallListForTx x)
  then show "inv s \<Longrightarrow> ?thesis" using list_for_tx_keeps [of s x] by (cases "au_list_for_tx ops x s") simp
next
  case (CallListAll n)
  then show "inv s \<Longrightarrow> ?thesis" using list_all_keeps [of s n] by (cases "au_list_all ops n s") simp
next
  case CallVerify
  then show "inv s \<Longrightarrow> ?thesis" using verify_keeps [of s] by (cases "au_verify_chain ops s") simp
qed

lemma calls_prefix:
  "inv s \<Longrightarrow> inv (audit_calls_effect ops cs s) \<and> prefix (log s) (log (audit_calls_effect ops cs s))"
proof (induction cs arbitrary: s)
  case (Cons c cs)
  then show ?case using call_prefix [of s c] Cons.IH [of "audit_call_effect ops c s"]
    by (auto simp: audit_calls_effect_def intro: prefix_order.order_trans)
qed (simp add: audit_calls_effect_def)

lemma entry_for_ever:
  assumes "inv s" "au_append ops ev s = (Inr r, t)"
    and "au_list_for_alert ops a (audit_calls_effect ops cs t) = (Inr rs, u)" "ne_alert_id ev = Some a"
  shows "entry_of r \<in> entry_of ` set rs"
proof -
  note t = append_entry [OF assms(1,2)]
  have "inv (audit_calls_effect ops cs t)" "prefix (log t) (log (audit_calls_effect ops cs t))"
    using calls_prefix [OF t(1)] by auto
  then have "map entry_of rs = filter (\<lambda>e. ae_alert_id e = Some a) (log (audit_calls_effect ops cs t))"
    "entry_of r \<in> set (log (audit_calls_effect ops cs t))"
    using list_for_alert_ok assms(3) t(2) by (auto simp: prefix_def)
  moreover have "ae_alert_id (entry_of r) = Some a" using t(3) assms(4) by (simp add: records_event_def)
  ultimately have "entry_of r \<in> set (map entry_of rs)" by simp
  then show ?thesis by simp
qed

end

section \<open>The in-memory store keeps the contract\<close>

definition mem_log :: "'a audit_mem_scheme \<Rightarrow> audit_entry list" where
  "mem_log s = map entry_of (am_records s)"

definition mem_audit_inv :: "crates \<Rightarrow> 'a audit_mem_scheme \<Rightarrow> bool" where
  "mem_audit_inv X s \<longleftrightarrow> linked X (mem_log s) \<and> numbered (mem_log s)"

lemma mem_append_Inr:
  assumes "mem_append X ev s = (Inr r, t)"
  shows "records_event X ev r \<and> am_records t = am_records s @ [r]
    \<and> ar_sequence r = int (length (am_records s)) \<and> ar_prev_hash r = last_hash (mem_log s)
    \<and> digest X (canonical_entry X (entry_of r)) = Inr (ar_hash r)"
  using assms unfolding mem_append_def
  by (auto simp: last_hash_def mem_log_def last_map Let_def event_text_def records_event_def compute_hash_def canonical_entry_def new_uuid_def
        elim!: and_then_InrE)

lemma mem_append_Inl: "mem_append X ev s = (Inl e, t) \<Longrightarrow> am_records t = am_records s"
  by (auto simp: mem_append_def Let_def new_uuid_def utc_now_def elim!: and_then_cases)

interpretation mem: audit_store X "mem_audit_ops X" "mem_audit_inv X" mem_log for X
proof (unfold_locales, goal_cases)
  case (1 s ev r t)
  then show ?case using mem_append_Inr [of X ev s r t]
    by (simp add: mem_audit_inv_def mem_log_def linked_snoc numbered_snoc)
next
  case (2 s ev e t)
  then show ?case using mem_append_Inl [of X ev s e t] by (simp add: mem_audit_inv_def mem_log_def)
qed (auto simp: mem_audit_inv_def mem_log_def mem_list_for_alert_def mem_list_for_tx_def mem_list_all_def
      mem_verify_chain_def filter_map o_def drop_map intro: filter_cong)

end
