(* ===== verification/RulesEngine.thy ===== *)
theory RulesEngine
  imports Crates
begin

text \<open>
  The \<open>rules_engine\<close> crate: configuration (\<open>config.rs\<close>), the evaluation context
  (\<open>context.rs\<close>), the six built-in rules (\<open>rules.rs\<close>), the registry (\<open>registry.rs\<close>), scoring
  (\<open>scoring.rs\<close>) and \<open>evaluate\<close> (\<open>lib.rs\<close>).
\<close>

section \<open>Configuration and context\<close>

record rules_config =
  large_transfer_thresholds :: "string \<rightharpoonup> decimal"
  large_transfer_default_threshold :: decimal
  velocity_window_secs :: int
  velocity_max_tx_count :: nat
  frequency_deviation_multiplier :: f64
  min_baseline_observations :: nat
  max_operations_per_tx :: "32 word"

definition rules_config_default :: rules_config where
  "rules_config_default =
     \<lparr>large_transfer_thresholds = Map.empty,
      large_transfer_default_threshold = dec_of_nat 10000,
      velocity_window_secs = 60,
      velocity_max_tx_count = 5,
      frequency_deviation_multiplier = 3,
      min_baseline_observations = 5,
      max_operations_per_tx = 20\<rparr>"

record scoring_config =
  low_threshold :: f64
  medium_threshold :: f64
  high_threshold :: f64
  critical_threshold :: f64
  max_score :: f64

definition scoring_config_default :: scoring_config where
  "scoring_config_default =
     \<lparr>low_threshold = 0, medium_threshold = 35, high_threshold = 60, critical_threshold = 80, max_score = 100\<rparr>"

record recent_transaction =
  rc_tx_id :: tx_id
  rc_created_at :: datetime
  rc_counterparty :: account_id
  rc_asset :: asset
  rc_amount :: decimal

record account_history =
  ah_account :: account_id
  ah_recent_transactions :: "recent_transaction list"
  ah_baseline_tx_per_hour :: f64
  ah_baseline_observations :: nat
  ah_known_assets :: "string set"

record evaluation_context =
  ec_tx :: normalized_transaction
  ec_source_history :: account_history
  ec_flagged_accounts :: "account_id set"
  ec_config :: rules_config
  ec_now :: datetime

section \<open>Rules\<close>

text \<open>A \<open>dyn Rule\<close>: its three methods.\<close>

record rule =
  rule_id :: string
  rule_name :: string
  rule_evaluate :: "evaluation_context \<Rightarrow> rule_trigger list"

definition trigger :: "string \<Rightarrow> string \<Rightarrow> f64 \<Rightarrow> string \<Rightarrow> json \<Rightarrow> rule_trigger" where
  "trigger rid rname weight reason evidence =
     \<lparr>rt_rule_id = rid, rt_rule_name = rname, rt_reason = reason, rt_weight = weight, rt_evidence = evidence\<rparr>"

definition transfer_threshold :: "rules_config \<Rightarrow> asset \<Rightarrow> decimal" where
  "transfer_threshold cfg a =
     (case large_transfer_thresholds cfg (asset_key a) of
        Some t \<Rightarrow> t | None \<Rightarrow> large_transfer_default_threshold cfg)"

definition large_transfer_trigger :: "crates \<Rightarrow> decimal \<Rightarrow> asset_movement \<Rightarrow> rule_trigger" where
  "large_transfer_trigger X threshold m =
     trigger ''large_transfer'' ''Unusually Large Transfer'' 35
       (''Transfer of '' @ cr_dec_text X (mv_amount m) @ '' '' @ asset_key (mv_asset m) @
        '' exceeds the configured threshold of '' @ cr_dec_text X threshold @ '' '' @ asset_key (mv_asset m))
       (JObject [(''asset'', JString (asset_key (mv_asset m))),
                 (''amount'', JString (cr_dec_text X (mv_amount m))),
                 (''threshold'', JString (cr_dec_text X threshold)),
                 (''from'', JString (mv_from m)),
                 (''to'', JString (mv_to m))])"

fun large_transfer_loop :: "crates \<Rightarrow> rules_config \<Rightarrow> asset_movement list \<Rightarrow> rule_trigger list" where
  "large_transfer_loop X cfg [] = []"
| "large_transfer_loop X cfg (m # ms) =
     (let threshold = transfer_threshold cfg (mv_asset m)
      in if dec_gt (mv_amount m) threshold
         then large_transfer_trigger X threshold m # large_transfer_loop X cfg ms
         else large_transfer_loop X cfg ms)"

definition large_transfer_rule :: "crates \<Rightarrow> rule" where
  "large_transfer_rule X =
     \<lparr>rule_id = ''large_transfer'', rule_name = ''Unusually Large Transfer'',
      rule_evaluate = (\<lambda>ctx. large_transfer_loop X (ec_config ctx) (tx_movements (ec_tx ctx)))\<rparr>"

text \<open>Recent transactions not after the current one and at most \<open>window\<close> before it.\<close>

definition count_in_window :: "evaluation_context \<Rightarrow> duration \<Rightarrow> nat" where
  "count_in_window ctx window =
     1 + length (filter (\<lambda>rt. rc_created_at rt \<le> tx_created_at (ec_tx ctx)
                              \<and> tx_created_at (ec_tx ctx) - rc_created_at rt \<le> window)
                  (ah_recent_transactions (ec_source_history ctx)))"

definition velocity_eval :: "evaluation_context \<Rightarrow> rule_trigger list" where
  "velocity_eval ctx =
     (let window = seconds (velocity_window_secs (ec_config ctx));
          n = count_in_window ctx window
      in if n \<ge> velocity_max_tx_count (ec_config ctx)
         then [trigger ''velocity'' ''Repeated Transactions In Short Window'' 25
                 (''Account '' @ tx_source_account (ec_tx ctx) @ '' sent '' @ show_nat n @
                  '' transactions within '' @ show_int (velocity_window_secs (ec_config ctx)) @
                  '' seconds (threshold '' @ show_nat (velocity_max_tx_count (ec_config ctx)) @ '')'')
                 (JObject [(''account'', JString (tx_source_account (ec_tx ctx))),
                           (''count_in_window'', JInt (int n)),
                           (''window_secs'', JInt (velocity_window_secs (ec_config ctx))),
                           (''threshold'', JInt (int (velocity_max_tx_count (ec_config ctx))))])]
         else [])"

definition velocity_rule :: rule where
  "velocity_rule =
     \<lparr>rule_id = ''velocity'', rule_name = ''Repeated Transactions In Short Window'',
      rule_evaluate = velocity_eval\<rparr>"

definition abnormal_frequency_eval :: "evaluation_context \<Rightarrow> rule_trigger list" where
  "abnormal_frequency_eval ctx =
     (let history = ec_source_history ctx; cfg = ec_config ctx
      in if ah_baseline_observations history < min_baseline_observations cfg
            \<or> ah_baseline_tx_per_hour history \<le> 0 then []
         else
           let observed = count_in_window ctx (hours 1);
               threshold = f64_mul (ah_baseline_tx_per_hour history) (frequency_deviation_multiplier cfg)
           in if f64_of_nat observed > threshold
              then [trigger ''abnormal_frequency'' ''Abnormal Transaction Frequency'' 20
                      (''Account '' @ tx_source_account (ec_tx ctx) @ '' made '' @ show_nat observed @
                       '' transactions in the last hour, '' @
                       fmt_fixed 1 (f64_div (f64_of_nat observed) (ah_baseline_tx_per_hour history)) @
                       ''x its baseline of '' @ fmt_fixed 2 (ah_baseline_tx_per_hour history) @ ''/hour'')
                      (JObject [(''account'', JString (tx_source_account (ec_tx ctx))),
                                (''observed_last_hour'', JInt (int observed)),
                                (''baseline_tx_per_hour'', JFloat (ah_baseline_tx_per_hour history)),
                                (''deviation_multiplier'', JFloat (frequency_deviation_multiplier cfg))])]
              else [])"

definition abnormal_frequency_rule :: rule where
  "abnormal_frequency_rule =
     \<lparr>rule_id = ''abnormal_frequency'', rule_name = ''Abnormal Transaction Frequency'',
      rule_evaluate = abnormal_frequency_eval\<rparr>"

definition flagged_trigger :: "account_id \<Rightarrow> rule_trigger" where
  "flagged_trigger account =
     trigger ''flagged_account_interaction'' ''Interaction With Flagged Account'' 40
       (''Transaction involves previously flagged account '' @ account)
       (JObject [(''flagged_account'', JString account)])"

definition flagged_account_eval :: "evaluation_context \<Rightarrow> rule_trigger list" where
  "flagged_account_eval ctx =
     (let hits = filter (\<lambda>a. a \<in> ec_flagged_accounts ctx) (involved_accounts (ec_tx ctx))
      in map flagged_trigger (sort_dedup hits))"

definition flagged_account_rule :: rule where
  "flagged_account_rule =
     \<lparr>rule_id = ''flagged_account_interaction'', rule_name = ''Interaction With Flagged Account'',
      rule_evaluate = flagged_account_eval\<rparr>"

definition unusual_asset_trigger :: "account_id \<Rightarrow> asset_movement \<Rightarrow> rule_trigger" where
  "unusual_asset_trigger source m =
     trigger ''unusual_asset_movement'' ''Unusual Asset Movement'' 15
       (''Account '' @ source @ '' moved asset '' @ asset_key (mv_asset m) @
        '' for the first time in its recorded history'')
       (JObject [(''account'', JString source), (''asset'', JString (asset_key (mv_asset m)))])"

text \<open>
  The stateful filter: \<open>seen.insert(key)\<close> runs for every movement and is true when the key is
  new, then the key must be absent from the known assets.
\<close>

fun unusual_filter :: "string set \<Rightarrow> string set \<Rightarrow> asset_movement list \<Rightarrow> asset_movement list" where
  "unusual_filter known seen [] = []"
| "unusual_filter known seen (m # ms) =
     (let k = asset_key (mv_asset m); seen' = insert k seen
      in if k \<notin> seen \<and> k \<notin> known then m # unusual_filter known seen' ms
         else unusual_filter known seen' ms)"

definition unusual_asset_eval :: "evaluation_context \<Rightarrow> rule_trigger list" where
  "unusual_asset_eval ctx =
     (if ah_known_assets (ec_source_history ctx) = {} then []
      else map (unusual_asset_trigger (tx_source_account (ec_tx ctx)))
             (unusual_filter (ah_known_assets (ec_source_history ctx)) {} (tx_movements (ec_tx ctx))))"

definition unusual_asset_rule :: rule where
  "unusual_asset_rule =
     \<lparr>rule_id = ''unusual_asset_movement'', rule_name = ''Unusual Asset Movement'',
      rule_evaluate = unusual_asset_eval\<rparr>"

definition operation_count_eval :: "evaluation_context \<Rightarrow> rule_trigger list" where
  "operation_count_eval ctx =
     (let n = tx_operation_count (ec_tx ctx); limit = max_operations_per_tx (ec_config ctx)
      in if n > limit
         then [trigger ''operation_count_threshold'' ''Excessive Operation Count'' 10
                 (''Transaction bundles '' @ show_nat (unat n) @
                  '' operations, exceeding the configured threshold of '' @ show_nat (unat limit))
                 (JObject [(''operation_count'', JInt (uint n)), (''threshold'', JInt (uint limit))])]
         else [])"

definition operation_count_rule :: rule where
  "operation_count_rule =
     \<lparr>rule_id = ''operation_count_threshold'', rule_name = ''Excessive Operation Count'',
      rule_evaluate = operation_count_eval\<rparr>"

definition built_in_rules :: "crates \<Rightarrow> rule list" where
  "built_in_rules X =
     [large_transfer_rule X, velocity_rule, abnormal_frequency_rule, flagged_account_rule,
      unusual_asset_rule, operation_count_rule]"

section \<open>Registry, scoring, evaluation\<close>

type_synonym rule_registry = "rule list"

definition registry_new :: rule_registry where "registry_new = []"

definition with_built_ins :: "crates \<Rightarrow> rule_registry" where
  "with_built_ins X = built_in_rules X"

definition register :: "rule_registry \<Rightarrow> rule \<Rightarrow> rule_registry" where
  "register rs r = rs @ [r]"

definition rule_ids :: "rule_registry \<Rightarrow> string list" where
  "rule_ids rs = map rule_id rs"

definition evaluate_all :: "rule_registry \<Rightarrow> evaluation_context \<Rightarrow> rule_trigger list" where
  "evaluate_all rs ctx = concat (map (\<lambda>r. rule_evaluate r ctx) rs)"

definition severity_of_score :: "scoring_config \<Rightarrow> f64 \<Rightarrow> severity" where
  "severity_of_score cfg score =
     (if score \<ge> critical_threshold cfg then Critical
      else if score \<ge> high_threshold cfg then High
      else if score \<ge> medium_threshold cfg then Medium
      else Low)"

definition score_and_severity :: "rule_trigger list \<Rightarrow> scoring_config \<Rightarrow> f64 \<times> severity option" where
  "score_and_severity triggers cfg =
     (if triggers = [] then (0, None)
      else let raw = f64_sum (map rt_weight triggers);
               score = min raw (max_score cfg)
           in (score, Some (severity_of_score cfg score)))"

definition evaluate :: "rule_registry \<Rightarrow> evaluation_context \<Rightarrow> scoring_config \<Rightarrow> evaluation_result" where
  "evaluate rs ctx cfg =
     (let triggers = evaluate_all rs ctx; (score, severity) = score_and_severity triggers cfg
      in \<lparr>er_tx_id = tx_id (ec_tx ctx), er_triggers = triggers, er_score = score, er_severity = severity\<rparr>)"

end
