(* ===== verification/Alerts.thy ===== *)
theory Alerts
  imports AuditStore RulesEngine
begin

text \<open>
  The \<open>alerts\<close> crate: the \<open>AlertStore\<close> trait as a table of operations (\<open>store.rs\<close>), the
  in-memory store (\<open>memory.rs\<close>) and the alert service with its review workflow
  (\<open>service.rs\<close>). The service is written over the two tables, as the code is written over two
  trait objects.
\<close>

record alert_filter =
  af_status :: "alert_status option"
  af_limit :: int
  af_offset :: int

definition alert_filter_default :: alert_filter where
  "alert_filter_default = \<lparr>af_status = None, af_limit = 0, af_offset = 0\<rparr>"

definition filter_status_ok :: "alert_filter \<Rightarrow> alert_status \<Rightarrow> bool" where
  "filter_status_ok f st = (case af_status f of None \<Rightarrow> True | Some s \<Rightarrow> s = st)"

record 's alert_ops =
  ao_insert :: "alert \<Rightarrow> ('s, domain_error, unit) action"
  ao_get :: "uuid \<Rightarrow> ('s, domain_error, alert option) action"
  ao_list :: "alert_filter \<Rightarrow> ('s, domain_error, alert list) action"
  ao_set_ai_status :: "uuid \<Rightarrow> ai_advisory_status \<Rightarrow> ('s, domain_error, unit) action"
  ao_record_decision :: "decision_record \<Rightarrow> alert_status \<Rightarrow> ('s, domain_error, unit) action"
  ao_decision_history :: "uuid \<Rightarrow> ('s, domain_error, decision_record list) action"

section \<open>The in-memory store\<close>

text \<open>
  The \<open>HashMap\<close> is an association list without duplicate keys; its order stands for the
  unspecified iteration order, which only shows where two alerts have the same creation time.
\<close>

record memory = audit_mem +
  mm_alerts :: "(uuid \<times> alert) list"
  mm_decisions :: "decision_record list"

definition mem_insert :: "alert \<Rightarrow> ('a memory_scheme, domain_error, unit) action" where
  "mem_insert a s = (Inr (), s\<lparr>mm_alerts := AList.update (al_id a) a (mm_alerts s)\<rparr>)"

definition mem_get :: "uuid \<Rightarrow> ('a memory_scheme, domain_error, alert option) action" where
  "mem_get i s = (Inr (map_of (mm_alerts s) i), s)"

definition mem_list :: "alert_filter \<Rightarrow> ('a memory_scheme, domain_error, alert list) action" where
  "mem_list f s =
     (let out = sort_desc_key al_created_at (filter (\<lambda>a. filter_status_ok f (al_status a)) (map snd (mm_alerts s)))
      in (Inr (if af_limit f > 0 then take (nat (af_limit f)) out else out), s))"

text \<open>\<open>if let Some(alert) = alerts.get_mut(&id) { .. }\<close>.\<close>

definition modify_alert :: "uuid \<Rightarrow> (alert \<Rightarrow> alert) \<Rightarrow> (uuid \<times> alert) list \<Rightarrow> (uuid \<times> alert) list" where
  "modify_alert i f m = (case map_of m i of None \<Rightarrow> m | Some a \<Rightarrow> AList.update i (f a) m)"

definition mem_set_ai_status :: "uuid \<Rightarrow> ai_advisory_status \<Rightarrow> ('a memory_scheme, domain_error, unit) action" where
  "mem_set_ai_status i st s = (Inr (), s\<lparr>mm_alerts := modify_alert i (\<lambda>a. a\<lparr>al_ai_status := st\<rparr>) (mm_alerts s)\<rparr>)"

definition mem_record_decision :: "decision_record \<Rightarrow> alert_status \<Rightarrow> ('a memory_scheme, domain_error, unit) action" where
  "mem_record_decision d st s =
     (Inr (), s\<lparr>mm_decisions := mm_decisions s @ [d],
                mm_alerts := modify_alert (dr_alert_id d) (\<lambda>a. a\<lparr>al_status := st\<rparr>) (mm_alerts s)\<rparr>)"

definition mem_decision_history :: "uuid \<Rightarrow> ('a memory_scheme, domain_error, decision_record list) action" where
  "mem_decision_history i s = (Inr (filter (\<lambda>d. dr_alert_id d = i) (mm_decisions s)), s)"

definition mem_alert_ops :: "'a memory_scheme alert_ops" where
  "mem_alert_ops =
     \<lparr>ao_insert = mem_insert, ao_get = mem_get, ao_list = mem_list, ao_set_ai_status = mem_set_ai_status,
      ao_record_decision = mem_record_decision, ao_decision_history = mem_decision_history\<rparr>"

lemma mem_alert_ops_sel [simp]:
  "ao_insert mem_alert_ops = mem_insert" "ao_get mem_alert_ops = mem_get" "ao_list mem_alert_ops = mem_list"
  "ao_set_ai_status mem_alert_ops = mem_set_ai_status" "ao_record_decision mem_alert_ops = mem_record_decision"
  "ao_decision_history mem_alert_ops = mem_decision_history"
  by (simp_all add: mem_alert_ops_def)

section \<open>The service\<close>

record new_alert =
  na_tx_id :: tx_id
  na_accounts :: "account_id list"
  na_assets :: "asset list"
  na_triggered_rules :: "rule_trigger list"
  na_score :: f64
  na_severity :: severity

record 's alert_service =
  svc_store :: "'s alert_ops"
  svc_audit :: "'s audit_ops"

definition storage_err :: "audit_error \<Rightarrow> domain_error" where
  "storage_err e = DomStorage (audit_error_text e)"

text \<open>\<open>self.audit.append(..).await.map_err(storage_err)?\<close>.\<close>

definition log_event :: "'s alert_service \<Rightarrow> new_audit_event \<Rightarrow> ('s, domain_error, audit_record) action" where
  "log_event svc ev = map_err_act storage_err (au_append (svc_audit svc) ev)"

definition alert_event :: "audit_event_kind \<Rightarrow> uuid \<Rightarrow> tx_id \<Rightarrow> new_audit_event" where
  "alert_event e a t = for_tx (for_alert (new_event e) a) t"

definition opened_alert :: "uuid \<Rightarrow> datetime \<Rightarrow> new_alert \<Rightarrow> alert" where
  "opened_alert i now na =
     \<lparr>al_id = i, al_tx_id = na_tx_id na, al_accounts = na_accounts na, al_assets = na_assets na,
      al_created_at = now, al_triggered_rules = na_triggered_rules na, al_score = na_score na,
      al_severity = na_severity na, al_status = Open, al_ai_status = Pending\<rparr>"

definition alert_created_event :: "alert \<Rightarrow> audit_event_kind" where
  "alert_created_event a =
     AlertCreated (al_tx_id a) (map rt_rule_id (al_triggered_rules a)) (al_severity a) (al_score a)"

definition create_alert :: "'a env_scheme alert_service \<Rightarrow> new_alert \<Rightarrow> ('a env_scheme, domain_error, alert) action" where
  "create_alert svc na =
     and_then new_uuid (\<lambda>i.
     and_then utc_now (\<lambda>now.
       let alert = opened_alert i now na
       in and_then (ao_insert (svc_store svc) alert) (\<lambda>_.
          and_then (log_event svc (alert_event (alert_created_event alert) (al_id alert) (al_tx_id alert))) (\<lambda>_.
          ok alert))))"

definition get_alert :: "'s alert_service \<Rightarrow> uuid \<Rightarrow> ('s, domain_error, alert option) action" where
  "get_alert svc i = ao_get (svc_store svc) i"

definition list_alerts :: "'s alert_service \<Rightarrow> alert_filter \<Rightarrow> ('s, domain_error, alert list) action" where
  "list_alerts svc f = ao_list (svc_store svc) f"

definition record_ai_advisory_requested ::
  "'s alert_service \<Rightarrow> uuid \<Rightarrow> tx_id \<Rightarrow> json \<Rightarrow> ('s, domain_error, unit) action" where
  "record_ai_advisory_requested svc i t payload =
     and_then (log_event svc (alert_event (AiAdvisoryRequested payload) i t)) (\<lambda>_. ok ())"

definition record_ai_advisory ::
  "'s alert_service \<Rightarrow> uuid \<Rightarrow> tx_id \<Rightarrow> ai_advisory \<Rightarrow> ('s, domain_error, unit) action" where
  "record_ai_advisory svc i t advisory =
     and_then (ao_set_ai_status (svc_store svc) i (Ready advisory)) (\<lambda>_.
     and_then (log_event svc (alert_event (AiAdvisoryReceived advisory) i t)) (\<lambda>_. ok ()))"

definition record_ai_unavailable ::
  "'a env_scheme alert_service \<Rightarrow> uuid \<Rightarrow> tx_id \<Rightarrow> string \<Rightarrow> ('a env_scheme, domain_error, unit) action" where
  "record_ai_unavailable svc i t reason =
     and_then utc_now (\<lambda>now.
     and_then (ao_set_ai_status (svc_store svc) i (Unavailable reason now)) (\<lambda>_.
     and_then (log_event svc (alert_event (AiAdvisoryUnavailable reason) i t)) (\<lambda>_. ok ())))"

definition submit_decision ::
  "crates \<Rightarrow> 'a env_scheme alert_service \<Rightarrow> uuid \<Rightarrow> string \<Rightarrow> decision \<Rightarrow> string \<Rightarrow>
   ('a env_scheme, domain_error, decision_record) action" where
  "submit_decision X svc i who d rationale =
     and_then (ao_get (svc_store svc) i) (\<lambda>found.
     and_then (lift_res (ok_or (DomNotFound (''alert '' @ cr_uuid_text X i)) found)) (\<lambda>alert.
     and_then new_uuid (\<lambda>rid.
     and_then utc_now (\<lambda>now.
       let record = \<lparr>dr_id = rid, dr_alert_id = i, dr_investigator_id = who, dr_decision = d,
                     dr_rationale = rationale, dr_created_at = now\<rparr>
       in and_then (ao_record_decision (svc_store svc) record (status_of_decision d)) (\<lambda>_.
          and_then (log_event svc (alert_event (InvestigatorDecision who d rationale (al_status alert)) i (al_tx_id alert))) (\<lambda>_.
          ok record))))))"

definition decision_history :: "'s alert_service \<Rightarrow> uuid \<Rightarrow> ('s, domain_error, decision_record list) action" where
  "decision_history svc i = ao_decision_history (svc_store svc) i"

definition audit_history :: "'s alert_service \<Rightarrow> uuid \<Rightarrow> ('s, domain_error, audit_record list) action" where
  "audit_history svc i = map_err_act storage_err (au_list_for_alert (svc_audit svc) i)"

definition accounts_and_assets :: "account_id \<Rightarrow> asset_movement list \<Rightarrow> account_id list \<times> asset list" where
  "accounts_and_assets source movements =
     (sort_dedup (source # movement_accounts movements), dedup_assets (map mv_asset movements))"

section \<open>The contract of an alert store\<close>

text \<open>
  \<open>amap\<close> is the map from identifiers to the alerts that \<open>get\<close> returns, \<open>decs\<close> the decisions in
  the order they were recorded, \<open>canon\<close> and \<open>canon_ai\<close> what storing does to an alert and to an
  advisory status (the identity, or a re-reading of the floating-point parts).
\<close>

definition update_alert :: "uuid \<Rightarrow> (alert \<Rightarrow> alert) \<Rightarrow> (uuid \<rightharpoonup> alert) \<Rightarrow> (uuid \<rightharpoonup> alert)" where
  "update_alert i f m = m(i := map_option f (m i))"

definition same_review_fields :: "alert \<Rightarrow> alert \<Rightarrow> bool" where
  "same_review_fields a b \<longleftrightarrow>
     al_id a = al_id b \<and> al_tx_id a = al_tx_id b \<and> al_accounts a = al_accounts b \<and> al_assets a = al_assets b
     \<and> al_created_at a = al_created_at b \<and> al_score a = al_score b \<and> al_severity a = al_severity b
     \<and> al_status a = al_status b"

lemma update_alert_apply: "update_alert i f m j = (if j = i then map_option f (m i) else m j)"
  by (simp add: update_alert_def)

locale alert_store =
  fixes ops :: "'s alert_ops"
    and inv :: "'s \<Rightarrow> bool"
    and amap :: "'s \<Rightarrow> uuid \<rightharpoonup> alert"
    and decs :: "'s \<Rightarrow> decision_record list"
    and canon :: "alert \<Rightarrow> alert"
    and canon_ai :: "ai_advisory_status \<Rightarrow> ai_advisory_status"
  assumes canon_fields: "same_review_fields (canon a) a"
    and amap_id: "inv s \<Longrightarrow> amap s i = Some a \<Longrightarrow> al_id a = i"
    and insert_ok: "inv s \<Longrightarrow> ao_insert ops a s = (Inr u, t) \<Longrightarrow>
      inv t \<and> amap t = (amap s)(al_id a \<mapsto> canon a) \<and> decs t = decs s"
    and insert_failed: "inv s \<Longrightarrow> ao_insert ops a s = (Inl e, t) \<Longrightarrow>
      inv t \<and> amap t = amap s \<and> decs t = decs s"
    and get_keeps: "inv s \<Longrightarrow> ao_get ops i s = (gres, t) \<Longrightarrow> inv t \<and> amap t = amap s \<and> decs t = decs s"
    and get_ok: "inv s \<Longrightarrow> ao_get ops i s = (Inr found, t) \<Longrightarrow> found = amap s i"
    and list_keeps: "inv s \<Longrightarrow> ao_list ops f s = (lres, t) \<Longrightarrow> inv t \<and> amap t = amap s \<and> decs t = decs s"
    and list_sound: "inv s \<Longrightarrow> ao_list ops f s = (Inr as, t) \<Longrightarrow> a \<in> set as \<Longrightarrow>
      amap s (al_id a) = Some a \<and> filter_status_ok f (al_status a)"
    and list_complete: "inv s \<Longrightarrow> ao_list ops f s = (Inr as, t) \<Longrightarrow> 0 < af_limit f \<Longrightarrow> af_offset f = 0 \<Longrightarrow>
      int (length as) < af_limit f \<Longrightarrow> amap s i = Some a \<Longrightarrow> filter_status_ok f (al_status a) \<Longrightarrow> a \<in> set as"
    and set_ai_ok: "inv s \<Longrightarrow> ao_set_ai_status ops i st s = (Inr u, t) \<Longrightarrow>
      inv t \<and> amap t = update_alert i (\<lambda>a. a\<lparr>al_ai_status := canon_ai st\<rparr>) (amap s) \<and> decs t = decs s"
    and set_ai_failed: "inv s \<Longrightarrow> ao_set_ai_status ops i st s = (Inl e, t) \<Longrightarrow>
      inv t \<and> amap t = amap s \<and> decs t = decs s"
    and record_ok: "inv s \<Longrightarrow> ao_record_decision ops d st' s = (Inr u, t) \<Longrightarrow>
      inv t \<and> amap t = update_alert (dr_alert_id d) (\<lambda>a. a\<lparr>al_status := st'\<rparr>) (amap s) \<and> decs t = decs s @ [d]"
    and record_failed: "inv s \<Longrightarrow> ao_record_decision ops d st' s = (Inl e, t) \<Longrightarrow>
      inv t \<and> amap t = amap s \<and> decs t = decs s"
    and history_keeps: "inv s \<Longrightarrow> ao_decision_history ops i s = (hres, t) \<Longrightarrow>
      inv t \<and> amap t = amap s \<and> decs t = decs s"
    and history_ok: "inv s \<Longrightarrow> ao_decision_history ops i s = (Inr ds, t) \<Longrightarrow>
      mset ds = mset (filter (\<lambda>d. dr_alert_id d = i) (decs s))"
begin

text \<open>The contract also holds for a stronger invariant that every operation keeps.\<close>

lemma alert_strengthen:
  assumes "\<And>s a r t. inv s \<Longrightarrow> K s \<Longrightarrow> ao_insert ops a s = (r, t) \<Longrightarrow> K t"
    and "\<And>s i r t. inv s \<Longrightarrow> K s \<Longrightarrow> ao_get ops i s = (r, t) \<Longrightarrow> K t"
    and "\<And>s f r t. inv s \<Longrightarrow> K s \<Longrightarrow> ao_list ops f s = (r, t) \<Longrightarrow> K t"
    and "\<And>s i st r t. inv s \<Longrightarrow> K s \<Longrightarrow> ao_set_ai_status ops i st s = (r, t) \<Longrightarrow> K t"
    and "\<And>s d st r t. inv s \<Longrightarrow> K s \<Longrightarrow> ao_record_decision ops d st s = (r, t) \<Longrightarrow> K t"
    and "\<And>s i r t. inv s \<Longrightarrow> K s \<Longrightarrow> ao_decision_history ops i s = (r, t) \<Longrightarrow> K t"
  shows "alert_store ops (\<lambda>s. inv s \<and> K s) amap decs canon canon_ai"
proof (unfold_locales, goal_cases)
  case (3 s a u t)
  then show ?case using insert_ok [of s a u t] assms(1) [of s a _ t] by simp
next
  case (4 s a e t)
  then show ?case using insert_failed [of s a e t] assms(1) [of s a _ t] by simp
next
  case (5 s i r t)
  then show ?case using get_keeps [of s i r t] assms(2) [of s i r t] by simp
next
  case (7 s f r t)
  then show ?case using list_keeps [of s f r t] assms(3) [of s f r t] by simp
next
  case (8 s f as t a)
  then show ?case using list_sound [of s f as t a] by simp
next
  case (9 s f as t i a)
  then show ?case using list_complete [of s f as t i a] by simp
next
  case (10 s i st u t)
  then show ?case using set_ai_ok [of s i st u t] assms(4) [of s i st _ t] by simp
next
  case (11 s i st e t)
  then show ?case using set_ai_failed [of s i st e t] assms(4) [of s i st _ t] by simp
next
  case (12 s d st u t)
  then show ?case using record_ok [of s d st u t] assms(5) [of s d st _ t] by simp
next
  case (13 s d st e t)
  then show ?case using record_failed [of s d st e t] assms(5) [of s d st _ t] by simp
next
  case (14 s i r t)
  then show ?case using history_keeps [of s i r t] assms(6) [of s i r t] by simp
next
  case (2 s i a)
  then show ?case using amap_id [of s i a] by simp
next
  case (15 s i ds t)
  then show ?case using history_ok [of s i ds t] by simp
qed (simp_all add: canon_fields get_ok)

end

section \<open>The in-memory store keeps the contract\<close>

definition mem_amap :: "'a memory_scheme \<Rightarrow> uuid \<rightharpoonup> alert" where
  "mem_amap s = map_of (mm_alerts s)"

definition keyed_by_id :: "(uuid \<rightharpoonup> alert) \<Rightarrow> bool" where
  "keyed_by_id m \<longleftrightarrow> (\<forall>i a. m i = Some a \<longrightarrow> al_id a = i)"

definition mem_alert_inv :: "'a memory_scheme \<Rightarrow> bool" where
  "mem_alert_inv s \<longleftrightarrow> distinct (map fst (mm_alerts s)) \<and> keyed_by_id (mem_amap s)"

lemma keyed_by_id_upd: "keyed_by_id m \<Longrightarrow> al_id a = i \<Longrightarrow> keyed_by_id (m(i \<mapsto> a))"
  by (simp add: keyed_by_id_def)

lemma keyed_by_id_update_alert:
  "keyed_by_id m \<Longrightarrow> (\<And>a. al_id (f a) = al_id a) \<Longrightarrow> keyed_by_id (update_alert i f m)"
  by (auto simp: keyed_by_id_def update_alert_apply split: if_splits)

lemma map_of_modify_alert: "map_of (modify_alert j f m) = update_alert j f (map_of m)"
  by (auto simp: modify_alert_def update_alert_def update_conv' fun_eq_iff split: option.split)

lemma distinct_modify_alert: "distinct (map fst m) \<Longrightarrow> distinct (map fst (modify_alert j f m))"
  by (simp add: modify_alert_def distinct_update split: option.split)

lemma mem_list_ok:
  assumes "mem_alert_inv s" "mem_list f s = (Inr as, t)"
  shows "a \<in> set as \<Longrightarrow> mem_amap s (al_id a) = Some a \<and> filter_status_ok f (al_status a)"
    and "0 < af_limit f \<Longrightarrow> int (length as) < af_limit f \<Longrightarrow> mem_amap s i = Some b \<Longrightarrow>
      filter_status_ok f (al_status b) \<Longrightarrow> b \<in> set as"
proof -
  let ?out = "sort_desc_key al_created_at (filter (\<lambda>a. filter_status_ok f (al_status a)) (map snd (mm_alerts s)))"
  have as: "as = (if af_limit f > 0 then take (nat (af_limit f)) ?out else ?out)"
    using assms(2) by (simp add: mem_list_def Let_def)
  show "a \<in> set as \<Longrightarrow> mem_amap s (al_id a) = Some a \<and> filter_status_ok f (al_status a)"
  proof -
    assume "a \<in> set as"
    then have "a \<in> set ?out" unfolding as by (auto split: if_splits dest: in_set_takeD)
    then obtain j where j: "(j, a) \<in> set (mm_alerts s)" "filter_status_ok f (al_status a)" by auto
    then have "mem_amap s j = Some a" using assms(1) by (simp add: mem_alert_inv_def mem_amap_def)
    with j(2) assms(1) show ?thesis by (auto simp: mem_alert_inv_def keyed_by_id_def)
  qed
  assume h: "0 < af_limit f" "int (length as) < af_limit f" "mem_amap s i = Some b" "filter_status_ok f (al_status b)"
  then have "as = ?out" unfolding as by (auto simp: min_def split: if_splits)
  moreover have "b \<in> snd ` set (mm_alerts s)" using h(3) by (force simp: mem_amap_def dest: map_of_SomeD)
  ultimately show "b \<in> set as" using h(4) by simp
qed

interpretation mem_alerts: alert_store mem_alert_ops mem_alert_inv mem_amap mm_decisions "\<lambda>a. a" "\<lambda>st. st"
proof (unfold_locales, goal_cases)
  case (2 s i a)
  then show ?case by (simp add: mem_alert_inv_def keyed_by_id_def)
next
  case (3 s a u t)
  then show ?case
    by (auto simp: mem_insert_def mem_alert_inv_def mem_amap_def update_conv' distinct_update keyed_by_id_upd)
next
  case (8 s f as t a)
  then show ?case using mem_list_ok(1) by simp
next
  case (9 s f as t i a)
  then show ?case using mem_list_ok(2) by simp
next
  case (10 s i st u t)
  then show ?case
    by (auto simp: mem_set_ai_status_def mem_alert_inv_def mem_amap_def map_of_modify_alert
          distinct_modify_alert keyed_by_id_update_alert)
next
  case (12 s d st u t)
  then show ?case
    by (auto simp: mem_record_decision_def mem_alert_inv_def mem_amap_def map_of_modify_alert
          distinct_modify_alert keyed_by_id_update_alert)
qed (auto simp: mem_insert_def mem_get_def mem_list_def Let_def mem_set_ai_status_def mem_record_decision_def
      mem_decision_history_def mem_amap_def same_review_fields_def)

end
