(* ===== verification/Review.thy ===== *)
theory Review
  imports Alerts
begin

text \<open>
  The review workflow over any pair of stores that keep their contracts: the locale
  \<open>review_backend\<close> joins \<open>audit_store\<close> and \<open>alert_store\<close> on one state and adds that each store
  leaves the other's data alone, \<open>keyed_backend\<close> adds a primary key on alerts. The effects of the
  service's operations and the invariant that an alert's status is the projection of its last
  decision are proved here once, and used for the in-memory stores (below) and the SQLite stores
  (\<open>SqlAlerts\<close>).
\<close>

definition alert_service_new :: "'s alert_ops \<Rightarrow> 's audit_ops \<Rightarrow> 's alert_service" where
  "alert_service_new store audit = \<lparr>svc_store = store, svc_audit = audit\<rparr>"

lemma alert_service_new_sel [simp]:
  "svc_store (alert_service_new st au) = st" "svc_audit (alert_service_new st au) = au"
  by (simp_all add: alert_service_new_def)

text \<open>The status an alert has after a list of decisions, oldest first.\<close>

definition status_after :: "decision_record list \<Rightarrow> alert_status" where
  "status_after ds = (if ds = [] then Open else status_of_decision (dr_decision (last ds)))"

definition decisions_for :: "uuid \<Rightarrow> decision_record list \<Rightarrow> decision_record list" where
  "decisions_for i ds = filter (\<lambda>d. dr_alert_id d = i) ds"

lemma status_after_snoc [simp]: "status_after (ds @ [d]) = status_of_decision (dr_decision d)"
  by (simp add: status_after_def)

lemma decisions_for_snoc [simp]:
  "decisions_for i (ds @ [d]) = (if dr_alert_id d = i then decisions_for i ds @ [d] else decisions_for i ds)"
  by (simp add: decisions_for_def)

text \<open>Alerts keep their status, and none appears or goes.\<close>

definition same_statuses :: "(uuid \<rightharpoonup> alert) \<Rightarrow> (uuid \<rightharpoonup> alert) \<Rightarrow> bool" where
  "same_statuses m m' \<longleftrightarrow> (\<forall>j. map_option al_status (m' j) = map_option al_status (m j))"

lemma same_statuses_refl [simp]: "same_statuses m m"
  by (simp add: same_statuses_def)

definition decides :: "decision_record \<Rightarrow> uuid \<Rightarrow> string \<Rightarrow> decision \<Rightarrow> string \<Rightarrow> bool" where
  "decides rec i who d rationale \<longleftrightarrow>
     dr_alert_id rec = i \<and> dr_investigator_id rec = who \<and> dr_decision rec = d \<and> dr_rationale rec = rationale"

text \<open>The alert that \<open>create_alert\<close> opens in a given state, and the event it logs for it.\<close>

definition drawn :: "'a env_scheme \<Rightarrow> 'a env_scheme" where
  "drawn s = s\<lparr>env_uuids := Suc (env_uuids s), env_ticks := Suc (env_ticks s)\<rparr>"

definition drawn_alert :: "'a env_scheme \<Rightarrow> new_alert \<Rightarrow> alert" where
  "drawn_alert s na = opened_alert (env_uuid_src s (env_uuids s)) (env_clock s (env_ticks s)) na"

definition created_event :: "alert \<Rightarrow> new_audit_event" where
  "created_event a = alert_event (alert_created_event a) (al_id a) (al_tx_id a)"

section \<open>Steps of the workflow\<close>

text \<open>Every operation of the service but \<open>submit_decision\<close>, with any outcome.\<close>

inductive quiet_step :: "'a env_scheme alert_service \<Rightarrow> 'a env_scheme \<Rightarrow> 'a env_scheme \<Rightarrow> bool" for svc where
  step_create: "create_alert svc na s = (r, t) \<Longrightarrow> quiet_step svc s t"
| step_get: "get_alert svc i s = (r, t) \<Longrightarrow> quiet_step svc s t"
| step_list: "list_alerts svc f s = (r, t) \<Longrightarrow> quiet_step svc s t"
| step_requested: "record_ai_advisory_requested svc i x p s = (r, t) \<Longrightarrow> quiet_step svc s t"
| step_advisory: "record_ai_advisory svc i x adv s = (r, t) \<Longrightarrow> quiet_step svc s t"
| step_unavailable: "record_ai_unavailable svc i x reason s = (r, t) \<Longrightarrow> quiet_step svc s t"
| step_history: "decision_history svc i s = (r, t) \<Longrightarrow> quiet_step svc s t"
| step_audit: "audit_history svc i s = (r, t) \<Longrightarrow> quiet_step svc s t"

inductive review_step :: "crates \<Rightarrow> 'a env_scheme alert_service \<Rightarrow> 'a env_scheme \<Rightarrow> 'a env_scheme \<Rightarrow> bool"
  for X svc where
  quiet: "quiet_step svc s t \<Longrightarrow> review_step X svc s t"
| decide: "submit_decision X svc i who d rationale s = (r, t) \<Longrightarrow> review_step X svc s t"

section \<open>The joint contract\<close>

locale review_backend =
  audit_store X aops inv log + alert_store sops inv amap decs canon canon_ai
  for X :: crates
    and aops :: "'a env_scheme audit_ops"
    and sops :: "'a env_scheme alert_ops"
    and inv :: "'a env_scheme \<Rightarrow> bool"
    and log :: "'a env_scheme \<Rightarrow> audit_entry list"
    and amap :: "'a env_scheme \<Rightarrow> uuid \<rightharpoonup> alert"
    and decs :: "'a env_scheme \<Rightarrow> decision_record list"
    and canon :: "alert \<Rightarrow> alert"
    and canon_ai :: "ai_advisory_status \<Rightarrow> ai_advisory_status" +
  assumes append_frame: "inv s \<Longrightarrow> au_append aops ev s = (ares, t) \<Longrightarrow> amap t = amap s \<and> decs t = decs s"
    and read_frame: "inv s \<Longrightarrow> au_list_for_alert aops i s = (lres, t) \<Longrightarrow> amap t = amap s \<and> decs t = decs s"
    and insert_frame: "inv s \<Longrightarrow> ao_insert sops a s = (ires, t) \<Longrightarrow> log t = log s"
    and get_frame: "inv s \<Longrightarrow> ao_get sops i s = (gres, t) \<Longrightarrow> log t = log s"
    and list_frame: "inv s \<Longrightarrow> ao_list sops f s = (fres, t) \<Longrightarrow> log t = log s"
    and set_ai_frame: "inv s \<Longrightarrow> ao_set_ai_status sops i st s = (sres, t) \<Longrightarrow> log t = log s"
    and record_frame: "inv s \<Longrightarrow> ao_record_decision sops d st' s = (dres, t) \<Longrightarrow> log t = log s"
    and history_frame: "inv s \<Longrightarrow> ao_decision_history sops i s = (hres, t) \<Longrightarrow> log t = log s"
    and ticks_frame [simp]: "inv (s\<lparr>env_ticks := n\<rparr>) = inv s" "log (s\<lparr>env_ticks := n\<rparr>) = log s"
      "amap (s\<lparr>env_ticks := n\<rparr>) = amap s" "decs (s\<lparr>env_ticks := n\<rparr>) = decs s"
    and uuids_frame [simp]: "inv (s\<lparr>env_uuids := n\<rparr>) = inv s" "log (s\<lparr>env_uuids := n\<rparr>) = log s"
      "amap (s\<lparr>env_uuids := n\<rparr>) = amap s" "decs (s\<lparr>env_uuids := n\<rparr>) = decs s"
begin

abbreviation svc :: "'a env_scheme alert_service" where
  "svc \<equiv> alert_service_new sops aops"

lemma log_event_ok:
  assumes "inv s" "log_event svc ev s = (Inr r, t)"
  shows "inv t \<and> log t = log s @ [entry_of r] \<and> records_event X ev r \<and> amap t = amap s \<and> decs t = decs s"
proof -
  have "au_append aops ev s = (Inr r, t)"
    using assms(2) by (auto simp: log_event_def elim: map_err_act_cases)
  then show ?thesis using append_ok [OF assms(1)] append_frame [OF assms(1)] by simp
qed

lemma log_event_failed:
  assumes "inv s" "log_event svc ev s = (Inl e, t)"
  shows "inv t \<and> log t = log s \<and> amap t = amap s \<and> decs t = decs s"
proof -
  obtain e' where "au_append aops ev s = (Inl e', t)"
    using assms(2) by (auto simp: log_event_def elim: map_err_act_cases)
  then show ?thesis using append_failed [OF assms(1)] append_frame [OF assms(1)] by simp
qed

text \<open>Creating an alert is an insert followed by an append, on the state with one identifier and one time drawn.\<close>

lemma create_alert_eq:
  "create_alert svc na s =
     (let a = drawn_alert s na in
      and_then (ao_insert sops a) (\<lambda>_. and_then (log_event svc (created_event a)) (\<lambda>_. ok a)) (drawn s))"
  by (simp add: create_alert_def drawn_alert_def drawn_def created_event_def Let_def)

lemma drawn_frame [simp]: "inv (drawn s) = inv s" "log (drawn s) = log s" "amap (drawn s) = amap s" "decs (drawn s) = decs s"
  by (simp_all add: drawn_def)

lemma create_alert_cases:
  assumes "inv s" "create_alert svc na s = (r, t)"
  obtains (not_stored) e where "r = Inl e" "inv t" "amap t = amap s" "decs t = decs s" "log t = log s"
    | (not_logged) e u v where "r = Inl e" "ao_insert sops (drawn_alert s na) (drawn s) = (Inr u, v)" "inv t"
        "amap t = (amap s)(al_id (drawn_alert s na) \<mapsto> canon (drawn_alert s na))" "decs t = decs s" "log t = log s"
    | (created) q u v where "r = Inr (drawn_alert s na)" "ao_insert sops (drawn_alert s na) (drawn s) = (Inr u, v)" "inv t"
        "amap t = (amap s)(al_id (drawn_alert s na) \<mapsto> canon (drawn_alert s na))" "decs t = decs s"
        "log t = log s @ [entry_of q]" "records_event X (created_event (drawn_alert s na)) q"
proof -
  let ?a = "drawn_alert s na"
  have s: "inv (drawn s)" using assms(1) by simp
  have "and_then (ao_insert sops ?a) (\<lambda>_. and_then (log_event svc (created_event ?a)) (\<lambda>_. ok ?a)) (drawn s) = (r, t)"
    using assms(2) by (simp add: create_alert_eq Let_def)
  then show thesis
  proof (cases rule: and_then_cases)
    case (early e)
    from insert_failed [OF s early(1)] insert_frame [OF s early(1)] early(2) show thesis
      using not_stored by simp
  next
    case (cont u v)
    note v = insert_ok [OF s cont(1)] insert_frame [OF s cont(1)]
    then have "inv v" by simp
    from cont(2) show thesis
    proof (cases rule: and_then_cases)
      case (early e)
      from log_event_failed [OF \<open>inv v\<close> early(1)] v early(2) cont(1) show thesis using not_logged by simp
    next
      case (cont q w)
      from log_event_ok [OF \<open>inv v\<close> cont(1)] cont(2) v \<open>ao_insert sops ?a (drawn s) = (Inr u, v)\<close> show thesis
        using created [where q = q] by simp
    qed
  qed
qed

lemma same_statuses_ai:
  "m' = update_alert i (\<lambda>a. a\<lparr>al_ai_status := st\<rparr>) m \<Longrightarrow> same_statuses m m'"
  by (auto simp: same_statuses_def update_alert_apply option.map_comp o_def intro: option.map_cong)

lemma requested_step:
  assumes "inv s" "record_ai_advisory_requested svc i x p s = (r, t)"
  shows "inv t \<and> amap t = amap s \<and> decs t = decs s
    \<and> (\<forall>u. r = Inr u \<longrightarrow> (\<exists>q. log t = log s @ [entry_of q] \<and> records_event X (alert_event (AiAdvisoryRequested p) i x) q))
    \<and> (\<forall>e. r = Inl e \<longrightarrow> log t = log s)"
proof -
  consider e where "log_event svc (alert_event (AiAdvisoryRequested p) i x) s = (Inl e, t)" "r = Inl e"
    | q where "log_event svc (alert_event (AiAdvisoryRequested p) i x) s = (Inr q, t)" "r = Inr ()"
    using assms(2) by (auto simp: record_ai_advisory_requested_def elim!: and_then_cases)
  then show ?thesis
  proof cases
    case 1
    with log_event_failed [OF assms(1) 1(1)] show ?thesis by simp
  next
    case 2
    with log_event_ok [OF assms(1) 2(1)] show ?thesis by auto
  qed
qed

lemma set_ai_then_log:
  assumes "inv s"
    and "and_then (ao_set_ai_status sops i st) (\<lambda>_. and_then (log_event svc ev) (\<lambda>_. ok ())) s = (r, t)"
  shows "inv t
    \<and> (amap t = amap s \<or> amap t = update_alert i (\<lambda>a. a\<lparr>al_ai_status := canon_ai st\<rparr>) (amap s)) \<and> decs t = decs s
    \<and> (\<forall>u. r = Inr u \<longrightarrow> amap t = update_alert i (\<lambda>a. a\<lparr>al_ai_status := canon_ai st\<rparr>) (amap s)
         \<and> (\<exists>q. log t = log s @ [entry_of q] \<and> records_event X ev q))
    \<and> (\<forall>e. r = Inl e \<longrightarrow> log t = log s)"
proof -
  consider e where "ao_set_ai_status sops i st s = (Inl e, t)" "r = Inl e"
    | u v e where "ao_set_ai_status sops i st s = (Inr u, v)" "log_event svc ev v = (Inl e, t)" "r = Inl e"
    | u v q where "ao_set_ai_status sops i st s = (Inr u, v)" "log_event svc ev v = (Inr q, t)" "r = Inr ()"
    using assms(2) by (auto elim!: and_then_cases)
  then show ?thesis
  proof cases
    case 1
    with set_ai_failed [OF assms(1) 1(1)] set_ai_frame [OF assms(1) 1(1)] show ?thesis by simp
  next
    case 2
    note v = set_ai_ok [OF assms(1) 2(1)] set_ai_frame [OF assms(1) 2(1)]
    then have "inv v" by simp
    from log_event_failed [OF this 2(2)] v 2(3) show ?thesis by simp
  next
    case 3
    note v = set_ai_ok [OF assms(1) 3(1)] set_ai_frame [OF assms(1) 3(1)]
    then have "inv v" by simp
    from log_event_ok [OF this 3(2)] v 3(3) show ?thesis by auto
  qed
qed

lemma advisory_step:
  assumes "inv s" "record_ai_advisory svc i x adv s = (r, t)"
  shows "inv t \<and> same_statuses (amap s) (amap t) \<and> decs t = decs s
    \<and> (\<forall>u. r = Inr u \<longrightarrow> amap t = update_alert i (\<lambda>a. a\<lparr>al_ai_status := canon_ai (Ready adv)\<rparr>) (amap s)
         \<and> (\<exists>q. log t = log s @ [entry_of q] \<and> records_event X (alert_event (AiAdvisoryReceived adv) i x) q))
    \<and> (\<forall>e. r = Inl e \<longrightarrow> log t = log s)"
  using set_ai_then_log [OF assms(1), of i "Ready adv" "alert_event (AiAdvisoryReceived adv) i x" r t] assms(2)
  by (auto simp: record_ai_advisory_def intro: same_statuses_ai)

lemma unavailable_step:
  assumes "inv s" "record_ai_unavailable svc i x reason s = (r, t)"
  shows "inv t \<and> same_statuses (amap s) (amap t) \<and> decs t = decs s
    \<and> (\<forall>u. r = Inr u \<longrightarrow>
         amap t = update_alert i (\<lambda>a. a\<lparr>al_ai_status := canon_ai (Unavailable reason (env_clock s (env_ticks s)))\<rparr>) (amap s)
         \<and> (\<exists>q. log t = log s @ [entry_of q] \<and> records_event X (alert_event (AiAdvisoryUnavailable reason) i x) q))
    \<and> (\<forall>e. r = Inl e \<longrightarrow> log t = log s)"
proof -
  have "inv (s\<lparr>env_ticks := Suc (env_ticks s)\<rparr>)" using assms(1) by simp
  from set_ai_then_log [OF this, of i "Unavailable reason (env_clock s (env_ticks s))"
      "alert_event (AiAdvisoryUnavailable reason) i x" r t] assms(2)
  show ?thesis by (auto simp: record_ai_unavailable_def intro: same_statuses_ai)
qed

text \<open>The ways a decision can end.\<close>

lemma submit_decision_cases:
  assumes "inv s" "submit_decision X svc i who d rationale s = (r, t)"
  obtains (get_error) e where "r = Inl e" "inv t" "amap t = amap s" "decs t = decs s" "log t = log s"
    | (not_found) "r = Inl (DomNotFound (''alert '' @ cr_uuid_text X i))" "amap s i = None" "inv t"
        "amap t = amap s" "decs t = decs s" "log t = log s"
    | (not_recorded) e a where "r = Inl e" "amap s i = Some a" "inv t" "amap t = amap s" "decs t = decs s" "log t = log s"
    | (not_logged) e a rec where "r = Inl e" "amap s i = Some a" "inv t"
        "amap t = update_alert i (\<lambda>a. a\<lparr>al_status := status_of_decision d\<rparr>) (amap s)"
        "decs t = decs s @ [rec]" "decides rec i who d rationale" "log t = log s"
    | (decided) a rec q where "r = Inr rec" "amap s i = Some a" "inv t"
        "amap t = update_alert i (\<lambda>a. a\<lparr>al_status := status_of_decision d\<rparr>) (amap s)"
        "decs t = decs s @ [rec]" "decides rec i who d rationale" "log t = log s @ [entry_of q]"
        "records_event X (alert_event (InvestigatorDecision who d rationale (al_status a)) i (al_tx_id a)) q"
proof (cases "ao_get sops i s")
  case (Pair g v)
  note keep = get_keeps [OF assms(1) Pair] get_frame [OF assms(1) Pair]
  show thesis
  proof (cases g)
    case (Inl e)
    then have "r = Inl e" "t = v" using assms(2) Pair by (simp_all add: submit_decision_def and_then_def)
    with keep show thesis using get_error by simp
  next
    case (Inr found)
    with get_ok [OF assms(1)] Pair have f: "found = amap s i" by simp
    show thesis
    proof (cases found)
      case None
      then have "r = Inl (DomNotFound (''alert '' @ cr_uuid_text X i))" "t = v"
        using assms(2) Pair Inr by (simp_all add: submit_decision_def and_then_def)
      with keep None f show thesis using not_found by simp
    next
      case (Some a)
      let ?v = "v\<lparr>env_uuids := Suc (env_uuids v), env_ticks := Suc (env_ticks v)\<rparr>"
      let ?rec = "\<lparr>dr_id = env_uuid_src v (env_uuids v), dr_alert_id = i, dr_investigator_id = who, dr_decision = d,
                   dr_rationale = rationale, dr_created_at = env_clock v (env_ticks v)\<rparr>"
      let ?ev = "alert_event (InvestigatorDecision who d rationale (al_status a)) i (al_tx_id a)"
      have rest: "and_then (ao_record_decision sops ?rec (status_of_decision d))
          (\<lambda>_. and_then (log_event svc ?ev) (\<lambda>_. ok ?rec)) ?v = (r, t)"
        using assms(2) Pair Inr Some by (simp add: submit_decision_def and_then_Inr Let_def)
      have v: "inv ?v" "amap ?v = amap s" "decs ?v = decs s" "log ?v = log s" using keep by simp_all
      have dec: "decides ?rec i who d rationale" by (simp add: decides_def)
      from rest show thesis
      proof (cases rule: and_then_cases)
        case (early e)
        from record_failed [OF v(1) early(1)] record_frame [OF v(1) early(1)] v early(2) Some f
        show thesis using not_recorded by simp
      next
        case (cont u w)
        note w = record_ok [OF v(1) cont(1)] record_frame [OF v(1) cont(1)]
        then have "inv w" by simp
        from cont(2) show thesis
        proof (cases rule: and_then_cases)
          case (early e)
          from log_event_failed [OF \<open>inv w\<close> early(1)] w v early(2) Some f dec
          show thesis using not_logged by simp
        next
          case (cont q z)
          from log_event_ok [OF \<open>inv w\<close> cont(1)] cont(2) w v Some f dec
          show thesis using decided [where rec = ?rec and a = a and q = q] by simp
        qed
      qed
    qed
  qed
qed

end

text \<open>Alerts keep their status, except that new ones may appear as open.\<close>

definition statuses_extend :: "(uuid \<rightharpoonup> alert) \<Rightarrow> (uuid \<rightharpoonup> alert) \<Rightarrow> bool" where
  "statuses_extend m m' \<longleftrightarrow>
     (\<forall>j. map_option al_status (m' j) = map_option al_status (m j)
        \<or> m j = None \<and> map_option al_status (m' j) = Some Open)"

text \<open>The status of every alert is the projection of the decisions recorded for it.\<close>

definition status_projected :: "(uuid \<rightharpoonup> alert) \<Rightarrow> decision_record list \<Rightarrow> bool" where
  "status_projected m ds \<longleftrightarrow>
     (\<forall>i a. m i = Some a \<longrightarrow> al_status a = status_after (decisions_for i ds))
     \<and> (\<forall>d \<in> set ds. m (dr_alert_id d) \<noteq> None)"

lemma statuses_extend_same: "same_statuses m m' \<Longrightarrow> statuses_extend m m'"
  by (simp add: statuses_extend_def same_statuses_def)

lemma statuses_extend_new: "m i = None \<Longrightarrow> al_status a = Open \<Longrightarrow> statuses_extend m (m(i \<mapsto> a))"
  by (simp add: statuses_extend_def)

lemma statuses_extend_None: "statuses_extend m m' \<Longrightarrow> m j \<noteq> None \<Longrightarrow> m' j \<noteq> None"
  by (force simp: statuses_extend_def dest: spec [of _ j])

lemma no_decisions_for: "status_projected m ds \<Longrightarrow> m i = None \<Longrightarrow> decisions_for i ds = []"
  by (auto simp: status_projected_def decisions_for_def filter_empty_conv)

lemma status_projected_extend:
  assumes "status_projected m ds" "statuses_extend m m'"
  shows "status_projected m' ds"
  unfolding status_projected_def
proof (intro conjI allI impI ballI)
  fix i a assume a: "m' i = Some a"
  show "al_status a = status_after (decisions_for i ds)"
  proof (cases "m i")
    case None
    with a assms no_decisions_for [of m ds i] show ?thesis
      by (auto simp: statuses_extend_def status_after_def dest: spec [of _ i])
  next
    case (Some b)
    with a assms(2) have "al_status a = al_status b" by (auto simp: statuses_extend_def dest: spec [of _ i])
    with Some assms(1) show ?thesis by (simp add: status_projected_def)
  qed
next
  fix d assume "d \<in> set ds"
  then show "m' (dr_alert_id d) \<noteq> None"
    using assms statuses_extend_None [of m m' "dr_alert_id d"] by (simp add: status_projected_def)
qed

lemma status_projected_decide:
  assumes "status_projected m ds" "m i = Some a" "dr_alert_id rec = i" "dr_decision rec = d"
  shows "status_projected (update_alert i (\<lambda>a. a\<lparr>al_status := status_of_decision d\<rparr>) m) (ds @ [rec])"
  using assms by (auto simp: status_projected_def update_alert_apply)

lemma drawn_alert_status [simp]: "al_status (drawn_alert s na) = Open" "al_ai_status (drawn_alert s na) = Pending"
  by (simp_all add: drawn_alert_def opened_alert_def)

locale keyed_backend = review_backend +
  assumes insert_fresh: "inv s \<Longrightarrow> ao_insert sops a s = (Inr u, t) \<Longrightarrow> amap s (al_id a) = None"
begin

lemma canon_status [simp]: "al_status (canon a) = al_status a"
  using canon_fields [of a] by (simp add: same_review_fields_def)

lemma create_step:
  assumes "inv s" "create_alert svc na s = (r, t)"
  shows "inv t \<and> decs t = decs s \<and> statuses_extend (amap s) (amap t) \<and> prefix (log s) (log t)"
proof -
  have fresh: "amap s (al_id (drawn_alert s na)) = None" if "ao_insert sops (drawn_alert s na) (drawn s) = (Inr u, v)" for u v
    using insert_fresh [OF _ that] assms(1) by simp
  show ?thesis
    using create_alert_cases [OF assms]
    by cases (simp_all add: statuses_extend_same statuses_extend_new fresh)
qed

lemma quiet_step_effect:
  assumes "inv s" "quiet_step svc s t"
  shows "inv t \<and> decs t = decs s \<and> statuses_extend (amap s) (amap t) \<and> prefix (log s) (log t)"
  using assms(2)
proof cases
  case (step_create na r)
  then show ?thesis using create_step [OF assms(1)] by simp
next
  case (step_get i r)
  then show ?thesis using get_keeps [OF assms(1)] get_frame [OF assms(1)]
    by (simp add: get_alert_def statuses_extend_same)
next
  case (step_list f r)
  then show ?thesis using list_keeps [OF assms(1)] list_frame [OF assms(1)]
    by (simp add: list_alerts_def statuses_extend_same)
next
  case (step_requested i x p r)
  from requested_step [OF assms(1) this] show ?thesis by (cases r) (auto simp: statuses_extend_same)
next
  case (step_advisory i x adv r)
  from advisory_step [OF assms(1) this] show ?thesis by (cases r) (auto simp: statuses_extend_same)
next
  case (step_unavailable i x reason r)
  from unavailable_step [OF assms(1) this] show ?thesis by (cases r) (auto simp: statuses_extend_same)
next
  case (step_history i r)
  then show ?thesis using history_keeps [OF assms(1)] history_frame [OF assms(1)]
    by (simp add: decision_history_def statuses_extend_same)
next
  case (step_audit i r)
  then obtain q where "au_list_for_alert aops i s = (q, t)"
    by (auto simp: audit_history_def elim!: map_err_act_cases)
  from list_for_alert_keeps [OF assms(1) this] read_frame [OF assms(1) this] show ?thesis
    by (simp add: statuses_extend_same)
qed

lemma decide_effect:
  assumes "inv s" "status_projected (amap s) (decs s)" "submit_decision X svc i who d rationale s = (r, t)"
  shows "inv t \<and> status_projected (amap t) (decs t) \<and> prefix (log s) (log t) \<and> prefix (decs s) (decs t)"
  using submit_decision_cases [OF assms(1,3)]
  by cases (use assms(2) in \<open>auto simp: decides_def intro: status_projected_decide\<close>)

lemma review_step_effect:
  assumes "inv s" "status_projected (amap s) (decs s)" "review_step X svc s t"
  shows "inv t \<and> status_projected (amap t) (decs t) \<and> prefix (log s) (log t) \<and> prefix (decs s) (decs t)"
  using assms(3)
proof cases
  case quiet
  from quiet_step_effect [OF assms(1) this] show ?thesis
    using status_projected_extend [OF assms(2)] by simp
next
  case (decide i who d rationale r)
  then show ?thesis using decide_effect [OF assms(1,2)] by blast
qed

lemma reachable_review:
  assumes "(review_step X svc)\<^sup>*\<^sup>* s t" "inv s" "status_projected (amap s) (decs s)"
  shows "inv t \<and> status_projected (amap t) (decs t) \<and> prefix (log s) (log t) \<and> prefix (decs s) (decs t)"
  using assms(1)
proof induction
  case base
  show ?case using assms(2,3) by simp
next
  case (step t u)
  then show ?case using review_step_effect [of t u] by (auto intro: prefix_order.order_trans)
qed

end

section \<open>The in-memory stores\<close>

definition mem_inv :: "crates \<Rightarrow> 'a memory_scheme \<Rightarrow> bool" where
  "mem_inv X s \<longleftrightarrow> mem_audit_inv X s \<and> mem_alert_inv s"

lemma mem_inv_ext:
  "mem_inv X (s\<lparr>env_ticks := n\<rparr>) = mem_inv X s" "mem_inv X (s\<lparr>env_uuids := n\<rparr>) = mem_inv X s"
  by (simp_all add: mem_inv_def mem_audit_inv_def mem_log_def mem_alert_inv_def mem_amap_def)

lemma mem_append_alerts:
  "mem_append X ev s = (r, t) \<Longrightarrow> mm_alerts t = mm_alerts s \<and> mm_decisions t = mm_decisions s"
  by (auto simp: mem_append_def Let_def new_uuid_def utc_now_def elim!: and_then_cases)

lemma mem_reads_keep:
  "mem_list_for_alert a s = (r1, t) \<Longrightarrow> t = s" "mem_list_for_tx x s = (r2, t) \<Longrightarrow> t = s"
  "mem_list_all n s = (r3, t) \<Longrightarrow> t = s" "mem_verify_chain X s = (r4, t) \<Longrightarrow> t = s"
  "mem_get i s = (r5, t) \<Longrightarrow> t = s" "mem_list f s = (r6, t) \<Longrightarrow> t = s"
  "mem_decision_history i s = (r7, t) \<Longrightarrow> t = s"
  by (auto simp: mem_list_for_alert_def mem_list_for_tx_def mem_list_all_def mem_verify_chain_def mem_get_def
        mem_list_def Let_def mem_decision_history_def)

lemma mem_writes_log:
  "mem_insert a s = (r, t) \<Longrightarrow> am_records t = am_records s"
  "mem_set_ai_status i st s = (r, t) \<Longrightarrow> am_records t = am_records s"
  "mem_record_decision d st' s = (r, t) \<Longrightarrow> am_records t = am_records s"
  by (auto simp: mem_insert_def mem_set_ai_status_def mem_record_decision_def)

lemma mem_audit_inv_same: "am_records t = am_records s \<Longrightarrow> mem_audit_inv X s \<Longrightarrow> mem_audit_inv X t"
  by (simp add: mem_audit_inv_def mem_log_def)

lemma mem_audit_contract: "audit_store X (mem_audit_ops X) (\<lambda>s :: 'a memory_scheme. mem_inv X s) mem_log"
  unfolding mem_inv_def
proof (rule mem.audit_strengthen, goal_cases)
  case (1 s ev r t)
  then show ?case using mem_append_alerts [of X ev s r t] by (simp add: mem_alert_inv_def mem_amap_def)
qed (auto dest: mem_reads_keep)

lemma mem_alert_contract:
  "alert_store mem_alert_ops (\<lambda>s :: 'a memory_scheme. mem_inv X s) mem_amap mm_decisions (\<lambda>a. a) (\<lambda>st. st)"
proof -
  have "alert_store mem_alert_ops (\<lambda>s :: 'a memory_scheme. mem_alert_inv s \<and> mem_audit_inv X s) mem_amap
      mm_decisions (\<lambda>a. a) (\<lambda>st. st)"
  proof (rule mem_alerts.alert_strengthen, goal_cases)
    case (1 s a r t)
    then show ?case using mem_writes_log(1) [of a s r t] mem_audit_inv_same [of t s X] by simp
  next
    case (4 s i st r t)
    then show ?case using mem_writes_log(2) [of i st s r t] mem_audit_inv_same [of t s X] by simp
  next
    case (5 s d st r t)
    then show ?case using mem_writes_log(3) [of d st s r t] mem_audit_inv_same [of t s X] by simp
  qed (auto dest: mem_reads_keep)
  then show ?thesis by (simp add: mem_inv_def conj_commute [of "mem_audit_inv X _"])
qed

interpretation mem_review: review_backend X "mem_audit_ops X" mem_alert_ops "mem_inv X" mem_log mem_amap
    mm_decisions "\<lambda>a. a" "\<lambda>st. st" for X
proof (rule review_backend.intro [OF mem_audit_contract mem_alert_contract], unfold_locales, goal_cases)
  case (1 s ev r t)
  then show ?case using mem_append_alerts [of X ev s r t] by (simp add: mem_amap_def)
qed (auto simp: mem_inv_ext mem_log_def mem_amap_def dest: mem_reads_keep mem_writes_log)

end
