(* ===== verification/SqlDb.thy ===== *)
theory SqlDb
  imports Review
begin

text \<open>
  The database under the \<open>storage\<close> crate: one list of rows per table of
  \<open>migrations/0001_init.sql\<close>, in insertion order, with the columns' types as stored (identifiers,
  timestamps and JSON as text). A statement first consults the fault oracle of the environment; a
  statement that fails, and a transaction that is not committed, changes no table.
  \<open>SELECT .. ORDER BY\<close> is a stable sort, so rows that tie keep insertion order; a negative
  \<open>LIMIT\<close> is no limit, as SQLite documents. Integer columns are unbounded here; nothing the program
  writes leaves the 64-bit range before the log has \<open>2 ^ 63\<close> records.
\<close>

section \<open>Tables\<close>

record alert_row =
  alr_id :: string
  alr_tx_id :: string
  alr_accounts_json :: string
  alr_assets_json :: string
  alr_created_at :: string
  alr_triggered_rules_json :: string
  alr_score :: f64
  alr_severity :: string
  alr_status :: string
  alr_ai_status_json :: string

record decision_row =
  der_id :: string
  der_alert_id :: string
  der_investigator_id :: string
  der_decision :: string
  der_rationale :: string
  der_created_at :: string

record audit_row =
  aur_sequence :: int
  aur_id :: string
  aur_alert_id :: "string option"
  aur_tx_id :: "string option"
  aur_event_json :: string
  aur_created_at :: string
  aur_prev_hash :: string
  aur_hash :: string

record tx_row =
  txr_tx_id :: string
  txr_ledger :: int
  txr_created_at :: string
  txr_source_account :: string
  txr_fee_charged :: int
  txr_memo :: "string option"
  txr_operation_count :: int
  txr_successful :: bool
  txr_movements_json :: string
  txr_contract_ids_json :: string
  txr_ingested_at :: string

record flagged_row =
  flr_account_id :: string
  flr_reason :: string
  flr_added_by :: "string option"
  flr_created_at :: string

record investigator_row =
  inr_id :: string
  inr_username :: string
  inr_password_hash :: string
  inr_role :: string
  inr_created_at :: string

record dead_letter_row =
  dlr_id :: string
  dlr_source :: string
  dlr_raw_payload :: string
  dlr_error :: string
  dlr_attempts :: int
  dlr_first_failed_at :: string
  dlr_last_failed_at :: string

record cursor_row =
  cur_source :: string
  cur_cursor :: string
  cur_updated_at :: string

record db = env +
  db_investigators :: "investigator_row list"
  db_flagged :: "flagged_row list"
  db_transactions :: "tx_row list"
  db_alerts :: "alert_row list"
  db_decisions :: "decision_row list"
  db_audit :: "audit_row list"
  db_dead_letters :: "dead_letter_row list"
  db_cursors :: "cursor_row list"

section \<open>Statements\<close>

text \<open>A query reads the tables; an \<open>execute\<close> changes them or violates a constraint.\<close>

definition query :: "('a env_scheme \<Rightarrow> 'b) \<Rightarrow> ('a env_scheme, string, 'b) action" where
  "query f = and_then sql_call (\<lambda>_ s. (Inr (f s), s))"

definition execute :: "('a env_scheme \<Rightarrow> string + 'a env_scheme) \<Rightarrow> ('a env_scheme, string, unit) action" where
  "execute f = and_then sql_call (\<lambda>_ s. case f s of Inl e \<Rightarrow> (Inl e, s) | Inr s' \<Rightarrow> (Inr (), s'))"

text \<open>Dropping a transaction takes the tables back and keeps what the environment has consumed.\<close>

definition rollback :: "'a env_scheme \<Rightarrow> 'a env_scheme \<Rightarrow> 'a env_scheme" where
  "rollback before now =
     before\<lparr>env_ticks := env_ticks now, env_uuids := env_uuids now, env_calls := env_calls now,
            env_sent := env_sent now, env_slept := env_slept now\<rparr>"

definition sql_transaction :: "('a env_scheme, string, unit) action \<Rightarrow> ('a env_scheme, string, unit) action" where
  "sql_transaction body =
     and_then sql_call (\<lambda>_ s1.
       case and_then body (\<lambda>_. sql_call) s1 of
         (Inl e, s2) \<Rightarrow> (Inl e, rollback s1 s2)
       | (Inr u, s2) \<Rightarrow> (Inr u, s2))"

definition sql_limit :: "int \<Rightarrow> 'b list \<Rightarrow> 'b list" where
  "sql_limit n xs = (if n < 0 then xs else take (nat n) xs)"

definition sql_offset :: "int \<Rightarrow> 'b list \<Rightarrow> 'b list" where
  "sql_offset n xs = drop (nat n) xs"

text \<open>\<open>UPDATE .. SET .. WHERE\<close>.\<close>

definition update_where :: "('r \<Rightarrow> bool) \<Rightarrow> ('r \<Rightarrow> 'r) \<Rightarrow> 'r list \<Rightarrow> 'r list" where
  "update_where P f rows = map (\<lambda>r. if P r then f r else r) rows"

lemma sql_call_eq: "sql_call s = (r, t) \<Longrightarrow> t = s\<lparr>env_calls := Suc (env_calls s)\<rparr>"
  by (simp add: sql_call_def)

lemma query_cases:
  assumes "query f s = (r, t)"
  obtains (bad) e where "r = Inl e" "t = s\<lparr>env_calls := Suc (env_calls s)\<rparr>"
    | (good) "r = Inr (f t)" "t = s\<lparr>env_calls := Suc (env_calls s)\<rparr>"
  using assms unfolding query_def by (elim and_then_cases) (auto dest: sql_call_eq)

lemma execute_cases:
  assumes "execute f s = (r, t)"
  obtains (bad) e where "r = Inl e" "t = s\<lparr>env_calls := Suc (env_calls s)\<rparr>"
    | (good) "r = Inr ()" "f (s\<lparr>env_calls := Suc (env_calls s)\<rparr>) = Inr t"
  using assms unfolding execute_def
  by (elim and_then_cases) (auto dest!: sql_call_eq split: sum.splits)

section \<open>Reading rows\<close>

text \<open>When every row can be decoded, a result set is the list of the decoded rows.\<close>

lemma collect_projr:
  "(\<And>x. x \<in> set xs \<Longrightarrow> \<exists>y. f x = Inr y) \<Longrightarrow> collect_results f xs = Inr (map (\<lambda>x. projr (f x)) xs)"
proof (induction xs)
  case (Cons x xs)
  then obtain y where "f x = Inr y" by (meson list.set_intros(1))
  moreover have "collect_results f xs = Inr (map (\<lambda>x. projr (f x)) xs)" using Cons by simp
  ultimately show ?case by simp
qed simp

lemma update_where_other: "\<not> P r \<Longrightarrow> r \<in> set rows \<Longrightarrow> r \<in> set (update_where P f rows)"
  by (auto simp: update_where_def image_iff intro: bexI [of _ r])

lemma map_update_where: "(\<And>r. g (f r) = g r) \<Longrightarrow> map g (update_where P f rows) = map g rows"
  by (simp add: update_where_def o_def if_distrib cong: map_cong)

lemma set_update_where: "set (update_where P f rows) = f ` {r \<in> set rows. P r} \<union> {r \<in> set rows. \<not> P r}"
  by (auto simp: update_where_def)

end
