(* ===== verification/Anchor.thy ===== *)
theory Anchor
  imports SqlDb Samples
begin

text \<open>
  The \<open>soroban_anchor\<close> crate: the commitment of a decision, the anchors (none, and the \<open>stellar\<close>
  command-line tool), and the contract that stores commitments on chain, with the history of calls
  it refines.
\<close>

section \<open>Errors, receipts, commitments\<close>

datatype anchor_error = AncNotConfigured | AncCliFailed string | AncCliNotFound

definition anchor_error_text :: "anchor_error \<Rightarrow> string" where
  "anchor_error_text e =
     (case e of AncNotConfigured \<Rightarrow> ''on-chain anchoring not configured''
      | AncCliFailed m \<Rightarrow> ''stellar CLI invocation failed: '' @ m
      | AncCliNotFound \<Rightarrow> ''stellar CLI not found on PATH'')"

record anchor_receipt =
  re_tx_hash :: "string option"
  re_anchored_at :: datetime

type_synonym 's decision_anchor = "uuid \<Rightarrow> string \<Rightarrow> ('s, anchor_error, anchor_receipt) action"

definition noop_anchor :: "'s decision_anchor" where
  "noop_anchor = (\<lambda>_ _. err AncNotConfigured)"

definition hash_alert_id :: "crates \<Rightarrow> uuid \<Rightarrow> string" where
  "hash_alert_id X i = cr_sha256 X (''stellarrisk:alert:'' @ cr_uuid_bytes X i)"

definition canonical_decision :: "crates \<Rightarrow> uuid \<Rightarrow> string \<Rightarrow> string \<Rightarrow> string \<Rightarrow> datetime \<Rightarrow> json" where
  "canonical_decision X i who d rationale created_at =
     JObject [(''alert_id'', JString (cr_uuid_text X i)),
              (''investigator_id'', JString who),
              (''decision'', JString d),
              (''rationale'', JString rationale),
              (''created_at'', JString (cr_rfc3339 X created_at))]"

text \<open>\<open>None\<close> is the panic of \<open>expect\<close> on an object that cannot be serialised.\<close>

definition hash_decision :: "crates \<Rightarrow> uuid \<Rightarrow> string \<Rightarrow> string \<Rightarrow> string \<Rightarrow> datetime \<Rightarrow> string option" where
  "hash_decision X i who d rationale created_at =
     (case cr_json X (canonical_decision X i who d rationale created_at) of
        Inl _ \<Rightarrow> None | Inr bytes \<Rightarrow> Some (cr_sha256 X bytes))"

section \<open>The command-line anchor\<close>

text \<open>
  Running a program: it cannot be started, or it ends with an exit status and its two outputs (as
  \<open>from_utf8_lossy\<close> reads them). The state of the server adds the programs run to the database.
\<close>

datatype spawn_error = SpawnNotFound | SpawnOther string

record process_output =
  po_success :: bool
  po_stdout :: string
  po_stderr :: string

record node = db +
  nd_exec :: "nat \<Rightarrow> string \<times> string list \<Rightarrow> spawn_error + process_output"
  nd_spawned :: "(string \<times> string list) list"

definition run_process :: "string \<Rightarrow> string list \<Rightarrow> ('a node_scheme, spawn_error, process_output) action" where
  "run_process binary args s =
     (nd_exec s (length (nd_spawned s)) (binary, args), s\<lparr>nd_spawned := nd_spawned s @ [(binary, args)]\<rparr>)"

record cli_anchor =
  cl_binary :: string
  cl_contract_id :: string
  cl_network :: string
  cl_source_account :: string

definition cli_new :: "string \<Rightarrow> string \<Rightarrow> string \<Rightarrow> cli_anchor" where
  "cli_new contract_id network source_account =
     \<lparr>cl_binary = ''stellar'', cl_contract_id = contract_id, cl_network = network, cl_source_account = source_account\<rparr>"

definition with_binary :: "cli_anchor \<Rightarrow> string \<Rightarrow> cli_anchor" where
  "with_binary c b = c\<lparr>cl_binary := b\<rparr>"

definition build_args :: "cli_anchor \<Rightarrow> string \<Rightarrow> string \<Rightarrow> string list" where
  "build_args c alert_id_hash_hex decision_hash_hex =
     [''contract'', ''invoke'', ''--id'', cl_contract_id c, ''--source'', cl_source_account c,
      ''--network'', cl_network c, ''--'', ''anchor'', ''--alert_id_hash'', alert_id_hash_hex,
      ''--decision_hash'', decision_hash_hex]"

definition spawn_failed :: "spawn_error \<Rightarrow> anchor_error" where
  "spawn_failed e = (case e of SpawnNotFound \<Rightarrow> AncCliNotFound | SpawnOther m \<Rightarrow> AncCliFailed m)"

definition cli_anchor_decision :: "crates \<Rightarrow> cli_anchor \<Rightarrow> 'a node_scheme decision_anchor" where
  "cli_anchor_decision X c i decision_commitment =
     (let args = build_args c (cr_hex X (hash_alert_id X i)) (cr_hex X decision_commitment)
      in and_then (map_err_act spawn_failed (run_process (cl_binary c) args)) (\<lambda>output.
         if \<not> po_success output then err (AncCliFailed (trim (po_stderr output)))
         else let tx_hash = trim (po_stdout output)
              in and_then utc_now (\<lambda>now.
                 ok \<lparr>re_tx_hash = (if tx_hash = [] then None else Some tx_hash), re_anchored_at = now\<rparr>)))"

section \<open>The contract\<close>

text \<open>
  An invocation returns a value, returns one of the contract's errors, or traps (\<open>require_auth\<close>
  without the address's authorisation), which undoes it. What the ledger supplies to a call, the
  addresses that authorised it and the time, is an argument.
\<close>

type_synonym address = string

datatype contract_error = AlreadyInitialized | NotInitialized

datatype 'r invocation = Returned 'r | Refused contract_error | Trapped

record anchor_entry =
  an_decision_hash :: string
  an_timestamp :: "64 word"

record contract_state =
  ct_admin :: "address option"
  ct_anchors :: "string \<rightharpoonup> anchor_entry"

definition initialize :: "address \<Rightarrow> contract_state \<Rightarrow> unit invocation \<times> contract_state" where
  "initialize admin s =
     (if ct_admin s \<noteq> None then (Refused AlreadyInitialized, s)
      else (Returned (), s\<lparr>ct_admin := Some admin\<rparr>))"

definition anchor_call ::
  "address list \<Rightarrow> 64 word \<Rightarrow> string \<Rightarrow> string \<Rightarrow> contract_state \<Rightarrow> (64 word) invocation \<times> contract_state" where
  "anchor_call auths now alert_id_hash decision_hash s =
     (case ct_admin s of
        None \<Rightarrow> (Refused NotInitialized, s)
      | Some admin \<Rightarrow>
          if admin \<notin> set auths then (Trapped, s)
          else (Returned now,
                s\<lparr>ct_anchors := (ct_anchors s)
                    (alert_id_hash \<mapsto> \<lparr>an_decision_hash = decision_hash, an_timestamp = now\<rparr>)\<rparr>))"

definition get_anchor :: "string \<Rightarrow> contract_state \<Rightarrow> anchor_entry option" where
  "get_anchor alert_id_hash s = ct_anchors s alert_id_hash"

definition deployed :: contract_state where
  "deployed = \<lparr>ct_admin = None, ct_anchors = Map.empty\<rparr>"

text \<open>The calls anybody can send to the contract, and their effect in the order of the ledger.\<close>

datatype contract_call = CallInitialize address
  | CallAnchor (auths: "address list") (moment: "64 word") (key: string) (commitment: string)
  | CallGet string

definition exec_call :: "contract_call \<Rightarrow> contract_state \<Rightarrow> contract_state" where
  "exec_call c s =
     (case c of CallInitialize a \<Rightarrow> snd (initialize a s)
      | CallAnchor as now k d \<Rightarrow> snd (anchor_call as now k d s)
      | CallGet k \<Rightarrow> s)"

definition run_calls :: "contract_call list \<Rightarrow> contract_state" where
  "run_calls cs = fold exec_call cs deployed"

text \<open>
  What the contract promises, in terms of the calls alone: the first initialisation names the
  administrator; an anchor call counts when the administrator named before it has authorised it.
\<close>

definition named_admin :: "contract_call \<Rightarrow> address option" where
  "named_admin c = (case c of CallInitialize a \<Rightarrow> Some a | _ \<Rightarrow> None)"

definition first_admin :: "contract_call list \<Rightarrow> address option" where
  "first_admin cs = (case List.map_filter named_admin cs of [] \<Rightarrow> None | a # _ \<Rightarrow> Some a)"

definition counts :: "contract_call list \<Rightarrow> contract_call \<Rightarrow> bool" where
  "counts before c = (case c of CallAnchor as _ _ _ \<Rightarrow> (case first_admin before of None \<Rightarrow> False | Some a \<Rightarrow> a \<in> set as) | _ \<Rightarrow> False)"

definition accepted :: "contract_call list \<Rightarrow> contract_call list" where
  "accepted cs = map (\<lambda>n. cs ! n) (filter (\<lambda>n. counts (take n cs) (cs ! n)) [0..<length cs])"

definition last_commitment :: "string \<Rightarrow> contract_call list \<Rightarrow> anchor_entry option" where
  "last_commitment k cs =
     (case filter (\<lambda>c. key c = k) (rev (accepted cs)) of [] \<Rightarrow> None
      | c # _ \<Rightarrow> Some \<lparr>an_decision_hash = commitment c, an_timestamp = moment c\<rparr>)"

lemma first_admin_snoc:
  "first_admin (cs @ [c]) = (case first_admin cs of Some a \<Rightarrow> Some a | None \<Rightarrow> named_admin c)"
  by (auto simp: first_admin_def List.map_filter_def split: list.splits option.splits)

lemma accepted_snoc: "accepted (cs @ [c]) = accepted cs @ (if counts cs c then [c] else [])"
proof -
  have "filter (\<lambda>n. counts (take n (cs @ [c])) ((cs @ [c]) ! n)) [0..<length cs]
      = filter (\<lambda>n. counts (take n cs) (cs ! n)) [0..<length cs]"
    by (rule filter_cong) (simp_all add: nth_append)
  then show ?thesis by (auto simp: accepted_def nth_append intro!: map_cong)
qed

lemma run_calls_snoc: "run_calls (cs @ [c]) = exec_call c (run_calls cs)"
  by (simp add: run_calls_def)

lemma run_calls_admin: "ct_admin (run_calls cs) = first_admin cs"
proof (induction cs rule: rev_induct)
  case Nil
  show ?case by (simp add: run_calls_def deployed_def first_admin_def List.map_filter_def)
next
  case (snoc c cs)
  then show ?case
    by (auto simp: run_calls_snoc first_admin_snoc named_admin_def exec_call_def initialize_def anchor_call_def
          split: contract_call.splits option.splits)
qed

text \<open>
  C19: The contract keeps the last commitment that its administrator authorised. After any
  sequence of calls, sent by anybody, the administrator is the one of the first initialisation,
  later initialisations having no effect, and reading an alert's anchor gives the commitment and
  time of the last anchor call for that alert which was authorised by the administrator set before
  it; calls that are not authorised, or come before the initialisation, leave no trace.
\<close>
theorem contract_refines_history:
  "ct_admin (run_calls cs) = first_admin cs \<and> get_anchor k (run_calls cs) = last_commitment k cs"
proof (induction cs rule: rev_induct)
  case Nil
  show ?case by (simp add: run_calls_def deployed_def first_admin_def List.map_filter_def get_anchor_def last_commitment_def accepted_def)
next
  case (snoc c cs)
  have "get_anchor k (run_calls (cs @ [c])) =
      (if counts cs c \<and> key c = k then Some \<lparr>an_decision_hash = commitment c, an_timestamp = moment c\<rparr>
       else get_anchor k (run_calls cs))"
    by (auto simp: run_calls_snoc exec_call_def initialize_def anchor_call_def get_anchor_def counts_def
          run_calls_admin split: contract_call.splits option.splits)
  with snoc show ?case by (simp add: run_calls_admin last_commitment_def accepted_snoc)
qed

section \<open>What a commitment binds\<close>

text \<open>Two different objects with the same digest.\<close>

definition json_collision :: "crates \<Rightarrow> json \<Rightarrow> json \<Rightarrow> bool" where
  "json_collision X u v \<longleftrightarrow>
     u \<noteq> v \<and> (case cr_json X u of Inl _ \<Rightarrow> False | Inr b \<Rightarrow>
              (case cr_json X v of Inl _ \<Rightarrow> False | Inr c \<Rightarrow> cr_sha256 X b = cr_sha256 X c))"

text \<open>
  A commitment binds the decision. When two decisions have the same commitment, alert,
  investigator, decision, rationale and time agree, unless their canonical objects are a collision
  of the digest.
\<close>
theorem commitment_binds:
  assumes "codecs_ok X"
    and "hash_decision X i who d rationale t = Some h" and "hash_decision X j who' d' rationale' u = Some h"
  shows "i = j \<and> who = who' \<and> d = d' \<and> rationale = rationale' \<and> t = u
    \<or> json_collision X (canonical_decision X i who d rationale t) (canonical_decision X j who' d' rationale' u)"
proof -
  let ?u = "canonical_decision X i who d rationale t" and ?v = "canonical_decision X j who' d' rationale' u"
  have "i = j" if "cr_uuid_text X i = cr_uuid_text X j"
    using assms(1) that unfolding codecs_ok_def by (metis sum.inject(2))
  moreover have "t = u" if "cr_rfc3339 X t = cr_rfc3339 X u"
    using assms(1) that unfolding codecs_ok_def by (metis sum.inject(2))
  ultimately show ?thesis using assms(2,3)
    by (cases "?u = ?v") (auto simp: hash_decision_def json_collision_def canonical_decision_def split: sum.splits)
qed

text \<open>With a digest that maps everything to the same value, two decisions share a commitment.\<close>

definition weak_crates :: crates where
  "weak_crates = sample_crates\<lparr>cr_sha256 := (\<lambda>_. ''0'')\<rparr>"

theorem commitment_binds_witness:
  "json_collision weak_crates
     (canonical_decision weak_crates 7 ''inv-1'' ''escalated'' ''pattern'' (seconds 5))
     (canonical_decision weak_crates 7 ''inv-1'' ''dismissed'' ''pattern'' (seconds 5))"
proof -
  have "codecs_ok weak_crates" using sample_codecs_ok by (simp add: codecs_ok_def weak_crates_def)
  moreover have "hash_decision weak_crates 7 ''inv-1'' d ''pattern'' (seconds 5) = Some ''0''" for d
    by (simp add: hash_decision_def weak_crates_def sample_crates_def)
  ultimately show ?thesis
    using commitment_binds [of weak_crates 7 "''inv-1''" "''escalated''" "''pattern''" "seconds 5" "''0''"
        7 "''inv-1''" "''dismissed''" "''pattern''" "seconds 5"] by simp
qed

end
