(* ===== verification/SqlAudit.thy ===== *)
theory SqlAudit
  imports SqlDb
begin

text \<open>
  \<open>storage/audit_store.rs\<close>: the hash-chained audit log in the \<open>audit_log\<close> table, and the proof
  that it keeps the contract \<open>audit_store\<close> whenever the codecs can read what they write.
\<close>

definition map_sqlx :: "string \<Rightarrow> domain_error" where
  "map_sqlx e = DomStorage e"

definition map_json :: "string \<Rightarrow> domain_error" where
  "map_json e = DomInternal (''json (de)serialization failed: '' @ e)"

definition row_to_record :: "crates \<Rightarrow> audit_row \<Rightarrow> domain_error + audit_record" where
  "row_to_record X row =
     res_bind (map_err DomInternal (cr_uuid_parse X (aur_id row))) (\<lambda>id.
     res_bind (map_err DomInternal (transpose_opt (cr_uuid_parse X) (aur_alert_id row))) (\<lambda>alert_id.
     res_bind (map_err map_json (of_text (cr_event X) (aur_event_json row))) (\<lambda>event.
     res_bind (map_err DomInternal (cr_rfc3339_parse X (aur_created_at row))) (\<lambda>created_at.
       Inr \<lparr>ar_id = id, ar_alert_id = alert_id, ar_tx_id = aur_tx_id row, ar_event = event,
            ar_event_json = aur_event_json row, ar_created_at = created_at, ar_sequence = aur_sequence row,
            ar_prev_hash = aur_prev_hash row, ar_hash = aur_hash row\<rparr>))))"

definition read_record :: "crates \<Rightarrow> audit_row \<Rightarrow> audit_error + audit_record" where
  "read_record X row = map_err (\<lambda>e. AuStorage (domain_error_text e)) (row_to_record X row)"

text \<open>\<open>SELECT hash FROM audit_log ORDER BY sequence DESC LIMIT 1\<close>.\<close>

definition select_last_hash :: "audit_row list \<Rightarrow> string option" where
  "select_last_hash rows = (case sort_desc_key aur_sequence rows of [] \<Rightarrow> None | r # _ \<Rightarrow> Some (aur_hash r))"

text \<open>\<open>SELECT COALESCE(MAX(sequence), -1) + 1\<close>.\<close>

definition select_next_sequence :: "audit_row list \<Rightarrow> int" where
  "select_next_sequence rows = (if rows = [] then - 1 else Max (set (map aur_sequence rows))) + 1"

definition insert_audit_row :: "crates \<Rightarrow> audit_row \<Rightarrow> 'a db_scheme \<Rightarrow> string + 'a db_scheme" where
  "insert_audit_row X row s =
     (if aur_sequence row \<in> aur_sequence ` set (db_audit s) then Inl (cr_unique_error X ''audit_log.sequence'')
      else if aur_id row \<in> aur_id ` set (db_audit s) then Inl (cr_unique_error X ''audit_log.id'')
      else Inr (s\<lparr>db_audit := db_audit s @ [row]\<rparr>))"

definition audit_row_of :: "crates \<Rightarrow> audit_record \<Rightarrow> audit_row" where
  "audit_row_of X r =
     \<lparr>aur_sequence = ar_sequence r, aur_id = cr_uuid_text X (ar_id r),
      aur_alert_id = map_option (cr_uuid_text X) (ar_alert_id r), aur_tx_id = ar_tx_id r,
      aur_event_json = ar_event_json r, aur_created_at = cr_rfc3339 X (ar_created_at r),
      aur_prev_hash = ar_prev_hash r, aur_hash = ar_hash r\<rparr>"

definition sqlite_append :: "crates \<Rightarrow> new_audit_event \<Rightarrow> ('a db_scheme, audit_error, audit_record) action" where
  "sqlite_append X ev =
     and_then (map_err_act AuStorage (query (\<lambda>s. select_last_hash (db_audit s)))) (\<lambda>last_hash.
     let prev_hash = (case last_hash of None \<Rightarrow> genesis_hash | Some h \<Rightarrow> h) in
     and_then (map_err_act AuStorage (query (\<lambda>s. select_next_sequence (db_audit s)))) (\<lambda>next_sequence.
     and_then utc_now (\<lambda>created_at.
     and_then new_uuid (\<lambda>id.
     and_then (lift_res (event_text X (ne_event ev))) (\<lambda>event_json.
     and_then (lift_res (compute_hash X prev_hash next_sequence (ne_alert_id ev) (ne_tx_id ev) event_json created_at)) (\<lambda>hash.
       let rec = \<lparr>ar_id = id, ar_alert_id = ne_alert_id ev, ar_tx_id = ne_tx_id ev, ar_event = ne_event ev,
                  ar_event_json = event_json, ar_created_at = created_at, ar_sequence = next_sequence,
                  ar_prev_hash = prev_hash, ar_hash = hash\<rparr>
       in and_then (map_err_act AuStorage (execute (insert_audit_row X (audit_row_of X rec)))) (\<lambda>_. ok rec)))))))"

definition select_records ::
  "crates \<Rightarrow> (audit_row list \<Rightarrow> audit_row list) \<Rightarrow> ('a db_scheme, audit_error, audit_record list) action" where
  "select_records X f =
     and_then (map_err_act AuStorage (query (\<lambda>s. f (db_audit s)))) (\<lambda>rows.
     lift_res (collect_results (read_record X) rows))"

definition sqlite_list_for_alert :: "crates \<Rightarrow> uuid \<Rightarrow> ('a db_scheme, audit_error, audit_record list) action" where
  "sqlite_list_for_alert X a =
     select_records X (\<lambda>rows. sort_key aur_sequence (filter (\<lambda>r. aur_alert_id r = Some (cr_uuid_text X a)) rows))"

definition sqlite_list_for_tx :: "crates \<Rightarrow> tx_id \<Rightarrow> ('a db_scheme, audit_error, audit_record list) action" where
  "sqlite_list_for_tx X t =
     select_records X (\<lambda>rows. sort_key aur_sequence (filter (\<lambda>r. aur_tx_id r = Some t) rows))"

definition sqlite_list_all :: "crates \<Rightarrow> int \<Rightarrow> ('a db_scheme, audit_error, audit_record list) action" where
  "sqlite_list_all X limit =
     and_then (select_records X (\<lambda>rows. sql_limit limit (sort_desc_key aur_sequence rows))) (\<lambda>records. ok (rev records))"

definition sqlite_verify_chain :: "crates \<Rightarrow> ('a db_scheme, audit_error, chain_verification) action" where
  "sqlite_verify_chain X =
     and_then (select_records X (sort_key aur_sequence)) (\<lambda>records. ok (verify_chain X records))"

definition sqlite_audit_ops :: "crates \<Rightarrow> 'a db_scheme audit_ops" where
  "sqlite_audit_ops X =
     \<lparr>au_append = sqlite_append X, au_list_for_alert = sqlite_list_for_alert X,
      au_list_for_tx = sqlite_list_for_tx X, au_list_all = sqlite_list_all X,
      au_verify_chain = sqlite_verify_chain X\<rparr>"

lemma sqlite_audit_ops_sel [simp]:
  "au_append (sqlite_audit_ops X) = sqlite_append X"
  "au_list_for_alert (sqlite_audit_ops X) = sqlite_list_for_alert X"
  "au_list_for_tx (sqlite_audit_ops X) = sqlite_list_for_tx X"
  "au_list_all (sqlite_audit_ops X) = sqlite_list_all X"
  "au_verify_chain (sqlite_audit_ops X) = sqlite_verify_chain X"
  by (simp_all add: sqlite_audit_ops_def)

section \<open>The rows of a sound log\<close>

definition audit_row_ok :: "crates \<Rightarrow> audit_row \<Rightarrow> bool" where
  "audit_row_ok X r \<longleftrightarrow>
     (\<exists>a. row_to_record X r = Inr a \<and> aur_alert_id r = map_option (cr_uuid_text X) (ar_alert_id a))"

definition row_entry :: "crates \<Rightarrow> audit_row \<Rightarrow> audit_entry" where
  "row_entry X r = entry_of (projr (row_to_record X r))"

definition sql_log :: "crates \<Rightarrow> 'a db_scheme \<Rightarrow> audit_entry list" where
  "sql_log X s = map (row_entry X) (db_audit s)"

definition sql_audit_inv :: "crates \<Rightarrow> 'a db_scheme \<Rightarrow> bool" where
  "sql_audit_inv X s \<longleftrightarrow>
     codecs_ok X \<and> list_all (audit_row_ok X) (db_audit s) \<and> linked X (sql_log X s) \<and> numbered (sql_log X s)"

lemma row_to_record_fields:
  "row_to_record X r = Inr a \<Longrightarrow>
     ar_sequence a = aur_sequence r \<and> ar_tx_id a = aur_tx_id r \<and> ar_event_json a = aur_event_json r
     \<and> ar_prev_hash a = aur_prev_hash r \<and> ar_hash a = aur_hash r"
  by (auto simp: row_to_record_def res_bind_Inr_iff)

lemma row_entry_fields:
  "audit_row_ok X r \<Longrightarrow> ae_sequence (row_entry X r) = aur_sequence r"
  "audit_row_ok X r \<Longrightarrow> ae_tx_id (row_entry X r) = aur_tx_id r"
  "audit_row_ok X r \<Longrightarrow> ae_hash (row_entry X r) = aur_hash r"
  "audit_row_ok X r \<Longrightarrow> aur_alert_id r = map_option (cr_uuid_text X) (ae_alert_id (row_entry X r))"
  by (auto simp: audit_row_ok_def row_entry_def row_to_record_fields)

lemma codecs_uuid: "codecs_ok X \<Longrightarrow> cr_uuid_parse X (cr_uuid_text X u) = Inr u"
  by (simp add: codecs_ok_def)

lemma codecs_time: "codecs_ok X \<Longrightarrow> cr_rfc3339_parse X (cr_rfc3339 X t) = Inr t"
  by (simp add: codecs_ok_def)

lemma uuid_text_inject: "codecs_ok X \<Longrightarrow> cr_uuid_text X u = cr_uuid_text X v \<longleftrightarrow> u = v"
  by (metis codecs_uuid sum.inject(2))

text \<open>A row that is written is read back as the entry it was written for.\<close>

lemma written_row:
  assumes "codecs_ok X" "to_text (cr_event X) e = Inr (ar_event_json r)"
  shows "audit_row_ok X (audit_row_of X r)" "row_entry X (audit_row_of X r) = entry_of r"
proof -
  have "codec_readable (cr_event X)" using assms(1) by (simp add: codecs_ok_def)
  then obtain k where "of_text (cr_event X) (ar_event_json r) = Inr k"
    using assms(2) unfolding codec_readable_def by (metis sum.inject(2))
  moreover have "transpose_opt (cr_uuid_parse X) (map_option (cr_uuid_text X) (ar_alert_id r)) = Inr (ar_alert_id r)"
    using assms(1) by (cases "ar_alert_id r") (simp_all add: codecs_uuid)
  ultimately have "row_to_record X (audit_row_of X r) = Inr (r\<lparr>ar_event := k\<rparr>)"
    using assms(1) by (simp add: row_to_record_def audit_row_of_def codecs_uuid codecs_time)
  then show "audit_row_ok X (audit_row_of X r)" "row_entry X (audit_row_of X r) = entry_of r"
    by (auto simp: audit_row_ok_def row_entry_def audit_row_of_def entry_of_def)
qed

lemma sql_log_sequences:
  "sql_audit_inv X s \<Longrightarrow> map aur_sequence (db_audit s) = map int [0..<length (db_audit s)]"
proof -
  assume i: "sql_audit_inv X s"
  then have "map aur_sequence (db_audit s) = map ae_sequence (sql_log X s)"
    by (auto simp: sql_audit_inv_def sql_log_def list_all_iff row_entry_fields)
  with i show ?thesis by (simp add: sql_audit_inv_def numbered_def sql_log_def)
qed

lemma sort_key_ascending: "sorted (map f xs) \<Longrightarrow> sort_key f xs = xs"
  by (induction xs) (auto simp: insort_is_Cons)

lemma sort_key_unique:
  "sorted (map f xs) \<Longrightarrow> distinct (map f xs) \<Longrightarrow> mset ys = mset xs \<Longrightarrow> sort_key f ys = xs"
  by (rule sort_key_inj_key_eq) (auto simp: distinct_map dest: mset_eq_setD)

lemma sql_log_order:
  assumes "sql_audit_inv X s"
  shows "sorted (map aur_sequence (db_audit s))" "distinct (map aur_sequence (db_audit s))"
    "sort_key aur_sequence (db_audit s) = db_audit s"
    "sort_desc_key aur_sequence (db_audit s) = rev (db_audit s)"
proof -
  show o: "sorted (map aur_sequence (db_audit s))" "distinct (map aur_sequence (db_audit s))"
    by (simp_all add: sql_log_sequences [OF assms] sorted_map distinct_map)
  show "sort_key aur_sequence (db_audit s) = db_audit s" by (rule sort_key_ascending [OF o(1)])
  show "sort_desc_key aur_sequence (db_audit s) = rev (db_audit s)"
    using sort_key_unique [OF o] by (simp add: sort_desc_key_def)
qed

lemma select_last_hash_log:
  "sql_audit_inv X s \<Longrightarrow>
   (case select_last_hash (db_audit s) of None \<Rightarrow> genesis_hash | Some h \<Rightarrow> h) = last_hash (sql_log X s)"
proof (cases "db_audit s" rule: rev_cases)
  case Nil
  then show ?thesis by (simp add: select_last_hash_def sort_desc_key_def last_hash_def sql_log_def)
next
  case (snoc rows r)
  assume i: "sql_audit_inv X s"
  then have "audit_row_ok X r" using snoc by (simp add: sql_audit_inv_def)
  then show ?thesis
    using sql_log_order(4) [OF i] snoc
    by (simp add: select_last_hash_def last_hash_def sql_log_def row_entry_fields)
qed

lemma select_next_sequence_log:
  "sql_audit_inv X s \<Longrightarrow> select_next_sequence (db_audit s) = int (length (sql_log X s))"
proof -
  assume i: "sql_audit_inv X s"
  show ?thesis
  proof (cases "db_audit s = []")
    case False
    let ?n = "length (db_audit s)"
    have "Max (set (map aur_sequence (db_audit s))) = int ?n - 1"
    proof (rule Max_eqI)
      show "y \<le> int ?n - 1" if "y \<in> set (map aur_sequence (db_audit s))" for y
        using that unfolding sql_log_sequences [OF i] by auto
      show "int ?n - 1 \<in> set (map aur_sequence (db_audit s))"
        using False unfolding sql_log_sequences [OF i] by (auto simp: image_iff of_nat_diff Suc_le_eq intro!: bexI [of _ "?n - 1"])
    qed simp
    with False show ?thesis by (simp add: select_next_sequence_def sql_log_def)
  qed (simp add: select_next_sequence_def sql_log_def)
qed

section \<open>The SQLite log keeps the contract\<close>

lemma sql_log_same: "db_audit t = db_audit s \<Longrightarrow> sql_log X t = sql_log X s \<and> sql_audit_inv X t = sql_audit_inv X s"
  by (simp add: sql_log_def sql_audit_inv_def)

lemma insert_audit_row_Inr: "insert_audit_row X row s = Inr t \<Longrightarrow> t = s\<lparr>db_audit := db_audit s @ [row]\<rparr>"
  by (simp add: insert_audit_row_def split: if_splits)

text \<open>\<open>append\<close> draws from the environment and otherwise only adds its row.\<close>

definition only_env_changed :: "'a db_scheme \<Rightarrow> 'a db_scheme \<Rightarrow> bool" where
  "only_env_changed s t \<longleftrightarrow>
     t = s\<lparr>env_ticks := env_ticks t, env_uuids := env_uuids t, env_calls := env_calls t,
           env_sent := env_sent t, env_slept := env_slept t\<rparr>"

lemma only_env_tables:
  "only_env_changed s t \<Longrightarrow> db_audit t = db_audit s \<and> db_alerts t = db_alerts s \<and> db_decisions t = db_decisions s
     \<and> db_transactions t = db_transactions s \<and> db_flagged t = db_flagged s \<and> db_cursors t = db_cursors s
     \<and> db_dead_letters t = db_dead_letters s \<and> db_investigators t = db_investigators s"
  unfolding only_env_changed_def by (elim ssubst) simp

lemma query_only_env:
  assumes "map_err_act f (query g) s = (r, t)"
  shows "only_env_changed s t" "r = Inr x \<Longrightarrow> x = g t" "t = s\<lparr>env_calls := Suc (env_calls s)\<rparr>"
  using assms by (auto simp: only_env_changed_def elim!: map_err_act_cases query_cases)

lemma sqlite_append_effect:
  assumes "sqlite_append X ev s = (r, t)"
  shows "\<exists>u. only_env_changed s u \<and>
    (case r of Inl e \<Rightarrow> t = u
     | Inr rec \<Rightarrow> t = u\<lparr>db_audit := db_audit s @ [audit_row_of X rec]\<rparr>
         \<and> records_event X ev rec
         \<and> ar_prev_hash rec = (case select_last_hash (db_audit s) of None \<Rightarrow> genesis_hash | Some h \<Rightarrow> h)
         \<and> ar_sequence rec = select_next_sequence (db_audit s)
         \<and> digest X (canonical_entry X (entry_of rec)) = Inr (ar_hash rec))"
proof -
  define s1 where "s1 = s\<lparr>env_calls := Suc (env_calls s)\<rparr>"
  define s2 where "s2 = s1\<lparr>env_calls := Suc (env_calls s1)\<rparr>"
  define s3 where "s3 = s2\<lparr>env_ticks := Suc (env_ticks s2), env_uuids := Suc (env_uuids s2)\<rparr>"
  let ?prev = "case select_last_hash (db_audit s) of None \<Rightarrow> genesis_hash | Some h \<Rightarrow> h"
  let ?seq = "select_next_sequence (db_audit s)"
  have oe: "only_env_changed s s1" "only_env_changed s s2" "only_env_changed s s3"
    by (simp_all add: only_env_changed_def s1_def s2_def s3_def)
  define s4 where "s4 = s3\<lparr>env_calls := Suc (env_calls s3)\<rparr>"
  define rec where "rec ej h = \<lparr>ar_id = env_uuid_src s2 (env_uuids s2), ar_alert_id = ne_alert_id ev, ar_tx_id = ne_tx_id ev,
      ar_event = ne_event ev, ar_event_json = ej, ar_created_at = env_clock s2 (env_ticks s2), ar_sequence = ?seq,
      ar_prev_hash = ?prev, ar_hash = h\<rparr>" for ej h
  have oe4: "only_env_changed s s4" by (simp add: only_env_changed_def s1_def s2_def s3_def s4_def)
  consider (a) "t = s1" "\<exists>e. r = Inl e" | (b) "t = s2" "\<exists>e. r = Inl e" | (c) "t = s3" "\<exists>e. r = Inl e"
    | (d) "t = s4" "\<exists>e. r = Inl e"
    | (e) ej h where "event_text X (ne_event ev) = Inr ej"
        "compute_hash X ?prev ?seq (ne_alert_id ev) (ne_tx_id ev) ej (env_clock s2 (env_ticks s2)) = Inr h"
        "r = Inr (rec ej h)" "insert_audit_row X (audit_row_of X (rec ej h)) s4 = Inr t"
    using assms unfolding sqlite_append_def
    by (auto simp: Let_def s1_def s2_def s3_def s4_def rec_def utc_now_def new_uuid_def
        elim!: and_then_cases map_err_act_cases query_cases execute_cases)
  then show ?thesis
  proof cases
    case e
    have "records_event X ev (rec ej h)" "digest X (canonical_entry X (entry_of (rec ej h))) = Inr h"
      using e(1,2) by (auto simp: records_event_def event_text_def compute_hash_def canonical_entry_def rec_def)
    moreover have "t = s4\<lparr>db_audit := db_audit s @ [audit_row_of X (rec ej h)]\<rparr>"
      using insert_audit_row_Inr [OF e(4)] by (simp add: s1_def s2_def s3_def s4_def)
    ultimately show ?thesis using e(3) oe4 by (intro exI [of _ s4]) (simp add: rec_def)
  qed (use oe oe4 in auto)
qed

lemma sqlite_append_log:
  assumes "sql_audit_inv X s" "sqlite_append X ev s = (Inr rec, t)"
  shows "sql_audit_inv X t \<and> sql_log X t = sql_log X s @ [entry_of rec] \<and> records_event X ev rec"
proof -
  obtain u where t: "t = u\<lparr>db_audit := db_audit s @ [audit_row_of X rec]\<rparr>" and rec: "records_event X ev rec"
    "ar_prev_hash rec = last_hash (sql_log X s)" "ar_sequence rec = int (length (sql_log X s))"
    "digest X (canonical_entry X (entry_of rec)) = Inr (ar_hash rec)"
    using sqlite_append_effect [OF assms(2)] select_last_hash_log [OF assms(1)] select_next_sequence_log [OF assms(1)]
    by auto
  have "codecs_ok X" using assms(1) by (simp add: sql_audit_inv_def)
  note row = written_row [OF this, of "ne_event ev" rec]
  have ej: "to_text (cr_event X) (ne_event ev) = Inr (ar_event_json rec)" using rec(1) by (simp add: records_event_def)
  have log: "sql_log X t = sql_log X s @ [entry_of rec]" using row(2) [OF ej] by (simp add: t sql_log_def)
  with row(1) [OF ej] rec assms(1) show ?thesis
    by (simp add: sql_audit_inv_def linked_snoc numbered_snoc) (simp add: t)
qed

text \<open>Reading part of the log.\<close>

lemma select_records_effect:
  assumes "sql_audit_inv X s" "select_records X f s = (r, t)" "\<And>rows. set (f rows) \<subseteq> set rows"
  shows "only_env_changed s t \<and> (\<forall>rs. r = Inr rs \<longrightarrow> map entry_of rs = map (row_entry X) (f (db_audit s)))"
proof -
  have rows: "\<exists>a. row_to_record X x = Inr a" if "x \<in> set (f (db_audit s))" for x
  proof -
    have "x \<in> set (db_audit s)" using assms(3) that by blast
    then show ?thesis using assms(1) by (auto simp: sql_audit_inv_def list_all_iff audit_row_ok_def)
  qed
  have "collect_results (read_record X) (f (db_audit s)) = Inr (map (\<lambda>x. projr (read_record X x)) (f (db_audit s)))"
    by (rule collect_projr) (auto simp: read_record_def dest!: rows)
  moreover have "projr (read_record X x) = projr (row_to_record X x)" if "x \<in> set (f (db_audit s))" for x
    using rows [OF that] by (auto simp: read_record_def)
  ultimately have c: "collect_results (read_record X) (f (db_audit s)) =
      Inr (map (\<lambda>x. projr (row_to_record X x)) (f (db_audit s)))"
    by (simp cong: map_cong)
  show ?thesis
    using assms(2) unfolding select_records_def
    by (auto simp: only_env_changed_def c row_entry_def [abs_def] o_def
          elim!: and_then_cases map_err_act_cases query_cases)
qed

lemma set_sql_limit: "set (sql_limit n (sort_desc_key f rows)) \<subseteq> set rows"
  by (auto simp: sql_limit_def dest: in_set_takeD)

lemma filter_map_entries:
  assumes "sql_audit_inv X s" "\<And>r. audit_row_ok X r \<Longrightarrow> P r \<longleftrightarrow> Q (row_entry X r)"
  shows "map (row_entry X) (sort_key aur_sequence (filter P (db_audit s))) = filter Q (sql_log X s)"
proof -
  have "sorted (map aur_sequence (filter P (db_audit s)))"
    using sql_log_order(1) [OF assms(1)] by (rule sorted_filter)
  then have "sort_key aur_sequence (filter P (db_audit s)) = filter P (db_audit s)" by (rule sort_key_ascending)
  moreover have "filter P (db_audit s) = filter (\<lambda>r. Q (row_entry X r)) (db_audit s)"
    using assms by (intro filter_cong) (auto simp: sql_audit_inv_def list_all_iff)
  ultimately show ?thesis by (simp add: sql_log_def filter_map o_def)
qed

interpretation sqlite_audit: audit_store X "sqlite_audit_ops X" "sql_audit_inv X" "sql_log X" for X
proof (unfold_locales, goal_cases)
  case (1 s ev r t)
  then show ?case using sqlite_append_log by simp
next
  case (2 s ev e t)
  then show ?case using sqlite_append_effect [of X ev s "Inl e" t] only_env_tables [of s t] sql_log_same [of t s X] by auto
next
  case (3 s)
  then show ?case by (simp add: sql_audit_inv_def)
next
  case (4 s)
  then show ?case by (simp add: sql_audit_inv_def)
next
  case (5 s a r t)
  then have "only_env_changed s t"
    using select_records_effect [OF 5(1), of _ r t] by (fastforce simp: sqlite_list_for_alert_def)
  then show ?case using 5(1) only_env_tables [of s t] sql_log_same [of t s X] by simp
next
  case (6 s a rs t)
  have "map entry_of rs = map (row_entry X) (sort_key aur_sequence (filter (\<lambda>r. aur_alert_id r = Some (cr_uuid_text X a)) (db_audit s)))"
    using select_records_effect [OF 6(1), of _ "Inr rs" t] 6(2) by (fastforce simp: sqlite_list_for_alert_def)
  moreover have "codecs_ok X" using 6(1) by (simp add: sql_audit_inv_def)
  ultimately show ?case
    using filter_map_entries [OF 6(1), of "\<lambda>r. aur_alert_id r = Some (cr_uuid_text X a)" "\<lambda>e. ae_alert_id e = Some a"]
    by (simp add: row_entry_fields(4) uuid_text_inject)
next
  case (7 s x r t)
  then have "only_env_changed s t"
    using select_records_effect [OF 7(1), of _ r t] by (fastforce simp: sqlite_list_for_tx_def)
  then show ?case using 7(1) only_env_tables [of s t] sql_log_same [of t s X] by simp
next
  case (8 s x rs t)
  have "map entry_of rs = map (row_entry X) (sort_key aur_sequence (filter (\<lambda>r. aur_tx_id r = Some x) (db_audit s)))"
    using select_records_effect [OF 8(1), of _ "Inr rs" t] 8(2) by (fastforce simp: sqlite_list_for_tx_def)
  then show ?case
    using filter_map_entries [OF 8(1), of "\<lambda>r. aur_tx_id r = Some x" "\<lambda>e. ae_tx_id e = Some x"]
    by (simp add: row_entry_fields(2))
next
  case (9 s n r t)
  then obtain q where "select_records X (\<lambda>rows. sql_limit n (sort_desc_key aur_sequence rows)) s = (q, t)"
    by (auto simp: sqlite_list_all_def elim!: and_then_cases)
  from select_records_effect [OF 9(1) this set_sql_limit] have "only_env_changed s t" by simp
  then show ?case using 9(1) only_env_tables [of s t] sql_log_same [of t s X] by simp
next
  case (10 s n rs t)
  then obtain q where q: "select_records X (\<lambda>rows. sql_limit n (sort_desc_key aur_sequence rows)) s = (Inr q, t)" "rs = rev q"
    by (auto simp: sqlite_list_all_def elim!: and_then_cases)
  have "map entry_of q = map (row_entry X) (sql_limit n (sort_desc_key aur_sequence (db_audit s)))"
    using select_records_effect [OF 10(1) q(1) set_sql_limit] by simp
  with q(2) 10(2) show ?case
    by (simp add: sql_log_order(4) [OF 10(1)] sql_limit_def sql_log_def rev_map [symmetric] take_rev drop_map)
next
  case (11 s r t)
  then obtain q where "select_records X (sort_key aur_sequence) s = (q, t)"
    by (auto simp: sqlite_verify_chain_def elim!: and_then_cases)
  then have "only_env_changed s t" using select_records_effect [OF 11(1)] by auto
  then show ?case using 11(1) only_env_tables [of s t] sql_log_same [of t s X] by simp
next
  case (12 s v t)
  then obtain q where q: "select_records X (sort_key aur_sequence) s = (Inr q, t)" "v = verify_chain X q"
    by (auto simp: sqlite_verify_chain_def elim!: and_then_cases)
  have "map entry_of q = map (row_entry X) (sort_key aur_sequence (db_audit s))"
    using select_records_effect [OF 12(1) q(1)] by auto
  then show ?case using q(2) by (auto simp: sql_log_order(3) [OF 12(1)] sql_log_def)
qed

end
