(* ===== verification/SqlAlerts.thy ===== *)
theory SqlAlerts
  imports SqlAudit
begin

text \<open>
  \<open>storage/alert_store.rs\<close>: alerts and decisions in SQLite. The store keeps the contract
  \<open>alert_store\<close>, and together with the log of \<open>SqlAudit\<close> the contract \<open>keyed_backend\<close>: the
  workflow facts of \<open>Review\<close> hold for the production wiring.
\<close>

definition row_to_alert :: "crates \<Rightarrow> alert_row \<Rightarrow> domain_error + alert" where
  "row_to_alert X row =
     res_bind (map_err DomInternal (cr_uuid_parse X (alr_id row))) (\<lambda>id.
     res_bind (map_err map_json (of_text (cr_strings X) (alr_accounts_json row))) (\<lambda>accounts.
     res_bind (map_err map_json (of_text (cr_assets X) (alr_assets_json row))) (\<lambda>assets.
     res_bind (map_err DomInternal (cr_rfc3339_parse X (alr_created_at row))) (\<lambda>created_at.
     res_bind (map_err map_json (of_text (cr_triggers X) (alr_triggered_rules_json row))) (\<lambda>triggers.
     res_bind (map_err DomInternal (severity_from_str (alr_severity row))) (\<lambda>severity.
     res_bind (map_err DomInternal (alert_status_from_str (alr_status row))) (\<lambda>status.
     res_bind (map_err map_json (of_text (cr_ai_status X) (alr_ai_status_json row))) (\<lambda>ai_status.
       Inr \<lparr>al_id = id, al_tx_id = alr_tx_id row, al_accounts = accounts, al_assets = assets,
            al_created_at = created_at, al_triggered_rules = triggers, al_score = alr_score row,
            al_severity = severity, al_status = status, al_ai_status = ai_status\<rparr>))))))))"

text \<open>The values bound by \<open>INSERT INTO alerts\<close>.\<close>

definition alert_row_of :: "crates \<Rightarrow> alert \<Rightarrow> domain_error + alert_row" where
  "alert_row_of X a =
     res_bind (map_err map_json (to_text (cr_strings X) (al_accounts a))) (\<lambda>accounts.
     res_bind (map_err map_json (to_text (cr_assets X) (al_assets a))) (\<lambda>assets.
     res_bind (map_err map_json (to_text (cr_triggers X) (al_triggered_rules a))) (\<lambda>triggers.
     res_bind (map_err map_json (to_text (cr_ai_status X) (al_ai_status a))) (\<lambda>ai_status.
       Inr \<lparr>alr_id = cr_uuid_text X (al_id a), alr_tx_id = al_tx_id a, alr_accounts_json = accounts,
            alr_assets_json = assets, alr_created_at = cr_rfc3339 X (al_created_at a),
            alr_triggered_rules_json = triggers, alr_score = al_score a,
            alr_severity = severity_str (al_severity a), alr_status = alert_status_str (al_status a),
            alr_ai_status_json = ai_status\<rparr>))))"

definition insert_alert_row :: "crates \<Rightarrow> alert_row \<Rightarrow> 'a db_scheme \<Rightarrow> string + 'a db_scheme" where
  "insert_alert_row X row s =
     (if alr_id row \<in> alr_id ` set (db_alerts s) then Inl (cr_unique_error X ''alerts.id'')
      else Inr (s\<lparr>db_alerts := db_alerts s @ [row]\<rparr>))"

definition sqlite_insert :: "crates \<Rightarrow> alert \<Rightarrow> ('a db_scheme, domain_error, unit) action" where
  "sqlite_insert X a =
     and_then (lift_res (alert_row_of X a)) (\<lambda>row.
       map_err_act map_sqlx (execute (insert_alert_row X row)))"

definition sqlite_get :: "crates \<Rightarrow> uuid \<Rightarrow> ('a db_scheme, domain_error, alert option) action" where
  "sqlite_get X i =
     and_then (map_err_act map_sqlx (query (\<lambda>s. find (\<lambda>r. alr_id r = cr_uuid_text X i) (db_alerts s)))) (\<lambda>row.
     lift_res (transpose_opt (row_to_alert X) row))"

definition select_alerts :: "alert_filter \<Rightarrow> alert_row list \<Rightarrow> alert_row list" where
  "select_alerts f rows =
     (let limit = (if af_limit f > 0 then af_limit f else 100);
          matching = (case af_status f of
                        Some st \<Rightarrow> filter (\<lambda>r. alr_status r = alert_status_str st) rows
                      | None \<Rightarrow> rows)
      in sql_limit limit (sql_offset (af_offset f) (sort_desc_key alr_created_at matching)))"

definition sqlite_list :: "crates \<Rightarrow> alert_filter \<Rightarrow> ('a db_scheme, domain_error, alert list) action" where
  "sqlite_list X f =
     and_then (map_err_act map_sqlx (query (\<lambda>s. select_alerts f (db_alerts s)))) (\<lambda>rows.
     lift_res (collect_results (row_to_alert X) rows))"

definition update_ai_status :: "crates \<Rightarrow> uuid \<Rightarrow> string \<Rightarrow> 'a db_scheme \<Rightarrow> string + 'a db_scheme" where
  "update_ai_status X i json s =
     Inr (s\<lparr>db_alerts := update_where (\<lambda>r. alr_id r = cr_uuid_text X i) (\<lambda>r. r\<lparr>alr_ai_status_json := json\<rparr>) (db_alerts s)\<rparr>)"

definition sqlite_set_ai_status :: "crates \<Rightarrow> uuid \<Rightarrow> ai_advisory_status \<Rightarrow> ('a db_scheme, domain_error, unit) action" where
  "sqlite_set_ai_status X i st =
     and_then (lift_res (map_err map_json (to_text (cr_ai_status X) st))) (\<lambda>json.
       map_err_act map_sqlx (execute (update_ai_status X i json)))"

definition decision_row_of :: "crates \<Rightarrow> decision_record \<Rightarrow> decision_row" where
  "decision_row_of X d =
     \<lparr>der_id = cr_uuid_text X (dr_id d), der_alert_id = cr_uuid_text X (dr_alert_id d),
      der_investigator_id = dr_investigator_id d, der_decision = decision_str (dr_decision d),
      der_rationale = dr_rationale d, der_created_at = cr_rfc3339 X (dr_created_at d)\<rparr>"

text \<open>The primary key, then the reference to \<open>alerts\<close>.\<close>

definition insert_decision_row :: "crates \<Rightarrow> decision_row \<Rightarrow> 'a db_scheme \<Rightarrow> string + 'a db_scheme" where
  "insert_decision_row X row s =
     (if der_id row \<in> der_id ` set (db_decisions s) then Inl (cr_unique_error X ''alert_decisions.id'')
      else if der_alert_id row \<notin> alr_id ` set (db_alerts s) then Inl (cr_foreign_key_error X)
      else Inr (s\<lparr>db_decisions := db_decisions s @ [row]\<rparr>))"

definition update_alert_status :: "string \<Rightarrow> string \<Rightarrow> 'a db_scheme \<Rightarrow> string + 'a db_scheme" where
  "update_alert_status i st s =
     Inr (s\<lparr>db_alerts := update_where (\<lambda>r. alr_id r = i) (\<lambda>r. r\<lparr>alr_status := st\<rparr>) (db_alerts s)\<rparr>)"

definition sqlite_record_decision ::
  "crates \<Rightarrow> decision_record \<Rightarrow> alert_status \<Rightarrow> ('a db_scheme, domain_error, unit) action" where
  "sqlite_record_decision X d st =
     map_err_act map_sqlx
       (sql_transaction
          (and_then (execute (insert_decision_row X (decision_row_of X d))) (\<lambda>_.
           execute (update_alert_status (cr_uuid_text X (dr_alert_id d)) (alert_status_str st)))))"

definition row_to_decision :: "crates \<Rightarrow> decision_row \<Rightarrow> domain_error + decision_record" where
  "row_to_decision X row =
     res_bind (map_err DomInternal (cr_uuid_parse X (der_id row))) (\<lambda>id.
     res_bind (map_err DomInternal (cr_uuid_parse X (der_alert_id row))) (\<lambda>alert_id.
     res_bind (map_err DomInternal (decision_from_str (der_decision row))) (\<lambda>d.
     res_bind (map_err DomInternal (cr_rfc3339_parse X (der_created_at row))) (\<lambda>created_at.
       Inr \<lparr>dr_id = id, dr_alert_id = alert_id, dr_investigator_id = der_investigator_id row,
            dr_decision = d, dr_rationale = der_rationale row, dr_created_at = created_at\<rparr>))))"

definition sqlite_decision_history :: "crates \<Rightarrow> uuid \<Rightarrow> ('a db_scheme, domain_error, decision_record list) action" where
  "sqlite_decision_history X i =
     and_then (map_err_act map_sqlx (query (\<lambda>s.
       sort_key der_created_at (filter (\<lambda>r. der_alert_id r = cr_uuid_text X i) (db_decisions s))))) (\<lambda>rows.
     lift_res (collect_results (row_to_decision X) rows))"

definition sqlite_alert_ops :: "crates \<Rightarrow> 'a db_scheme alert_ops" where
  "sqlite_alert_ops X =
     \<lparr>ao_insert = sqlite_insert X, ao_get = sqlite_get X, ao_list = sqlite_list X,
      ao_set_ai_status = sqlite_set_ai_status X, ao_record_decision = sqlite_record_decision X,
      ao_decision_history = sqlite_decision_history X\<rparr>"

lemma sqlite_alert_ops_sel [simp]:
  "ao_insert (sqlite_alert_ops X) = sqlite_insert X" "ao_get (sqlite_alert_ops X) = sqlite_get X"
  "ao_list (sqlite_alert_ops X) = sqlite_list X" "ao_set_ai_status (sqlite_alert_ops X) = sqlite_set_ai_status X"
  "ao_record_decision (sqlite_alert_ops X) = sqlite_record_decision X"
  "ao_decision_history (sqlite_alert_ops X) = sqlite_decision_history X"
  by (simp_all add: sqlite_alert_ops_def)

section \<open>Sound tables\<close>

definition alert_row_ok :: "crates \<Rightarrow> alert_row \<Rightarrow> bool" where
  "alert_row_ok X r \<longleftrightarrow> (\<exists>a. row_to_alert X r = Inr a \<and> alr_id r = cr_uuid_text X (al_id a))"

definition decision_row_ok :: "crates \<Rightarrow> decision_row \<Rightarrow> bool" where
  "decision_row_ok X r \<longleftrightarrow> (\<exists>d. row_to_decision X r = Inr d \<and> der_alert_id r = cr_uuid_text X (dr_alert_id d))"

definition sql_alert_inv :: "crates \<Rightarrow> 'a db_scheme \<Rightarrow> bool" where
  "sql_alert_inv X s \<longleftrightarrow>
     codecs_ok X \<and> list_all (alert_row_ok X) (db_alerts s) \<and> distinct (map alr_id (db_alerts s))
     \<and> list_all (decision_row_ok X) (db_decisions s)"

definition read_alert :: "crates \<Rightarrow> alert_row \<Rightarrow> alert" where
  "read_alert X r = projr (row_to_alert X r)"

definition sql_amap :: "crates \<Rightarrow> 'a db_scheme \<Rightarrow> uuid \<rightharpoonup> alert" where
  "sql_amap X s i = map_option (read_alert X) (find (\<lambda>r. alr_id r = cr_uuid_text X i) (db_alerts s))"

definition read_decision :: "crates \<Rightarrow> decision_row \<Rightarrow> decision_record" where
  "read_decision X r = projr (row_to_decision X r)"

definition sql_decs :: "crates \<Rightarrow> 'a db_scheme \<Rightarrow> decision_record list" where
  "sql_decs X s = map (read_decision X) (db_decisions s)"

text \<open>What storing does: the parts with floating-point numbers are what serde reads back.\<close>

definition stored_ai :: "crates \<Rightarrow> ai_advisory_status \<Rightarrow> ai_advisory_status" where
  "stored_ai X st = reread (cr_ai_status X) st"

definition stored_alert :: "crates \<Rightarrow> alert \<Rightarrow> alert" where
  "stored_alert X a = a\<lparr>al_triggered_rules := reread (cr_triggers X) (al_triggered_rules a),
                        al_ai_status := stored_ai X (al_ai_status a)\<rparr>"

lemma sql_alert_same:
  "db_alerts t = db_alerts s \<Longrightarrow> db_decisions t = db_decisions s \<Longrightarrow>
   sql_alert_inv X t = sql_alert_inv X s \<and> sql_amap X t = sql_amap X s \<and> sql_decs X t = sql_decs X s"
  by (simp add: sql_alert_inv_def sql_amap_def [abs_def] sql_decs_def)

lemma row_to_alert_ok: "alert_row_ok X r \<Longrightarrow> row_to_alert X r = Inr (read_alert X r)"
  by (auto simp: alert_row_ok_def read_alert_def)

lemma row_to_decision_ok: "decision_row_ok X r \<Longrightarrow> row_to_decision X r = Inr (read_decision X r)"
  by (auto simp: decision_row_ok_def read_decision_def)

lemma read_alert_id: "alert_row_ok X r \<Longrightarrow> alr_id r = cr_uuid_text X (al_id (read_alert X r))"
  by (auto simp: alert_row_ok_def read_alert_def)

lemma read_alert_status: "alert_row_ok X r \<Longrightarrow> alr_status r = alert_status_str (al_status (read_alert X r))"
  by (auto simp: alert_row_ok_def read_alert_def row_to_alert_def res_bind_Inr_iff alert_status_from_str_def
        alert_status_str_def split: if_splits)

lemma written_alert_row:
  assumes "codecs_ok X" "alert_row_of X a = Inr row"
  shows "alert_row_ok X row" "read_alert X row = stored_alert X a" "alr_id row = cr_uuid_text X (al_id a)"
proof -
  have e: "codec_exact (cr_strings X)" "codec_exact (cr_assets X)" "codec_readable (cr_triggers X)" "codec_readable (cr_ai_status X)"
    using assms(1) by (simp_all add: codecs_ok_def)
  obtain t1 where t1: "to_text (cr_strings X) (al_accounts a) = Inr t1" "of_text (cr_strings X) t1 = Inr (al_accounts a)"
    using codec_exactE [OF e(1)] by blast
  obtain t2 where t2: "to_text (cr_assets X) (al_assets a) = Inr t2" "of_text (cr_assets X) t2 = Inr (al_assets a)"
    using codec_exactE [OF e(2)] by blast
  obtain t3 where t3: "to_text (cr_triggers X) (al_triggered_rules a) = Inr t3"
    "of_text (cr_triggers X) t3 = Inr (reread (cr_triggers X) (al_triggered_rules a))"
    using codec_readableE [OF e(3)] by blast
  obtain t4 where t4: "to_text (cr_ai_status X) (al_ai_status a) = Inr t4"
    "of_text (cr_ai_status X) t4 = Inr (stored_ai X (al_ai_status a))"
    using codec_readableE [OF e(4)] unfolding stored_ai_def by blast
  have "row_to_alert X row = Inr (stored_alert X a)"
    using assms t1 t2 t3 t4
    by (auto simp: alert_row_of_def row_to_alert_def codecs_uuid codecs_time stored_alert_def)
  moreover show "alr_id row = cr_uuid_text X (al_id a)" using assms(2) by (auto simp: alert_row_of_def res_bind_Inr_iff)
  ultimately show "alert_row_ok X row" "read_alert X row = stored_alert X a"
    by (auto simp: alert_row_ok_def read_alert_def stored_alert_def)
qed

lemma written_decision_row:
  assumes "codecs_ok X"
  shows "decision_row_ok X (decision_row_of X d)" "read_decision X (decision_row_of X d) = d"
proof -
  have "row_to_decision X (decision_row_of X d) = Inr d"
    using assms by (simp add: row_to_decision_def decision_row_of_def codecs_uuid codecs_time)
  then show "decision_row_ok X (decision_row_of X d)" "read_decision X (decision_row_of X d) = d"
    by (simp_all add: decision_row_ok_def read_decision_def decision_row_of_def)
qed

text \<open>Looking up a key.\<close>

lemma find_distinct:
  "distinct (map k rows) \<Longrightarrow> r \<in> set rows \<Longrightarrow> find (\<lambda>x. k x = k r) rows = Some r"
  by (induction rows) (auto simp: image_iff)

lemma find_update_where:
  assumes "\<And>r. k (f r) = k r"
  shows "find (\<lambda>r. k r = j) (update_where (\<lambda>r. k r = i) f rows) =
    map_option (\<lambda>r. if k r = i then f r else r) (find (\<lambda>r. k r = j) rows)"
  using assms by (induction rows) (auto simp: update_where_def)

lemma find_snoc: "find P (rows @ [r]) = (case find P rows of Some x \<Rightarrow> Some x | None \<Rightarrow> if P r then Some r else None)"
  by (induction rows) auto

lemma find_ok: "list_all Q rows \<Longrightarrow> find P rows = Some r \<Longrightarrow> Q r \<and> P r"
  by (auto simp: find_Some_iff list_all_length)

lemma sql_amap_row:
  "sql_alert_inv X s \<Longrightarrow> r \<in> set (db_alerts s) \<Longrightarrow> sql_amap X s (al_id (read_alert X r)) = Some (read_alert X r)"
  using find_distinct [of alr_id "db_alerts s" r] read_alert_id [of X r]
  by (auto simp: sql_amap_def sql_alert_inv_def list_all_iff)

section \<open>Effects of the operations\<close>

lemma only_env_calls: "only_env_changed s (s\<lparr>env_calls := n\<rparr>)"
  by (simp add: only_env_changed_def)

lemma only_env_rollback: "only_env_changed s (rollback s t)"
  by (simp add: only_env_changed_def rollback_def)

lemma only_env_refl: "only_env_changed s s"
  by (simp add: only_env_changed_def)

lemma only_env_trans: "only_env_changed s t \<Longrightarrow> only_env_changed t u \<Longrightarrow> only_env_changed s u"
  unfolding only_env_changed_def by (elim ssubst) simp

lemma read_effect:
  assumes "and_then (map_err_act f (query g)) (\<lambda>x. lift_res (h x)) s = (r, t)"
  shows "only_env_changed s t" "r = Inr y \<Longrightarrow> h (g t) = Inr y"
  using assms by (auto simp: only_env_calls elim!: and_then_cases map_err_act_cases query_cases)

lemma sqlite_insert_effect:
  assumes "sqlite_insert X a s = (r, t)"
  obtains (failed) e where "r = Inl e" "only_env_changed s t"
    | (inserted) row where "r = Inr ()" "alert_row_of X a = Inr row" "alr_id row \<notin> alr_id ` set (db_alerts s)"
        "t = s\<lparr>env_calls := Suc (env_calls s), db_alerts := db_alerts s @ [row]\<rparr>"
  using assms unfolding sqlite_insert_def
  by (auto simp: only_env_calls only_env_refl insert_alert_row_def split: if_splits
      elim!: and_then_cases map_err_act_cases execute_cases)

lemma sqlite_set_ai_effect:
  assumes "sqlite_set_ai_status X i st s = (r, t)"
  obtains (failed) e where "r = Inl e" "only_env_changed s t"
    | (updated) json where "r = Inr ()" "to_text (cr_ai_status X) st = Inr json"
        "t = s\<lparr>env_calls := Suc (env_calls s), db_alerts :=
           update_where (\<lambda>r. alr_id r = cr_uuid_text X i) (\<lambda>r. r\<lparr>alr_ai_status_json := json\<rparr>) (db_alerts s)\<rparr>"
  using assms unfolding sqlite_set_ai_status_def
  by (auto simp: only_env_calls only_env_refl update_ai_status_def elim!: and_then_cases map_err_act_cases execute_cases)

lemma sql_transaction_cases:
  assumes "sql_transaction body s = (r, t)"
  obtains (failed) e where "r = Inl e" "only_env_changed s t"
    | (committed) v where "r = Inr ()" "body (s\<lparr>env_calls := Suc (env_calls s)\<rparr>) = (Inr (), v)"
        "t = v\<lparr>env_calls := Suc (env_calls v)\<rparr>"
proof -
  let ?s1 = "s\<lparr>env_calls := Suc (env_calls s)\<rparr>"
  have rb: "only_env_changed s (rollback ?s1 u)" for u
    using only_env_trans [OF only_env_calls only_env_rollback] by blast
  show thesis
    using assms failed committed rb unfolding sql_transaction_def
    by (auto simp: only_env_calls dest!: sql_call_eq split: prod.splits sum.splits elim!: and_then_cases)
qed

lemma sqlite_record_effect:
  assumes "sqlite_record_decision X d st s = (r, t)"
  obtains (failed) e where "r = Inl e" "only_env_changed s t"
    | (recorded) u where "r = Inr ()" "only_env_changed s u"
        "cr_uuid_text X (dr_alert_id d) \<in> alr_id ` set (db_alerts s)"
        "t = u\<lparr>db_decisions := db_decisions s @ [decision_row_of X d],
               db_alerts := update_where (\<lambda>r. alr_id r = cr_uuid_text X (dr_alert_id d))
                              (\<lambda>r. r\<lparr>alr_status := alert_status_str st\<rparr>) (db_alerts s)\<rparr>"
proof -
  have dr: "der_alert_id (decision_row_of X d) = cr_uuid_text X (dr_alert_id d)" by (simp add: decision_row_of_def)
  let ?body = "and_then (execute (insert_decision_row X (decision_row_of X d))) (\<lambda>_.
           execute (update_alert_status (cr_uuid_text X (dr_alert_id d)) (alert_status_str st)))"
  obtain q where "sql_transaction ?body s = (q, t)" "\<forall>u. r = Inr u \<longrightarrow> q = Inr u" "\<forall>e. r = Inl e \<longrightarrow> (\<exists>e'. q = Inl e')"
    using assms unfolding sqlite_record_decision_def by (auto elim!: map_err_act_cases)
  from this(1) show thesis
  proof (cases rule: sql_transaction_cases)
    case (failed e)
    then show thesis using that(1) \<open>\<forall>u. r = Inr u \<longrightarrow> q = Inr u\<close> by (cases r) auto
  next
    case (committed v)
    let ?s1 = "s\<lparr>env_calls := Suc (env_calls s)\<rparr>"
    from committed(2) obtain w where w: "execute (insert_decision_row X (decision_row_of X d)) ?s1 = (Inr (), w)"
      "execute (update_alert_status (cr_uuid_text X (dr_alert_id d)) (alert_status_str st)) w = (Inr (), v)"
      by (auto elim!: and_then_InrE)
    have 1: "cr_uuid_text X (dr_alert_id d) \<in> alr_id ` set (db_alerts s)"
      "w = ?s1\<lparr>env_calls := Suc (env_calls ?s1), db_decisions := db_decisions s @ [decision_row_of X d]\<rparr>"
      using w(1) by (auto simp: insert_decision_row_def dr split: if_splits elim!: execute_cases)
    have 2: "v = w\<lparr>env_calls := Suc (env_calls w), db_alerts :=
        update_where (\<lambda>r. alr_id r = cr_uuid_text X (dr_alert_id d)) (\<lambda>r. r\<lparr>alr_status := alert_status_str st\<rparr>) (db_alerts w)\<rparr>"
      using w(2) by (auto simp: update_alert_status_def elim!: execute_cases)
    let ?u = "s\<lparr>env_calls := Suc (Suc (Suc (Suc (env_calls s))))\<rparr>"
    have "t = ?u\<lparr>db_decisions := db_decisions s @ [decision_row_of X d],
               db_alerts := update_where (\<lambda>r. alr_id r = cr_uuid_text X (dr_alert_id d))
                              (\<lambda>r. r\<lparr>alr_status := alert_status_str st\<rparr>) (db_alerts s)\<rparr>"
      using committed(3) 1(2) 2 by simp
    moreover have "r = Inr ()" using committed(1) \<open>\<forall>e. r = Inl e \<longrightarrow> (\<exists>e'. q = Inl e')\<close> by (cases r) auto
    ultimately show thesis using that(2) only_env_calls 1(1) by blast
  qed
qed

section \<open>The SQLite stores keep the contracts\<close>

lemma env_alert_same:
  "only_env_changed s t \<Longrightarrow> sql_alert_inv X t = sql_alert_inv X s \<and> sql_amap X t = sql_amap X s \<and> sql_decs X t = sql_decs X s"
  using only_env_tables [of s t] sql_alert_same [of t s X] by simp

lemma env_log_same: "only_env_changed s t \<Longrightarrow> sql_audit_inv X t = sql_audit_inv X s \<and> sql_log X t = sql_log X s"
  using only_env_tables [of s t] sql_log_same [of t s X] by simp

lemma inserted_alert:
  assumes "sql_alert_inv X s" "alert_row_of X a = Inr row" "alr_id row \<notin> alr_id ` set (db_alerts s)"
    "t = s\<lparr>env_calls := n, db_alerts := db_alerts s @ [row]\<rparr>"
  shows "sql_alert_inv X t" "sql_amap X t = (sql_amap X s)(al_id a \<mapsto> stored_alert X a)" "sql_decs X t = sql_decs X s"
    "sql_amap X s (al_id a) = None"
proof -
  have c: "codecs_ok X" using assms(1) by (simp add: sql_alert_inv_def)
  note w = written_alert_row [OF c assms(2)]
  show "sql_alert_inv X t" using assms(1,3) w(1) by (simp add: sql_alert_inv_def assms(4))
  show "sql_decs X t = sql_decs X s" by (simp add: sql_decs_def assms(4))
  have none: "find (\<lambda>r. alr_id r = cr_uuid_text X (al_id a)) (db_alerts s) = None"
    using assms(3) w(3) by (auto simp: find_None_iff image_iff)
  then show "sql_amap X s (al_id a) = None" by (simp add: sql_amap_def)
  show "sql_amap X t = (sql_amap X s)(al_id a \<mapsto> stored_alert X a)"
    using none w(2,3) c
    by (auto simp: fun_eq_iff sql_amap_def assms(4) find_snoc uuid_text_inject split: option.split)
qed

text \<open>Updating one column of the row of an alert.\<close>

lemma updated_alert:
  assumes "sql_alert_inv X s" and "\<And>r. alert_row_ok X r \<Longrightarrow> row_to_alert X (f r) = Inr (g (read_alert X r))"
    and "\<And>r. alr_id (f r) = alr_id r" and "\<And>a. al_id (g a) = al_id a"
    and "db_alerts t = update_where (\<lambda>r. alr_id r = cr_uuid_text X i) f (db_alerts s)" and "db_decisions t = db_decisions s"
  shows "sql_alert_inv X t" "sql_amap X t = update_alert i g (sql_amap X s)" "sql_decs X t = sql_decs X s"
proof -
  have c: "codecs_ok X" using assms(1) by (simp add: sql_alert_inv_def)
  have ok: "alert_row_ok X (f r) \<and> read_alert X (f r) = g (read_alert X r)" if "alert_row_ok X r" for r
    using assms(2) [OF that] assms(3,4) read_alert_id [OF that] by (auto simp: alert_row_ok_def read_alert_def)
  show "sql_alert_inv X t"
    using assms(1,3) ok by (auto simp: sql_alert_inv_def list_all_iff assms(5,6) set_update_where map_update_where)
  show "sql_decs X t = sql_decs X s" by (simp add: sql_decs_def assms(6))
  show "sql_amap X t = update_alert i g (sql_amap X s)"
  proof
    fix j
    show "sql_amap X t j = update_alert i g (sql_amap X s) j"
    proof (cases "find (\<lambda>r. alr_id r = cr_uuid_text X j) (db_alerts s)")
      case None
      then show ?thesis by (cases "j = i") (simp_all add: sql_amap_def assms(5) find_update_where assms(3) update_alert_apply)
    next
      case (Some r)
      then have "alert_row_ok X r" "alr_id r = cr_uuid_text X j"
        using assms(1) find_ok [of "alert_row_ok X"] by (auto simp: sql_alert_inv_def)
      with Some ok c show ?thesis
        by (cases "j = i") (simp_all add: sql_amap_def assms(5) find_update_where assms(3) update_alert_apply uuid_text_inject)
    qed
  qed
qed

lemma row_to_alert_set_ai:
  "of_text (cr_ai_status X) j = Inr st \<Longrightarrow> row_to_alert X r = Inr a \<Longrightarrow>
   row_to_alert X (r\<lparr>alr_ai_status_json := j\<rparr>) = Inr (a\<lparr>al_ai_status := st\<rparr>)"
  by (auto simp: row_to_alert_def res_bind_Inr_iff)

lemma row_to_alert_set_status:
  "row_to_alert X r = Inr a \<Longrightarrow>
   row_to_alert X (r\<lparr>alr_status := alert_status_str st\<rparr>) = Inr (a\<lparr>al_status := st\<rparr>)"
  by (auto simp: row_to_alert_def res_bind_Inr_iff)

lemma set_select_alerts:
  assumes "r \<in> set (select_alerts f rows)"
  shows "r \<in> set rows" "\<forall>st. af_status f = Some st \<longrightarrow> alr_status r = alert_status_str st"
  using assms
  by (auto simp: select_alerts_def Let_def sql_limit_def sql_offset_def split: option.splits if_splits
      dest!: in_set_takeD in_set_dropD)

lemma read_rows_alert:
  assumes "sql_alert_inv X s" "set rows \<subseteq> set (db_alerts s)"
  shows "collect_results (row_to_alert X) rows = Inr (map (read_alert X) rows)"
  unfolding read_alert_def
  by (rule collect_projr) (use assms in \<open>fastforce simp: sql_alert_inv_def list_all_iff alert_row_ok_def\<close>)

lemma alert_status_str_inject: "alert_status_str a = alert_status_str b \<longleftrightarrow> a = b"
  by (metis alert_status_roundtrip sum.inject(2))

lemma sqlite_list_rows:
  assumes "sql_alert_inv X s" "sqlite_list X f s = (Inr as, t)"
  shows "as = map (read_alert X) (select_alerts f (db_alerts s))" "only_env_changed s t"
proof -
  note r = read_effect [OF assms(2) [unfolded sqlite_list_def]]
  have "db_alerts t = db_alerts s" using r(1) only_env_tables by blast
  then show "as = map (read_alert X) (select_alerts f (db_alerts s))"
    using r(2) [OF refl] read_rows_alert [OF assms(1), of "select_alerts f (db_alerts s)"] set_select_alerts(1) by auto
  show "only_env_changed s t" by (rule r(1))
qed

lemma sqlite_list_ok:
  assumes "sql_alert_inv X s" "sqlite_list X f s = (Inr as, t)"
  shows "a \<in> set as \<Longrightarrow> sql_amap X s (al_id a) = Some a \<and> filter_status_ok f (al_status a)"
    and "0 < af_limit f \<Longrightarrow> af_offset f = 0 \<Longrightarrow> int (length as) < af_limit f \<Longrightarrow> sql_amap X s i = Some b \<Longrightarrow>
      filter_status_ok f (al_status b) \<Longrightarrow> b \<in> set as"
proof -
  note as = sqlite_list_rows(1) [OF assms]
  show "sql_amap X s (al_id a) = Some a \<and> filter_status_ok f (al_status a)" if h: "a \<in> set as"
  proof -
    from h as obtain r where r: "r \<in> set (select_alerts f (db_alerts s))" "a = read_alert X r" by auto
    note m = set_select_alerts [OF r(1)]
    have "alert_row_ok X r" using assms(1) m(1) by (simp add: sql_alert_inv_def list_all_iff)
    then show ?thesis using sql_amap_row [OF assms(1) m(1)] m(2) r(2) read_alert_status [of X r]
      by (auto simp: filter_status_ok_def alert_status_str_inject split: option.split)
  qed
  assume h: "0 < af_limit f" "af_offset f = 0" "int (length as) < af_limit f" "sql_amap X s i = Some b"
    "filter_status_ok f (al_status b)"
  obtain r where f: "find (\<lambda>r. alr_id r = cr_uuid_text X i) (db_alerts s) = Some r" and b: "b = read_alert X r"
    using h(4) by (auto simp: sql_amap_def)
  have "r \<in> set (db_alerts s)" using f by (auto simp: find_Some_iff)
  moreover have "alert_row_ok X r" using f find_ok [of "alert_row_ok X" "db_alerts s"] assms(1) by (simp add: sql_alert_inv_def)
  ultimately have r: "r \<in> set (db_alerts s)" "alert_row_ok X r" "b = read_alert X r" using b by simp_all
  let ?m = "case af_status f of Some st \<Rightarrow> filter (\<lambda>r. alr_status r = alert_status_str st) (db_alerts s) | None \<Rightarrow> db_alerts s"
  have "r \<in> set ?m" using r h(5) read_alert_status [OF r(2)] by (auto simp: filter_status_ok_def split: option.splits)
  moreover have "select_alerts f (db_alerts s) = take (nat (af_limit f)) (sort_desc_key alr_created_at ?m)"
    using h(1,2) by (simp add: select_alerts_def Let_def sql_limit_def sql_offset_def)
  moreover have "length (select_alerts f (db_alerts s)) < nat (af_limit f)" using h(3) as by simp
  ultimately have "r \<in> set (select_alerts f (db_alerts s))" by (simp add: min_def split: if_splits)
  then show "b \<in> set as" using as r(3) by simp
qed

lemma mset_sort_filter: "mset (map f (sort_key k (filter P xs))) = mset (map f (filter P xs))"
  by (simp add: mset_map)

interpretation sqlite_alerts: alert_store "sqlite_alert_ops X" "sql_alert_inv X" "sql_amap X" "sql_decs X"
    "stored_alert X" "stored_ai X" for X
proof (unfold_locales, goal_cases)
  case (1 a)
  then show ?case by (simp add: same_review_fields_def stored_alert_def)
next
  case (2 s i a)
  then obtain r where r: "alert_row_ok X r" "alr_id r = cr_uuid_text X i" "a = read_alert X r"
    using find_ok [of "alert_row_ok X" "db_alerts s"] by (auto simp: sql_amap_def sql_alert_inv_def)
  moreover have "codecs_ok X" using 2 by (simp add: sql_alert_inv_def)
  ultimately show ?case using read_alert_id [of X r] by (simp add: uuid_text_inject)
next
  case (3 s a u t)
  then have "sqlite_insert X a s = (Inr u, t)" by simp
  then show ?case
  proof (cases rule: sqlite_insert_effect)
    case (inserted row)
    from inserted_alert [OF 3(1) inserted(2,3,4)] show ?thesis by simp
  qed simp
next
  case (4 s a e t)
  then have "sqlite_insert X a s = (Inl e, t)" by simp
  then show ?case by (cases rule: sqlite_insert_effect) (use 4(1) env_alert_same [of s t X] in simp_all)
next
  case (5 s i r t)
  have "only_env_changed s t" using 5(2) by (auto simp: sqlite_get_def intro: read_effect(1))
  then show ?case using 5(1) env_alert_same [of s t X] by simp
next
  case (6 s i found t)
  note r = read_effect [OF 6(2) [simplified, unfolded sqlite_get_def]]
  have "db_alerts t = db_alerts s" using r(1) only_env_tables by blast
  with r(2) [OF refl] show ?case
    using 6(1) find_ok [of "alert_row_ok X" "db_alerts s"] row_to_alert_ok
    by (auto simp: transpose_opt_def sql_amap_def sql_alert_inv_def split: option.splits)
next
  case (7 s f r t)
  have "only_env_changed s t" using 7(2) by (auto simp: sqlite_list_def intro: read_effect(1))
  then show ?case using 7(1) env_alert_same [of s t X] by simp
next
  case (8 s f as t a)
  then show ?case using sqlite_list_ok(1) by simp
next
  case (9 s f as t i a)
  then show ?case using sqlite_list_ok(2) by simp
next
  case (10 s i st u t)
  then have "sqlite_set_ai_status X i st s = (Inr u, t)" by simp
  then show ?case
  proof (cases rule: sqlite_set_ai_effect)
    case (updated json)
    have "codec_readable (cr_ai_status X)" using 10(1) by (simp add: sql_alert_inv_def codecs_ok_def)
    then have "of_text (cr_ai_status X) json = Inr (stored_ai X st)"
      using updated(2) by (auto simp: stored_ai_def elim: codec_readableE [where x = st])
    from row_to_alert_set_ai [OF this row_to_alert_ok] updated(3)
    show ?thesis using updated_alert [OF 10(1), of "\<lambda>r. r\<lparr>alr_ai_status_json := json\<rparr>" "\<lambda>a. a\<lparr>al_ai_status := stored_ai X st\<rparr>" t i]
      by simp
  qed simp
next
  case (11 s i st e t)
  then have "sqlite_set_ai_status X i st s = (Inl e, t)" by simp
  then show ?case by (cases rule: sqlite_set_ai_effect) (use 11(1) env_alert_same [of s t X] in simp_all)
next
  case (12 s d st u t)
  then have "sqlite_record_decision X d st s = (Inr u, t)" by simp
  then show ?case
  proof (cases rule: sqlite_record_effect)
    case (recorded v)
    let ?v = "v\<lparr>db_alerts := db_alerts t\<rparr>"
    have v: "sql_alert_inv X v" "sql_amap X v = sql_amap X s" "sql_decs X v = sql_decs X s" "db_alerts v = db_alerts s" "db_decisions v = db_decisions s"
      using 12(1) env_alert_same [OF recorded(2), of X] only_env_tables [OF recorded(2)] by simp_all
    have c: "codecs_ok X" using 12(1) by (simp add: sql_alert_inv_def)
    have at: "db_alerts t = update_where (\<lambda>r. alr_id r = cr_uuid_text X (dr_alert_id d)) (\<lambda>r. r\<lparr>alr_status := alert_status_str st\<rparr>) (db_alerts v)"
      using recorded(4) v(4) by simp
    note up = updated_alert [OF v(1), of "\<lambda>r. r\<lparr>alr_status := alert_status_str st\<rparr>" "\<lambda>a. a\<lparr>al_status := st\<rparr>" ?v "dr_alert_id d",
        OF row_to_alert_set_status [OF row_to_alert_ok]]
    have up': "sql_alert_inv X ?v" "sql_amap X ?v = update_alert (dr_alert_id d) (\<lambda>a. a\<lparr>al_status := st\<rparr>) (sql_amap X s)"
      using up at v(2) by simp_all
    have dt: "db_decisions t = db_decisions s @ [decision_row_of X d]" using recorded(4) by simp
    show ?thesis
    proof (intro conjI)
      show "sql_alert_inv X t"
        using up'(1) dt v(5) written_decision_row(1) [OF c] by (simp add: sql_alert_inv_def)
      show "sql_amap X t = update_alert (dr_alert_id d) (\<lambda>a. a\<lparr>al_status := st\<rparr>) (sql_amap X s)"
        using up'(2) by (simp add: sql_amap_def [abs_def])
      show "sql_decs X t = sql_decs X s @ [d]" using dt written_decision_row(2) [OF c] by (simp add: sql_decs_def)
    qed
  qed simp
next
  case (13 s d st e t)
  then have "sqlite_record_decision X d st s = (Inl e, t)" by simp
  then show ?case by (cases rule: sqlite_record_effect) (use 13(1) env_alert_same [of s t X] in simp_all)
next
  case (14 s i r t)
  have "only_env_changed s t" using 14(2) by (auto simp: sqlite_decision_history_def intro: read_effect(1))
  then show ?case using 14(1) env_alert_same [of s t X] by simp
next
  case (15 s i ds t)
  note r = read_effect [OF 15(2) [simplified, unfolded sqlite_decision_history_def]]
  let ?rows = "filter (\<lambda>r. der_alert_id r = cr_uuid_text X i) (db_decisions s)"
  have "db_decisions t = db_decisions s" using r(1) only_env_tables by blast
  moreover have "collect_results (row_to_decision X) (sort_key der_created_at ?rows) = Inr (map (read_decision X) (sort_key der_created_at ?rows))"
    unfolding read_decision_def
    by (rule collect_projr) (use 15(1) in \<open>fastforce simp: sql_alert_inv_def list_all_iff decision_row_ok_def\<close>)
  ultimately have "ds = map (read_decision X) (sort_key der_created_at ?rows)" using r(2) [OF refl] by simp
  then have "mset ds = mset (map (read_decision X) ?rows)" by (simp only: mset_sort_filter)
  also have "map (read_decision X) ?rows = filter (\<lambda>d. dr_alert_id d = i) (sql_decs X s)"
    using 15(1)
    by (auto simp: sql_decs_def filter_map o_def sql_alert_inv_def list_all_iff decision_row_ok_def read_decision_def
          uuid_text_inject intro!: arg_cong [where f = "map _"] filter_cong)
  finally show ?case .
qed

section \<open>The two stores on one database\<close>

definition sqlite_inv :: "crates \<Rightarrow> 'a db_scheme \<Rightarrow> bool" where
  "sqlite_inv X s \<longleftrightarrow> sql_audit_inv X s \<and> sql_alert_inv X s"

lemma sqlite_append_frame:
  assumes "sqlite_append X ev s = (r, t)"
  shows "db_alerts t = db_alerts s \<and> db_decisions t = db_decisions s"
proof -
  obtain u where "only_env_changed s u" "t = u \<or> (\<exists>rows. t = u\<lparr>db_audit := rows\<rparr>)"
    using sqlite_append_effect [OF assms] by (cases r) auto
  then show ?thesis using only_env_tables [of s u] by auto
qed

lemma select_records_env:
  "select_records X f s = (r, t) \<Longrightarrow> only_env_changed s t"
  unfolding select_records_def by (rule read_effect(1))

lemma sqlite_audit_reads_env:
  "sqlite_list_for_alert X a s = (r1, t) \<Longrightarrow> only_env_changed s t"
  "sqlite_list_for_tx X x s = (r2, t) \<Longrightarrow> only_env_changed s t"
  "sqlite_list_all X n s = (r3, t) \<Longrightarrow> only_env_changed s t"
  "sqlite_verify_chain X s = (r4, t) \<Longrightarrow> only_env_changed s t"
  by (auto simp: sqlite_list_for_alert_def sqlite_list_for_tx_def sqlite_list_all_def sqlite_verify_chain_def
      elim!: and_then_cases dest: select_records_env)

lemma sqlite_alert_reads_env:
  "sqlite_get X i s = (r1, t) \<Longrightarrow> only_env_changed s t"
  "sqlite_list X f s = (r2, t) \<Longrightarrow> only_env_changed s t"
  "sqlite_decision_history X i s = (r3, t) \<Longrightarrow> only_env_changed s t"
  by (auto simp: sqlite_get_def sqlite_list_def sqlite_decision_history_def dest: read_effect(1))

lemma sqlite_writes_audit:
  "sqlite_insert X a s = (r, t) \<Longrightarrow> db_audit t = db_audit s"
  "sqlite_set_ai_status X i st s = (r, t) \<Longrightarrow> db_audit t = db_audit s"
  "sqlite_record_decision X d st' s = (r, t) \<Longrightarrow> db_audit t = db_audit s"
  by (auto elim!: sqlite_insert_effect sqlite_set_ai_effect sqlite_record_effect dest: only_env_tables)

lemma sqlite_audit_contract: "audit_store X (sqlite_audit_ops X) (\<lambda>s :: 'a db_scheme. sqlite_inv X s) (sql_log X)"
  unfolding sqlite_inv_def
proof (rule sqlite_audit.audit_strengthen, goal_cases)
  case (1 s ev r t)
  then show ?case using sqlite_append_frame [of X ev s r t] sql_alert_same [of t s X] by simp
qed (auto dest!: sqlite_audit_reads_env env_alert_same)

lemma sqlite_alert_contract:
  "alert_store (sqlite_alert_ops X) (\<lambda>s :: 'a db_scheme. sqlite_inv X s) (sql_amap X) (sql_decs X) (stored_alert X) (stored_ai X)"
proof -
  have "alert_store (sqlite_alert_ops X) (\<lambda>s :: 'a db_scheme. sql_alert_inv X s \<and> sql_audit_inv X s)
      (sql_amap X) (sql_decs X) (stored_alert X) (stored_ai X)"
  proof (rule sqlite_alerts.alert_strengthen, goal_cases)
    case (1 s a r t)
    then show ?case using sqlite_writes_audit(1) [of X a s r t] sql_log_same [of t s X] by simp
  next
    case (2 s i r t)
    then show ?case using sqlite_alert_reads_env(1) [of X i s r t] env_log_same [of s t X] by simp
  next
    case (3 s f r t)
    then show ?case using sqlite_alert_reads_env(2) [of X f s r t] env_log_same [of s t X] by simp
  next
    case (4 s i st r t)
    then show ?case using sqlite_writes_audit(2) [of X i st s r t] sql_log_same [of t s X] by simp
  next
    case (5 s d st r t)
    then show ?case using sqlite_writes_audit(3) [of X d st s r t] sql_log_same [of t s X] by simp
  next
    case (6 s i r t)
    then show ?case using sqlite_alert_reads_env(3) [of X i s r t] env_log_same [of s t X] by simp
  qed
  then show ?thesis by (simp add: sqlite_inv_def conj_commute [of "sql_audit_inv X _"])
qed

lemma sqlite_inv_env:
  "sqlite_inv X (s\<lparr>env_ticks := n\<rparr>) = sqlite_inv X s" "sql_log X (s\<lparr>env_ticks := n\<rparr>) = sql_log X s"
  "sql_amap X (s\<lparr>env_ticks := n\<rparr>) = sql_amap X s" "sql_decs X (s\<lparr>env_ticks := n\<rparr>) = sql_decs X s"
  "sqlite_inv X (s\<lparr>env_uuids := n\<rparr>) = sqlite_inv X s" "sql_log X (s\<lparr>env_uuids := n\<rparr>) = sql_log X s"
  "sql_amap X (s\<lparr>env_uuids := n\<rparr>) = sql_amap X s" "sql_decs X (s\<lparr>env_uuids := n\<rparr>) = sql_decs X s"
  by (simp_all add: sqlite_inv_def sql_audit_inv_def sql_alert_inv_def sql_log_def sql_amap_def [abs_def] sql_decs_def)

interpretation sqlite_review: keyed_backend X "sqlite_audit_ops X" "sqlite_alert_ops X" "sqlite_inv X" "sql_log X"
    "sql_amap X" "sql_decs X" "stored_alert X" "stored_ai X" for X
proof (rule keyed_backend.intro [OF review_backend.intro [OF sqlite_audit_contract sqlite_alert_contract]], unfold_locales, goal_cases)
  case (1 s ev r t)
  then show ?case using sqlite_append_frame [of X ev s r t] sql_alert_same [of t s X] by simp
next
  case (2 s i r t)
  then show ?case using sqlite_audit_reads_env(1) [of X i s r t] env_alert_same [of s t X] by simp
next
  case (3 s a r t)
  then show ?case using sqlite_writes_audit(1) [of X a s r t] sql_log_same [of t s X] by simp
next
  case (4 s i r t)
  then show ?case using sqlite_alert_reads_env(1) [of X i s r t] env_log_same [of s t X] by simp
next
  case (5 s f r t)
  then show ?case using sqlite_alert_reads_env(2) [of X f s r t] env_log_same [of s t X] by simp
next
  case (6 s i st r t)
  then show ?case using sqlite_writes_audit(2) [of X i st s r t] sql_log_same [of t s X] by simp
next
  case (7 s d st r t)
  then show ?case using sqlite_writes_audit(3) [of X d st s r t] sql_log_same [of t s X] by simp
next
  case (8 s i r t)
  then show ?case using sqlite_alert_reads_env(3) [of X i s r t] env_log_same [of s t X] by simp
next
  case (17 s a u t)
  then have "sqlite_insert X a s = (Inr u, t)" by simp
  then show ?case
  proof (cases rule: sqlite_insert_effect)
    case (inserted row)
    have "sql_alert_inv X s" using 17(1) by (simp add: sqlite_inv_def)
    from inserted_alert(4) [OF this inserted(2,3,4)] show ?thesis .
  qed simp
qed (simp_all add: sqlite_inv_env)

end
