(* ===== verification/Repos.thy ===== *)
theory Repos
  imports SqlAlerts RulesEngine
begin

text \<open>
  The remaining repositories of the \<open>storage\<close> crate: transactions and the account history that
  the rules need (\<open>tx_repo.rs\<close>), flagged accounts, ingestion cursors and dead letters,
  investigators.
\<close>

section \<open>Transactions\<close>

definition tx_row_of :: "crates \<Rightarrow> normalized_transaction \<Rightarrow> domain_error + (string \<Rightarrow> tx_row)" where
  "tx_row_of X t =
     res_bind (map_err map_json (to_text (cr_movements X) (tx_movements t))) (\<lambda>movements.
     res_bind (map_err map_json (to_text (cr_strings X) (tx_contract_ids t))) (\<lambda>contract_ids.
       Inr (\<lambda>ingested_at.
         \<lparr>txr_tx_id = tx_id t, txr_ledger = uint (tx_ledger t), txr_created_at = cr_rfc3339 X (tx_created_at t),
          txr_source_account = tx_source_account t, txr_fee_charged = tx_fee_charged t, txr_memo = tx_memo t,
          txr_operation_count = uint (tx_operation_count t), txr_successful = tx_successful t,
          txr_movements_json = movements, txr_contract_ids_json = contract_ids, txr_ingested_at = ingested_at\<rparr>)))"

text \<open>\<open>ON CONFLICT(tx_id) DO NOTHING\<close>.\<close>

definition insert_tx_row :: "tx_row \<Rightarrow> 'a db_scheme \<Rightarrow> string + 'a db_scheme" where
  "insert_tx_row row s =
     Inr (if txr_tx_id row \<in> txr_tx_id ` set (db_transactions s) then s
          else s\<lparr>db_transactions := db_transactions s @ [row]\<rparr>)"

definition tx_save :: "crates \<Rightarrow> normalized_transaction \<Rightarrow> ('a db_scheme, domain_error, unit) action" where
  "tx_save X t =
     and_then (lift_res (tx_row_of X t)) (\<lambda>row.
     and_then utc_now (\<lambda>now.
       map_err_act map_sqlx (execute (insert_tx_row (row (cr_rfc3339 X now))))))"

text \<open>\<open>as u32\<close> on a column read as \<open>i64\<close> takes the low 32 bits.\<close>

definition row_to_tx :: "crates \<Rightarrow> tx_row \<Rightarrow> domain_error + normalized_transaction" where
  "row_to_tx X row =
     res_bind (map_err DomInternal (cr_rfc3339_parse X (txr_created_at row))) (\<lambda>created_at.
     res_bind (map_err map_json (of_text (cr_movements X) (txr_movements_json row))) (\<lambda>movements.
     res_bind (map_err map_json (of_text (cr_strings X) (txr_contract_ids_json row))) (\<lambda>contract_ids.
       Inr \<lparr>tx_id = txr_tx_id row, tx_ledger = word_of_int (txr_ledger row), tx_created_at = created_at,
            tx_source_account = txr_source_account row, tx_fee_charged = txr_fee_charged row, tx_memo = txr_memo row,
            tx_operation_count = word_of_int (txr_operation_count row), tx_successful = txr_successful row,
            tx_movements = movements, tx_contract_ids = contract_ids\<rparr>)))"

definition tx_get :: "crates \<Rightarrow> string \<Rightarrow> ('a db_scheme, domain_error, normalized_transaction option) action" where
  "tx_get X t =
     and_then (map_err_act map_sqlx (query (\<lambda>s. find (\<lambda>r. txr_tx_id r = t) (db_transactions s)))) (\<lambda>row.
     lift_res (transpose_opt (row_to_tx X) row))"

definition tx_list_recent :: "crates \<Rightarrow> int \<Rightarrow> ('a db_scheme, domain_error, normalized_transaction list) action" where
  "tx_list_recent X limit =
     and_then (map_err_act map_sqlx (query (\<lambda>s. sql_limit limit (sort_desc_key txr_created_at (db_transactions s))))) (\<lambda>rows.
     lift_res (collect_results (row_to_tx X) rows))"

text \<open>\<open>WHERE source_account = ? AND created_at >= ? AND created_at <= ?\<close>, a comparison of texts.\<close>

definition select_window :: "account_id \<Rightarrow> string \<Rightarrow> string \<Rightarrow> tx_row list \<Rightarrow> tx_row list" where
  "select_window account lo hi rows =
     filter (\<lambda>r. txr_source_account r = account \<and> lo \<le> txr_created_at r \<and> txr_created_at r \<le> hi) rows"

definition recent_of_tx :: "account_id \<Rightarrow> normalized_transaction \<Rightarrow> recent_transaction list" where
  "recent_of_tx account t =
     map (\<lambda>m. \<lparr>rc_tx_id = tx_id t, rc_created_at = tx_created_at t,
               rc_counterparty = (if mv_from m = account then mv_to m else mv_from m),
               rc_asset = mv_asset m, rc_amount = mv_amount m\<rparr>) (tx_movements t)"

definition asset_keys_of_tx :: "normalized_transaction \<Rightarrow> string set" where
  "asset_keys_of_tx t = (\<lambda>m. asset_key (mv_asset m)) ` set (tx_movements t)"

text \<open>The two loops over rows; a row that cannot be read ends the function.\<close>

fun recent_loop ::
  "crates \<Rightarrow> account_id \<Rightarrow> tx_row list \<Rightarrow> recent_transaction list \<Rightarrow> string set \<Rightarrow>
   domain_error + recent_transaction list \<times> string set" where
  "recent_loop X account [] recent known = Inr (recent, known)"
| "recent_loop X account (row # rows) recent known =
     res_bind (row_to_tx X row) (\<lambda>t.
       recent_loop X account rows (recent @ recent_of_tx account t) (known \<union> asset_keys_of_tx t))"

fun known_loop :: "crates \<Rightarrow> tx_row list \<Rightarrow> string set \<Rightarrow> domain_error + string set" where
  "known_loop X [] known = Inr known"
| "known_loop X (row # rows) known =
     res_bind (row_to_tx X row) (\<lambda>t. known_loop X rows (known \<union> asset_keys_of_tx t))"

text \<open>\<open>Duration::num_seconds\<close> truncates towards zero.\<close>

definition num_seconds :: "duration \<Rightarrow> int" where
  "num_seconds d = (if d < 0 then - (- d div 1000000000) else d div 1000000000)"

definition baseline_rate :: "nat \<Rightarrow> duration \<Rightarrow> f64" where
  "baseline_rate n window =
     f64_div (f64_of_nat n) (max (f64_div (f64_of_int (num_seconds window)) 3600) 1)"

definition build_account_history ::
  "crates \<Rightarrow> account_id \<Rightarrow> datetime \<Rightarrow> duration \<Rightarrow> duration \<Rightarrow> ('a db_scheme, domain_error, account_history) action" where
  "build_account_history X account as_of lookback baseline_window =
     (let lookback_start = cr_rfc3339 X (as_of - lookback);
          baseline_start = cr_rfc3339 X (as_of - baseline_window);
          as_of_str = cr_rfc3339 X as_of in
      and_then (map_err_act map_sqlx (query (\<lambda>s.
        sort_desc_key txr_created_at (select_window account lookback_start as_of_str (db_transactions s))))) (\<lambda>recent_rows.
      and_then (lift_res (recent_loop X account recent_rows [] {})) (\<lambda>(recent, known).
      and_then (map_err_act map_sqlx (query (\<lambda>s.
        length (select_window account baseline_start as_of_str (db_transactions s))))) (\<lambda>baseline_count.
      and_then (map_err_act map_sqlx (query (\<lambda>s.
        select_window account baseline_start as_of_str (db_transactions s)))) (\<lambda>baseline_rows.
      and_then (lift_res (known_loop X baseline_rows known)) (\<lambda>known.
        ok \<lparr>ah_account = account, ah_recent_transactions = recent,
            ah_baseline_tx_per_hour = baseline_rate baseline_count baseline_window,
            ah_baseline_observations = baseline_count, ah_known_assets = known\<rparr>))))))"

section \<open>Flagged accounts\<close>

text \<open>\<open>ON CONFLICT(account_id) DO UPDATE SET reason = excluded.reason\<close>.\<close>

definition upsert_flagged :: "flagged_row \<Rightarrow> 'a db_scheme \<Rightarrow> string + 'a db_scheme" where
  "upsert_flagged row s =
     Inr (if flr_account_id row \<in> flr_account_id ` set (db_flagged s)
          then s\<lparr>db_flagged := update_where (\<lambda>r. flr_account_id r = flr_account_id row)
                   (\<lambda>r. r\<lparr>flr_reason := flr_reason row\<rparr>) (db_flagged s)\<rparr>
          else s\<lparr>db_flagged := db_flagged s @ [row]\<rparr>)"

definition flagged_add ::
  "crates \<Rightarrow> account_id \<Rightarrow> string \<Rightarrow> string option \<Rightarrow> ('a db_scheme, domain_error, unit) action" where
  "flagged_add X account reason added_by =
     and_then utc_now (\<lambda>now.
       map_err_act map_sqlx (execute (upsert_flagged
         \<lparr>flr_account_id = account, flr_reason = reason, flr_added_by = added_by,
          flr_created_at = cr_rfc3339 X now\<rparr>)))"

definition flagged_all :: "('a db_scheme, domain_error, account_id set) action" where
  "flagged_all = map_err_act map_sqlx (query (\<lambda>s. set (map flr_account_id (db_flagged s))))"

section \<open>Cursors and dead letters\<close>

record dead_letter =
  dl_id :: string
  dl_source :: string
  dl_raw_payload :: string
  dl_error :: string
  dl_attempts :: int

definition get_cursor :: "string \<Rightarrow> ('a db_scheme, domain_error, string option) action" where
  "get_cursor source =
     map_err_act map_sqlx (query (\<lambda>s. map_option cur_cursor (find (\<lambda>r. cur_source r = source) (db_cursors s))))"

definition upsert_cursor :: "cursor_row \<Rightarrow> 'a db_scheme \<Rightarrow> string + 'a db_scheme" where
  "upsert_cursor row s =
     Inr (if cur_source row \<in> cur_source ` set (db_cursors s)
          then s\<lparr>db_cursors := update_where (\<lambda>r. cur_source r = cur_source row)
                   (\<lambda>r. r\<lparr>cur_cursor := cur_cursor row, cur_updated_at := cur_updated_at row\<rparr>) (db_cursors s)\<rparr>
          else s\<lparr>db_cursors := db_cursors s @ [row]\<rparr>)"

definition set_cursor :: "crates \<Rightarrow> string \<Rightarrow> string \<Rightarrow> ('a db_scheme, domain_error, unit) action" where
  "set_cursor X source cursor =
     and_then utc_now (\<lambda>now.
       map_err_act map_sqlx (execute (upsert_cursor
         \<lparr>cur_source = source, cur_cursor = cursor, cur_updated_at = cr_rfc3339 X now\<rparr>)))"

definition insert_dead_letter :: "crates \<Rightarrow> dead_letter_row \<Rightarrow> 'a db_scheme \<Rightarrow> string + 'a db_scheme" where
  "insert_dead_letter X row s =
     (if dlr_id row \<in> dlr_id ` set (db_dead_letters s) then Inl (cr_unique_error X ''ingestion_dead_letter.id'')
      else Inr (s\<lparr>db_dead_letters := db_dead_letters s @ [row]\<rparr>))"

definition add_dead_letter ::
  "crates \<Rightarrow> string \<Rightarrow> string \<Rightarrow> string \<Rightarrow> ('a db_scheme, domain_error, unit) action" where
  "add_dead_letter X source raw_payload error =
     and_then utc_now (\<lambda>now.
     and_then new_uuid (\<lambda>id.
       map_err_act map_sqlx (execute (insert_dead_letter X
         \<lparr>dlr_id = cr_uuid_text X id, dlr_source = source, dlr_raw_payload = raw_payload, dlr_error = error,
          dlr_attempts = 1, dlr_first_failed_at = cr_rfc3339 X now, dlr_last_failed_at = cr_rfc3339 X now\<rparr>))))"

definition dead_letter_of_row :: "dead_letter_row \<Rightarrow> dead_letter" where
  "dead_letter_of_row r =
     \<lparr>dl_id = dlr_id r, dl_source = dlr_source r, dl_raw_payload = dlr_raw_payload r, dl_error = dlr_error r,
      dl_attempts = dlr_attempts r\<rparr>"

definition list_dead_letters :: "int \<Rightarrow> ('a db_scheme, domain_error, dead_letter list) action" where
  "list_dead_letters limit =
     map_err_act map_sqlx (query (\<lambda>s.
       map dead_letter_of_row (sql_limit limit (sort_desc_key dlr_last_failed_at (db_dead_letters s)))))"

section \<open>Investigators\<close>

record investigator_with_hash =
  iw_investigator :: investigator
  iw_password_hash :: string

text \<open>The two unique columns; the check on the role holds for every role that can be written.\<close>

definition insert_investigator :: "crates \<Rightarrow> investigator_row \<Rightarrow> 'a db_scheme \<Rightarrow> string + 'a db_scheme" where
  "insert_investigator X row s =
     (if inr_id row \<in> inr_id ` set (db_investigators s) then Inl (cr_unique_error X ''investigators.id'')
      else if inr_username row \<in> inr_username ` set (db_investigators s)
      then Inl (cr_unique_error X ''investigators.username'')
      else Inr (s\<lparr>db_investigators := db_investigators s @ [row]\<rparr>))"

definition investigator_create ::
  "crates \<Rightarrow> string \<Rightarrow> string \<Rightarrow> role \<Rightarrow> ('a db_scheme, domain_error, investigator) action" where
  "investigator_create X username password_hash role =
     and_then new_uuid (\<lambda>id.
     and_then utc_now (\<lambda>now.
     and_then (map_err_act map_sqlx (execute (insert_investigator X
         \<lparr>inr_id = cr_uuid_text X id, inr_username = username, inr_password_hash = password_hash,
          inr_role = role_str role, inr_created_at = cr_rfc3339 X now\<rparr>))) (\<lambda>_.
       ok \<lparr>inv_id = cr_uuid_text X id, inv_username = username, inv_role = role\<rparr>)))"

definition row_to_investigator :: "investigator_row \<Rightarrow> domain_error + investigator_with_hash" where
  "row_to_investigator row =
     res_bind (map_err DomInternal (role_from_str (inr_role row))) (\<lambda>role.
       Inr \<lparr>iw_investigator = \<lparr>inv_id = inr_id row, inv_username = inr_username row, inv_role = role\<rparr>,
            iw_password_hash = inr_password_hash row\<rparr>)"

definition find_by_username :: "string \<Rightarrow> ('a db_scheme, domain_error, investigator_with_hash option) action" where
  "find_by_username username =
     and_then (map_err_act map_sqlx (query (\<lambda>s. find (\<lambda>r. inr_username r = username) (db_investigators s)))) (\<lambda>row.
     lift_res (transpose_opt row_to_investigator row))"

definition investigator_count :: "('a db_scheme, domain_error, int) action" where
  "investigator_count = map_err_act map_sqlx (query (\<lambda>s. int (length (db_investigators s))))"

end
