(* ===== verification/Pipeline.thy ===== *)
theory Pipeline
  imports AiAdvisor Ingestion Anchor Repos Review
begin

text \<open>
  \<open>api/state.rs\<close> and \<open>api/pipeline.rs\<close>: the shared state of the server and the path of a
  transaction from its source through rules, alert and AI advisory, with dead letters and cursor.
\<close>

section \<open>Application state\<close>

text \<open>
  The repositories are handles on the connection pool and have no data of their own: the model's
  operations on them act on the database in the state. The three \<open>dyn\<close> traits are tables of
  operations.
\<close>

record 's app_state =
  app_alerts :: "'s alert_service"
  app_audit :: "'s audit_ops"
  app_advisor :: "'s ai_advisor"
  app_anchor :: "'s decision_anchor"
  app_registry :: rule_registry
  app_rules :: rules_config
  app_scoring :: scoring_config
  app_jwt_secret :: string
  app_lookback :: duration
  app_baseline :: duration

section \<open>One transaction\<close>

definition display_err :: "('s, domain_error, 'r) action \<Rightarrow> ('s, string, 'r) action" where
  "display_err = map_err_act domain_error_text"

definition evaluation_ctx ::
  "'s app_state \<Rightarrow> normalized_transaction \<Rightarrow> account_history \<Rightarrow> account_id set \<Rightarrow> evaluation_context" where
  "evaluation_ctx st tx history flagged =
     \<lparr>ec_tx = tx, ec_source_history = history, ec_flagged_accounts = flagged, ec_config = app_rules st,
      ec_now = tx_created_at tx\<rparr>"

text \<open>The first half: save, build the history, evaluate.\<close>

definition assess_transaction ::
  "crates \<Rightarrow> 'a db_scheme app_state \<Rightarrow> normalized_transaction \<Rightarrow>
   ('a db_scheme, string, account_history \<times> evaluation_result) action" where
  "assess_transaction X st tx =
     and_then (display_err (tx_save X tx)) (\<lambda>_.
     and_then (display_err (build_account_history X (tx_source_account tx) (tx_created_at tx)
                              (app_lookback st) (app_baseline st))) (\<lambda>history.
     and_then (display_err flagged_all) (\<lambda>flagged_accounts.
       ok (history, evaluate (app_registry st) (evaluation_ctx st tx history flagged_accounts) (app_scoring st)))))"

definition advisory_request_of ::
  "crates \<Rightarrow> alert \<Rightarrow> normalized_transaction \<Rightarrow> account_history \<Rightarrow> advisory_request" where
  "advisory_request_of X a tx history =
     \<lparr>aq_alert_id = al_id a, aq_tx_id = tx_id tx, aq_source_account = tx_source_account tx,
      aq_movements = map (\<lambda>m. \<lparr>ms_asset = asset_key (mv_asset m), ms_amount = cr_dec_text X (mv_amount m),
                                ms_from = mv_from m, ms_to = mv_to m\<rparr>) (tx_movements tx),
      aq_triggered_rules = al_triggered_rules a, aq_score = al_score a, aq_severity = al_severity a,
      aq_history = \<lparr>hs_recent_transaction_count = length (ah_recent_transactions history),
                    hs_baseline_tx_per_hour = ah_baseline_tx_per_hour history,
                    hs_known_asset_count = card (ah_known_assets history)\<rparr>\<rparr>"

text \<open>Every failure in here is logged and dropped: only the state comes back.\<close>

definition request_ai_advisory ::
  "crates \<Rightarrow> 'a env_scheme app_state \<Rightarrow> alert \<Rightarrow> normalized_transaction \<Rightarrow> account_history \<Rightarrow> 'a env_scheme \<Rightarrow> 'a env_scheme" where
  "request_ai_advisory X st a tx history s =
     (let request = advisory_request_of X a tx history;
          svc = app_alerts st;
          s1 = snd (record_ai_advisory_requested svc (al_id a) (tx_id tx) (to_payload X request) s);
          (answer, s2) = app_advisor st request s1
      in case answer of
           Inr advisory \<Rightarrow> snd (record_ai_advisory svc (al_id a) (tx_id tx) advisory s2)
         | Inl e \<Rightarrow> snd (record_ai_unavailable svc (al_id a) (tx_id tx) (advisor_error_text e) s2))"

definition new_alert_of :: "normalized_transaction \<Rightarrow> evaluation_result \<Rightarrow> severity \<Rightarrow> new_alert" where
  "new_alert_of tx ev severity =
     (let (accounts, assets) = accounts_and_assets (tx_source_account tx) (tx_movements tx)
      in \<lparr>na_tx_id = tx_id tx, na_accounts = accounts, na_assets = assets,
          na_triggered_rules = er_triggers ev, na_score = er_score ev, na_severity = severity\<rparr>)"

definition process_transaction ::
  "crates \<Rightarrow> 'a db_scheme app_state \<Rightarrow> normalized_transaction \<Rightarrow> ('a db_scheme, string, uuid option) action" where
  "process_transaction X st tx =
     and_then (assess_transaction X st tx) (\<lambda>(history, evaluation).
       case er_severity evaluation of
         None \<Rightarrow> ok None
       | Some severity \<Rightarrow>
           and_then (display_err (create_alert (app_alerts st) (new_alert_of tx evaluation severity))) (\<lambda>a s.
             (Inr (Some (al_id a)), request_ai_advisory X st a tx history s)))"

section \<open>A batch\<close>

definition raw_payload :: "crates \<Rightarrow> normalized_transaction \<Rightarrow> string" where
  "raw_payload X tx = unwrap_or_default (cr_tx_json X tx)"

fun process_all ::
  "crates \<Rightarrow> 'a db_scheme app_state \<Rightarrow> string \<Rightarrow> normalized_transaction list \<Rightarrow> 'a db_scheme \<Rightarrow> 'a db_scheme" where
  "process_all X st source [] s = s"
| "process_all X st source (tx # txs) s =
     (case process_transaction X st tx s of
        (Inr _, t) \<Rightarrow> process_all X st source txs t
      | (Inl e, t) \<Rightarrow> process_all X st source txs (snd (add_dead_letter X source (raw_payload X tx) e t)))"

fun record_failures :: "crates \<Rightarrow> string \<Rightarrow> fetch_failure list \<Rightarrow> 'a db_scheme \<Rightarrow> 'a db_scheme" where
  "record_failures X source [] s = s"
| "record_failures X source (f # fs) s =
     record_failures X source fs (snd (add_dead_letter X source (ff_raw_id f) (ff_error f) s))"

definition process_batch ::
  "crates \<Rightarrow> 'a db_scheme app_state \<Rightarrow> string \<Rightarrow> fetched_batch \<Rightarrow> 'a db_scheme \<Rightarrow> 'a db_scheme" where
  "process_batch X st source batch s =
     record_failures X source (fb_failures batch) (process_all X st source (fb_transactions batch) s)"

section \<open>The ingestion loop\<close>

text \<open>
  One turn of the endless loop, from the cursor held in memory and the state; \<open>run_source\<close> for
  \<open>n\<close> turns.
\<close>

definition source_turn ::
  "crates \<Rightarrow> 'a db_scheme app_state \<Rightarrow> 'a db_scheme transaction_source \<Rightarrow> string \<Rightarrow> nat \<Rightarrow>
   string option \<times> 'a db_scheme \<Rightarrow> string option \<times> 'a db_scheme" where
  "source_turn X st src source_name poll_ms cs =
     (let (cursor, s) = cs;
          (polled, t) = src_poll src cursor s;
          (cursor, t) =
            (case polled of
               Inl _ \<Rightarrow> (cursor, t)
             | Inr batch \<Rightarrow>
                 (let t = process_batch X st source_name batch t
                  in case fb_next_cursor batch of
                       None \<Rightarrow> (cursor, t)
                     | Some c \<Rightarrow> (Some c, snd (set_cursor X source_name c t))))
      in (cursor, sleep_ms poll_ms t))"

definition start_cursor :: "string \<Rightarrow> 'a db_scheme \<Rightarrow> string option \<times> 'a db_scheme" where
  "start_cursor source_name s =
     (case get_cursor source_name s of (Inr cursor, t) \<Rightarrow> (cursor, t) | (Inl _, t) \<Rightarrow> (None, t))"

definition run_source ::
  "crates \<Rightarrow> 'a db_scheme app_state \<Rightarrow> 'a db_scheme transaction_source \<Rightarrow> string \<Rightarrow> nat \<Rightarrow> nat \<Rightarrow>
   'a db_scheme \<Rightarrow> string option \<times> 'a db_scheme" where
  "run_source X st src source_name poll_ms turns s =
     (source_turn X st src source_name poll_ms ^^ turns) (start_cursor source_name s)"

end
