(* ===== verification/Auth.thy ===== *)
theory Auth
  imports Repos
begin

text \<open>
  \<open>api/error.rs\<close>, \<open>api/auth.rs\<close> and the login handlers of \<open>api/routes/auth.rs\<close>: error
  responses, passwords and session tokens, the two extractors every handler takes its user from,
  and the role checks. Password hashing (\<open>argon2\<close>), token signing (\<open>jsonwebtoken\<close>) and the
  reading of header values (\<open>http\<close>) are the fields of \<open>auth_crates\<close>.
\<close>

section \<open>Errors\<close>

datatype api_error = ApiNotFound string | ApiBadRequest string | ApiUnauthorized string
  | ApiForbidden string | ApiInternal string

definition api_error_text :: "api_error \<Rightarrow> string" where
  "api_error_text e =
     (case e of ApiNotFound m \<Rightarrow> ''not found: '' @ m
      | ApiBadRequest m \<Rightarrow> ''bad request: '' @ m
      | ApiUnauthorized m \<Rightarrow> ''unauthorized: '' @ m
      | ApiForbidden m \<Rightarrow> ''forbidden: '' @ m
      | ApiInternal m \<Rightarrow> ''internal error: '' @ m)"

definition api_error_of_domain :: "domain_error \<Rightarrow> api_error" where
  "api_error_of_domain e =
     (case e of DomNotFound m \<Rightarrow> ApiNotFound m
      | DomInvalidInput m \<Rightarrow> ApiBadRequest m
      | DomConflict m \<Rightarrow> ApiBadRequest m
      | DomStorage m \<Rightarrow> ApiInternal m
      | DomInternal m \<Rightarrow> ApiInternal m)"

text \<open>Status code and body of an error response.\<close>

definition error_response :: "api_error \<Rightarrow> nat \<times> json" where
  "error_response e =
     (let (status, message) =
        (case e of ApiNotFound m \<Rightarrow> (404, m)
         | ApiBadRequest m \<Rightarrow> (400, m)
         | ApiUnauthorized m \<Rightarrow> (401, m)
         | ApiForbidden m \<Rightarrow> (403, m)
         | ApiInternal m \<Rightarrow> (500, ''internal error''))
      in (status, JObject [(''error'', JString message)]))"

section \<open>Passwords and tokens\<close>

record claims =
  clm_sub :: string
  clm_username :: string
  clm_role :: string
  clm_exp :: "64 word"

record auth_crates =
  ac_hash_password :: "string \<Rightarrow> string \<Rightarrow> string + string"
  ac_verify_password :: "string \<Rightarrow> string \<Rightarrow> bool option"
  ac_encode :: "claims \<Rightarrow> string \<Rightarrow> string + string"
  ac_decode :: "string \<Rightarrow> string \<Rightarrow> datetime \<Rightarrow> string + claims"
  ac_header_str :: "string \<Rightarrow> string option"

definition token_ttl_hours :: int where "token_ttl_hours = 12"
definition auth_cookie_name :: string where "auth_cookie_name = ''stellarrisk_token''"

text \<open>The first argument is the random salt.\<close>

definition hash_password :: "auth_crates \<Rightarrow> string \<Rightarrow> string \<Rightarrow> api_error + string" where
  "hash_password A salt password = map_err ApiInternal (ac_hash_password A salt password)"

text \<open>A stored hash that cannot be parsed (\<open>None\<close>) verifies no password.\<close>

definition verify_password :: "auth_crates \<Rightarrow> string \<Rightarrow> string \<Rightarrow> bool" where
  "verify_password A password hash = (case ac_verify_password A password hash of None \<Rightarrow> False | Some b \<Rightarrow> b)"

text \<open>\<open>timestamp() as usize\<close>: whole seconds, reduced modulo \<open>2 ^ 64\<close>.\<close>

definition expiry :: "datetime \<Rightarrow> 64 word" where
  "expiry now = word_of_int ((now + hours token_ttl_hours) div 1000000000)"

definition issue_token :: "auth_crates \<Rightarrow> investigator \<Rightarrow> string \<Rightarrow> ('a env_scheme, api_error, string) action" where
  "issue_token A who secret =
     and_then utc_now (\<lambda>now.
       lift_res (map_err ApiInternal (ac_encode A
         \<lparr>clm_sub = inv_id who, clm_username = inv_username who, clm_role = role_str (inv_role who),
          clm_exp = expiry now\<rparr> secret)))"

definition decode_token :: "auth_crates \<Rightarrow> string \<Rightarrow> string \<Rightarrow> ('a env_scheme, api_error, claims) action" where
  "decode_token A token secret =
     and_then utc_now (\<lambda>now.
       lift_res (map_err (\<lambda>_. ApiUnauthorized ''invalid or expired token'') (ac_decode A token secret now)))"

section \<open>Extractors\<close>

text \<open>The two headers of a request that carry credentials, when present.\<close>

record parts =
  pt_authorization :: "string option"
  pt_cookie :: "string option"

definition bearer_token :: "auth_crates \<Rightarrow> parts \<Rightarrow> string option" where
  "bearer_token A p =
     Option.bind (Option.bind (pt_authorization p) (ac_header_str A)) (strip_prefix ''Bearer '')"

fun find_map :: "('a \<Rightarrow> 'b option) \<Rightarrow> 'a list \<Rightarrow> 'b option" where
  "find_map f [] = None"
| "find_map f (x # xs) = (case f x of Some y \<Rightarrow> Some y | None \<Rightarrow> find_map f xs)"

definition cookie_token :: "string \<Rightarrow> string option" where
  "cookie_token cookie_header =
     find_map (\<lambda>c. strip_prefix (auth_cookie_name @ ''='') (trim c)) (split_char (CHR '';'') cookie_header)"

definition token_from_parts :: "auth_crates \<Rightarrow> parts \<Rightarrow> string option" where
  "token_from_parts A p =
     (case bearer_token A p of
        Some token \<Rightarrow> Some token
      | None \<Rightarrow> Option.bind (Option.bind (pt_cookie p) (ac_header_str A)) cookie_token)"

definition auth_user :: "auth_crates \<Rightarrow> string \<Rightarrow> parts \<Rightarrow> ('a env_scheme, api_error, investigator) action" where
  "auth_user A secret p =
     and_then (lift_res (ok_or (ApiUnauthorized ''missing credentials'') (token_from_parts A p))) (\<lambda>token.
     and_then (decode_token A token secret) (\<lambda>claims.
     and_then (lift_res (map_err ApiInternal (role_from_str (clm_role claims)))) (\<lambda>role.
       ok \<lparr>inv_id = clm_sub claims, inv_username = clm_username claims, inv_role = role\<rparr>)))"

definition optional_auth_user :: "auth_crates \<Rightarrow> string \<Rightarrow> parts \<Rightarrow> ('a env_scheme, 'e, investigator option) action" where
  "optional_auth_user A secret p s =
     (case auth_user A secret p s of (Inr who, s') \<Rightarrow> (Inr (Some who), s') | (Inl _, s') \<Rightarrow> (Inr None, s'))"

definition require_decision_role :: "investigator \<Rightarrow> api_error + unit" where
  "require_decision_role who =
     (if can_decide (inv_role who) then Inr ()
      else Inl (ApiForbidden ''only investigator or admin roles may record a decision''))"

definition require_admin :: "investigator \<Rightarrow> api_error + unit" where
  "require_admin who =
     (if can_administer (inv_role who) then Inr () else Inl (ApiForbidden ''admin role required''))"

section \<open>Login\<close>

record login_request =
  lg_username :: string
  lg_password :: string

record login_response =
  lr_token :: string
  lr_investigator_id :: string
  lr_username :: string
  lr_role :: string

text \<open>The part that the JSON and the form login share: the investigator and a token for it.\<close>

definition checked_login ::
  "auth_crates \<Rightarrow> string \<Rightarrow> login_request \<Rightarrow> ('a db_scheme, api_error, investigator \<times> string) action" where
  "checked_login A secret req =
     and_then (map_err_act api_error_of_domain (find_by_username (lg_username req))) (\<lambda>found.
     and_then (lift_res (ok_or (ApiUnauthorized ''invalid credentials'') found)) (\<lambda>rec.
     if \<not> verify_password A (lg_password req) (iw_password_hash rec)
     then err (ApiUnauthorized ''invalid credentials'')
     else and_then (issue_token A (iw_investigator rec) secret) (\<lambda>token.
          ok (iw_investigator rec, token))))"

definition login :: "auth_crates \<Rightarrow> string \<Rightarrow> login_request \<Rightarrow> ('a db_scheme, api_error, login_response) action" where
  "login A secret req =
     and_then (checked_login A secret req) (\<lambda>(who, token).
       ok \<lparr>lr_token = token, lr_investigator_id = inv_id who, lr_username = inv_username who,
           lr_role = role_str (inv_role who)\<rparr>)"

text \<open>The \<open>Set-Cookie\<close> header and the target of the redirect.\<close>

definition session_cookie :: "string \<Rightarrow> string" where
  "session_cookie token = auth_cookie_name @ ''='' @ token @ ''; Path=/; HttpOnly; SameSite=Lax''"

definition login_form :: "auth_crates \<Rightarrow> string \<Rightarrow> login_request \<Rightarrow> ('a db_scheme, api_error, string \<times> string) action" where
  "login_form A secret req =
     and_then (checked_login A secret req) (\<lambda>(_, token). ok (session_cookie token, ''/dashboard''))"

definition logout :: "string \<times> string" where
  "logout = (auth_cookie_name @ ''=; Path=/; HttpOnly; Max-Age=0'', ''/login'')"

end
