(* ===== verification/Routes.thy ===== *)
theory Routes
  imports Pipeline Auth
begin

text \<open>
  The JSON handlers of \<open>api/routes\<close>: \<open>alerts_api.rs\<close> and \<open>transactions.rs\<close>. A handler takes the
  request's head (\<open>parts\<close>), from which the \<open>AuthUser\<close> extractor reads the user before anything
  else happens, and its already parsed path, query and body. It answers a value, an error response,
  or panics, which ends the connection without an answer.
\<close>

datatype failure = Failed api_error | Panicked

type_synonym ('s, 'r) handler = "('s, failure, 'r) action"

text \<open>The \<open>AuthUser\<close> argument, \<open>?\<close> on an \<open>ApiError\<close>, and \<open>?\<close> on a \<open>DomainError\<close>.\<close>

definition authenticated :: "auth_crates \<Rightarrow> 'a env_scheme app_state \<Rightarrow> parts \<Rightarrow> ('a env_scheme, investigator) handler" where
  "authenticated A st p = map_err_act Failed (auth_user A (app_jwt_secret st) p)"

definition checked :: "api_error + 'r \<Rightarrow> ('s, 'r) handler" where
  "checked r = lift_res (map_err Failed r)"

definition domain_call :: "('s, domain_error, 'r) action \<Rightarrow> ('s, 'r) handler" where
  "domain_call m = map_err_act (\<lambda>e. Failed (api_error_of_domain e)) m"

definition found_or :: "string \<Rightarrow> 'r option \<Rightarrow> ('s, 'r) handler" where
  "found_or m x = checked (ok_or (ApiNotFound m) x)"

text \<open>\<open>.parse().ok()\<close>, and a query parameter as an \<open>i64\<close> with a default.\<close>

definition ok_opt :: "'e + 'r \<Rightarrow> 'r option" where
  "ok_opt r = (case r of Inl _ \<Rightarrow> None | Inr x \<Rightarrow> Some x)"

definition int_param :: "(string \<rightharpoonup> string) \<Rightarrow> string \<Rightarrow> int \<Rightarrow> int" where
  "int_param params k fallback =
     (case Option.bind (params k) (\<lambda>v. ok_opt (parse_i64 v)) of None \<Rightarrow> fallback | Some n \<Rightarrow> n)"

section \<open>Alerts\<close>

definition api_list_alerts ::
  "auth_crates \<Rightarrow> 'a env_scheme app_state \<Rightarrow> parts \<Rightarrow> (string \<rightharpoonup> string) \<Rightarrow> ('a env_scheme, alert list) handler" where
  "api_list_alerts A st p params =
     and_then (authenticated A st p) (\<lambda>_.
       let status = Option.bind (params ''status'') (\<lambda>v. ok_opt (alert_status_from_str v));
           limit = int_param params ''limit'' 50;
           offset = int_param params ''offset'' 0
       in domain_call (list_alerts (app_alerts st) \<lparr>af_status = status, af_limit = limit, af_offset = offset\<rparr>))"

definition alert_not_found :: "crates \<Rightarrow> uuid \<Rightarrow> string" where
  "alert_not_found X i = ''alert '' @ cr_uuid_text X i @ '' not found''"

definition api_get_alert ::
  "crates \<Rightarrow> auth_crates \<Rightarrow> 'a env_scheme app_state \<Rightarrow> parts \<Rightarrow> uuid \<Rightarrow> ('a env_scheme, alert) handler" where
  "api_get_alert X A st p i =
     and_then (authenticated A st p) (\<lambda>_.
     and_then (domain_call (get_alert (app_alerts st) i)) (\<lambda>found.
       found_or (alert_not_found X i) found))"

definition api_get_alert_ai ::
  "crates \<Rightarrow> auth_crates \<Rightarrow> 'a env_scheme app_state \<Rightarrow> parts \<Rightarrow> uuid \<Rightarrow> ('a env_scheme, ai_advisory_status) handler" where
  "api_get_alert_ai X A st p i =
     and_then (authenticated A st p) (\<lambda>_.
     and_then (domain_call (get_alert (app_alerts st) i)) (\<lambda>found.
     and_then (found_or (alert_not_found X i) found) (\<lambda>a.
       ok (al_ai_status a))))"

record decision_request =
  dq_decision :: string
  dq_rationale :: string

text \<open>
  The body that the JSON and the form handler share, after the user is known: role, decision and
  rationale are checked, the decision is submitted, its commitment is anchored as best effort.
\<close>

definition decide ::
  "crates \<Rightarrow> 'a env_scheme app_state \<Rightarrow> investigator \<Rightarrow> uuid \<Rightarrow> decision_request \<Rightarrow> ('a env_scheme, decision_record) handler" where
  "decide X st who i req =
     and_then (checked (require_decision_role who)) (\<lambda>_.
     and_then (checked (map_err ApiBadRequest (decision_from_str (dq_decision req)))) (\<lambda>d.
     if trim (dq_rationale req) = [] then err (Failed (ApiBadRequest ''rationale is required''))
     else
       and_then (domain_call (submit_decision X (app_alerts st) i (inv_id who) d (dq_rationale req))) (\<lambda>rec.
         case hash_decision X i (inv_id who) (decision_str d) (dr_rationale rec) (dr_created_at rec) of
           None \<Rightarrow> err Panicked
         | Some h \<Rightarrow> (\<lambda>s. (Inr rec, snd (app_anchor st i h s))))))"

definition api_submit_decision ::
  "crates \<Rightarrow> auth_crates \<Rightarrow> 'a env_scheme app_state \<Rightarrow> parts \<Rightarrow> uuid \<Rightarrow> decision_request \<Rightarrow>
   ('a env_scheme, decision_record) handler" where
  "api_submit_decision X A st p i req = and_then (authenticated A st p) (\<lambda>who. decide X st who i req)"

definition api_decision_history ::
  "auth_crates \<Rightarrow> 'a env_scheme app_state \<Rightarrow> parts \<Rightarrow> uuid \<Rightarrow> ('a env_scheme, decision_record list) handler" where
  "api_decision_history A st p i =
     and_then (authenticated A st p) (\<lambda>_. domain_call (decision_history (app_alerts st) i))"

definition api_alert_audit ::
  "auth_crates \<Rightarrow> 'a env_scheme app_state \<Rightarrow> parts \<Rightarrow> uuid \<Rightarrow> ('a env_scheme, audit_record list) handler" where
  "api_alert_audit A st p i =
     and_then (authenticated A st p) (\<lambda>_. domain_call (audit_history (app_alerts st) i))"

definition api_verify_audit_chain ::
  "auth_crates \<Rightarrow> 'a env_scheme app_state \<Rightarrow> parts \<Rightarrow> ('a env_scheme, chain_verification) handler" where
  "api_verify_audit_chain A st p =
     and_then (authenticated A st p) (\<lambda>who.
     and_then (checked (require_admin who)) (\<lambda>_.
       map_err_act (\<lambda>e. Failed (ApiInternal (audit_error_text e))) (au_verify_chain (app_audit st))))"

section \<open>Transactions\<close>

definition api_list_transactions ::
  "crates \<Rightarrow> auth_crates \<Rightarrow> 'a db_scheme app_state \<Rightarrow> parts \<Rightarrow> (string \<rightharpoonup> string) \<Rightarrow>
   ('a db_scheme, normalized_transaction list) handler" where
  "api_list_transactions X A st p params =
     and_then (authenticated A st p) (\<lambda>_. domain_call (tx_list_recent X (int_param params ''limit'' 50)))"

definition tx_not_found :: "string \<Rightarrow> string" where
  "tx_not_found i = ''transaction '' @ i @ '' not found''"

definition api_get_transaction ::
  "crates \<Rightarrow> auth_crates \<Rightarrow> 'a db_scheme app_state \<Rightarrow> parts \<Rightarrow> string \<Rightarrow> ('a db_scheme, normalized_transaction) handler" where
  "api_get_transaction X A st p i =
     and_then (authenticated A st p) (\<lambda>_.
     and_then (domain_call (tx_get X i)) (\<lambda>found.
       found_or (tx_not_found i) found))"

text \<open>The answer to an ingestion is the identifier of the alert, if one was opened.\<close>

definition api_ingest_transaction ::
  "crates \<Rightarrow> auth_crates \<Rightarrow> 'a db_scheme app_state \<Rightarrow> parts \<Rightarrow> normalized_transaction \<Rightarrow> ('a db_scheme, uuid option) handler" where
  "api_ingest_transaction X A st p tx =
     and_then (authenticated A st p) (\<lambda>who.
     and_then (checked (require_admin who)) (\<lambda>_.
       map_err_act (\<lambda>e. Failed (ApiInternal e)) (process_transaction X st tx)))"

definition api_evaluate_transaction ::
  "crates \<Rightarrow> auth_crates \<Rightarrow> 'a db_scheme app_state \<Rightarrow> parts \<Rightarrow> string \<Rightarrow> ('a db_scheme, evaluation_result) handler" where
  "api_evaluate_transaction X A st p i =
     and_then (authenticated A st p) (\<lambda>_.
     and_then (domain_call (tx_get X i)) (\<lambda>found.
     and_then (found_or (tx_not_found i) found) (\<lambda>tx.
     and_then (domain_call (build_account_history X (tx_source_account tx) (tx_created_at tx)
                              (app_lookback st) (app_baseline st))) (\<lambda>history.
     and_then (domain_call flagged_all) (\<lambda>flagged_accounts.
       ok (evaluate (app_registry st) (evaluation_ctx st tx history flagged_accounts) (app_scoring st)))))))"

end
