(* ===== verification/Html.thy ===== *)
theory Html
  imports Domain
begin

text \<open>
  \<open>api/html.rs\<close>: escaping of text for HTML, the style sheet, and the frame of every page. The
  second half shows what escaping guarantees: it is one pass over the characters, it can be undone,
  and no character that opens or closes markup is left in its result.
\<close>

definition esc :: "string \<Rightarrow> string" where
  "esc input =
     replace_char (CHR 39) ''&#39;''
      (replace_char (CHR 34) ''&quot;''
       (replace_char (CHR ''>'') ''&gt;''
        (replace_char (CHR ''<'') ''&lt;''
         (replace_char (CHR ''&'') ''&amp;'' input))))"

text \<open>The raw string starts and ends with a line break.\<close>

definition style_lines :: "string list" where
  "style_lines =
    ['':root { color-scheme: light; --bg:#f7f8fa; --card:#ffffff; --border:#e2e5ea; --text:#1a1d23; --muted:#6b7280;'',
     ''  --accent:#2563eb; --ai:#7c3aed; --human:#059669; --critical:#dc2626; --high:#ea580c; --medium:#d97706; --low:#65a30d; }'',
     ''* { box-sizing: border-box; }'',
     ''body { margin:0; padding:0; background:var(--bg); color:var(--text); font-family:-apple-system,Segoe UI,Roboto,sans-serif; }'',
     ''header.app { padding:14px 24px; background:#111827; color:#fff; display:flex; justify-content:space-between; align-items:center; }'',
     ''header.app a { color:#fff; text-decoration:none; font-weight:600; }'',
     ''main { max-width:1100px; margin:0 auto; padding:24px; }'',
     ''.card { background:var(--card); border:1px solid var(--border); border-radius:10px; padding:18px; margin-bottom:16px; }'',
     ''table { width:100%; border-collapse:collapse; }'',
     ''th, td { text-align:left; padding:10px 8px; border-bottom:1px solid var(--border); font-size:14px; }'',
     ''th { color:var(--muted); font-weight:600; text-transform:uppercase; font-size:11px; letter-spacing:.04em; }'',
     ''a.rowlink { color:var(--text); text-decoration:none; }'',
     ''a.rowlink:hover { color:var(--accent); }'',
     ''.badge { display:inline-block; padding:2px 10px; border-radius:999px; font-size:12px; font-weight:600; color:#fff; }'',
     ''.sev-critical { background:var(--critical); } .sev-high { background:var(--high); }'',
     ''.sev-medium { background:var(--medium); } .sev-low { background:var(--low); }'',
     ''.status-open { background:#6b7280; } .status-under_investigation { background:var(--accent); }'',
     ''.status-escalated { background:var(--high); } .status-dismissed { background:#9ca3af; }'',
     ''.status-confirmed_suspicious { background:var(--critical); }'',
     ''.section-title { font-size:13px; text-transform:uppercase; letter-spacing:.05em; color:var(--muted); margin:0 0 10px; }'',
     ''.ai-panel { border:2px solid var(--ai); border-radius:10px; padding:16px; margin-bottom:16px; background:#faf5ff; }'',
     ''.ai-panel .tag { background:var(--ai); color:#fff; font-size:11px; font-weight:700; padding:3px 10px; border-radius:999px; text-transform:uppercase; letter-spacing:.05em; }'',
     ''.ai-disclaimer { font-size:12px; color:#5b21b6; margin-top:10px; font-style:italic; }'',
     ''.human-panel { border:2px solid var(--human); border-radius:10px; padding:16px; background:#ecfdf5; }'',
     ''.human-panel .tag { background:var(--human); color:#fff; font-size:11px; font-weight:700; padding:3px 10px; border-radius:999px; text-transform:uppercase; letter-spacing:.05em; }'',
     ''form.decision label { display:block; margin:10px 0 4px; font-size:13px; font-weight:600; }'',
     ''form.decision select, form.decision textarea, input[type=text], input[type=password] { width:100%; padding:8px; border:1px solid var(--border); border-radius:6px; font-size:14px; }'',
     ''button { background:var(--accent); color:#fff; border:none; padding:9px 16px; border-radius:6px; font-weight:600; cursor:pointer; margin-top:12px; }'',
     ''button:hover { opacity:.9; }'',
     ''.mono { font-family:ui-monospace,SFMono-Regular,Menlo,monospace; font-size:12.5px; word-break:break-all; }'',
     ''.muted { color:var(--muted); }'',
     ''.rule { border-left:3px solid var(--high); padding:8px 12px; margin-bottom:8px; background:#fff7ed; border-radius:4px; }'',
     ''.audit-item { border-left:3px solid var(--border); padding:6px 12px; margin-bottom:6px; font-size:13px; }'',
     ''.login-box { max-width:360px; margin:80px auto; }'']"

definition newline :: string where "newline = [CHR 10]"

definition style :: string where
  "style = concat (map (\<lambda>l. newline @ l) style_lines) @ newline"

text \<open>The middle dot of the title is the byte sequence C2 B7.\<close>

definition middle_dot :: string where "middle_dot = [CHR 0xC2, CHR 0xB7]"

definition header_right :: "(string \<times> string) option \<Rightarrow> string" where
  \<open>header_right username_and_role =
     (case username_and_role of
        Some (username, role) \<Rightarrow>
          ''<span class="muted">'' @ esc username @ '' ('' @ esc role @
          '')</span> &nbsp; <a href="/logout">Log out</a>''
      | None \<Rightarrow> ''<a href="/login">Log in</a>'')\<close>

definition layout :: "string \<Rightarrow> (string \<times> string) option \<Rightarrow> string \<Rightarrow> string" where
  \<open>layout title username_and_role body =
     ''<!doctype html><html><head><meta charset="utf-8"><title>'' @ title @ '' '' @ middle_dot @
     '' StellarRisk</title><style>'' @ style @ ''</style></head><body>'' @
     ''<header class="app"><a href="/dashboard">StellarRisk</a><div>'' @ header_right username_and_role @
     ''</div></header>'' @ ''<main>'' @ body @ ''</main></body></html>''\<close>

section \<open>What escaping guarantees\<close>

text \<open>The replacement of one character, and a reader of the five entities.\<close>

definition esc_char :: "char \<Rightarrow> string" where
  "esc_char c =
     (if c = CHR ''&'' then ''&amp;'' else if c = CHR ''<'' then ''&lt;'' else if c = CHR ''>'' then ''&gt;''
      else if c = CHR 34 then ''&quot;'' else if c = CHR 39 then ''&#39;'' else [c])"

definition entities :: "(string \<times> char) list" where
  "entities = [(''amp;'', CHR ''&''), (''lt;'', CHR ''<''), (''gt;'', CHR ''>''), (''quot;'', CHR 34), (''#39;'', CHR 39)]"

definition read_entity :: "string \<Rightarrow> (char \<times> string) option" where
  "read_entity s =
     (case filter (\<lambda>(e, c). starts_with e s) entities of
        [] \<Rightarrow> None
      | (e, c) # _ \<Rightarrow> Some (c, drop (length e) s))"

lemma read_entity_shorter: "read_entity s = Some (c, t) \<Longrightarrow> length t \<le> length s"
  by (auto simp: read_entity_def split: list.splits)

function unesc :: "string \<Rightarrow> string" where
  "unesc [] = []"
| "unesc (c # s) =
     (case (if c = CHR ''&'' then read_entity s else None) of
        None \<Rightarrow> c # unesc s
      | Some (d, t) \<Rightarrow> d # unesc t)"
  by pat_completeness auto
termination
  by (relation "measure length") (auto split: if_splits dest: read_entity_shorter)

lemma esc_one_pass: "esc s = concat (map esc_char s)"
  by (induction s) (auto simp: esc_def esc_char_def)

lemma esc_Nil [simp]: "esc [] = []"
  by (simp add: esc_one_pass)

lemma unesc_esc_char [simp]: "unesc (esc_char c @ s) = c # unesc s"
  by (auto simp: esc_char_def read_entity_def entities_def starts_with_def)

lemma unesc_esc [simp]: "unesc (esc s) = s"
  unfolding esc_one_pass by (induction s) simp_all

lemma esc_inject: "esc s = esc t \<longleftrightarrow> s = t"
  by (metis unesc_esc)

text \<open>The characters that open, close or quote markup, in order.\<close>

definition markup :: "string \<Rightarrow> string" where
  "markup s = filter (\<lambda>c. c = CHR ''<'' \<or> c = CHR ''>'' \<or> c = CHR 34) s"

lemma markup_append [simp]: "markup (u @ v) = markup u @ markup v"
  by (simp add: markup_def)

lemma markup_Nil [simp]: "markup [] = []"
  by (simp add: markup_def)

lemma markup_concat: "markup (concat ss) = concat (map markup ss)"
  by (induction ss) simp_all

lemma markup_esc [simp]: "markup (esc s) = []"
  unfolding esc_one_pass by (induction s) (auto simp: esc_char_def markup_def)

lemma esc_no_quote: "CHR 39 \<notin> set (esc s)"
  unfolding esc_one_pass by (auto simp: esc_char_def split: if_splits)

lemma markup_digits: "list_all is_digit s \<Longrightarrow> markup s = []"
  by (induction s) (auto simp: markup_def is_digit_def)

lemma markup_show_nat [simp]: "markup (show_nat n) = []"
  by (rule markup_digits) (rule show_nat_digits)

lemma markup_rounded [simp]: "markup (fmt_fixed 0 x) = []"
proof -
  have "markup (CHR ''-'' # s) = markup s" for s by (simp add: markup_def)
  then show ?thesis by (simp add: fmt_fixed_def Let_def)
qed

text \<open>Many pieces of the same shape leave the same markup.\<close>

lemma markup_map:
  assumes "\<And>x. x \<in> set xs \<Longrightarrow> markup (f x) = m"
  shows "markup (concat (map f xs)) = concat (replicate (length xs) m)"
  using assms by (induction xs) simp_all

text \<open>
  C23:
  Escaping by five successive replacements is one pass over the characters that maps each of them
  on its own (an ampersand that an earlier replacement wrote is never escaped again); reading the
  entities back gives the original text; and the result has no angle bracket and no quote of either
  kind, so that it can stand in element content and in quoted attributes.
\<close>

theorem escape_faithful:
  "esc s = concat (map esc_char s) \<and> unesc (esc s) = s
   \<and> set (esc s) \<inter> {CHR ''<'', CHR ''>'', CHR 34, CHR 39} = {}"
proof -
  have "set (markup (esc s)) = {}" by (simp only: markup_esc) simp
  then show ?thesis using esc_no_quote [of s] by (auto simp: markup_def esc_one_pass [symmetric])
qed

end
