(* ===== verification/Dashboard.thy ===== *)
theory Dashboard
  imports Routes Html
begin

text \<open>
  \<open>api/routes/dashboard.rs\<close> and the login page of \<open>api/routes/auth.rs\<close>: the server-rendered
  pages. The functions that build a page are pure; the handlers below them read what they show.
\<close>

section \<open>Badges and labels\<close>

definition severity_badge :: "alert \<Rightarrow> string" where
  \<open>severity_badge a =
     ''<span class="badge sev-'' @ severity_str (al_severity a) @ ''">'' @ esc (severity_str (al_severity a)) @ ''</span>''\<close>

definition spaced :: "string \<Rightarrow> string" where
  "spaced s = replace_char (CHR ''_'') '' '' s"

definition status_badge :: "alert \<Rightarrow> string" where
  \<open>status_badge a =
     ''<span class="badge status-'' @ alert_status_str (al_status a) @ ''">'' @
     esc (spaced (alert_status_str (al_status a))) @ ''</span>''\<close>

text \<open>
  Slicing a string at a byte offset inside a character panics (\<open>None\<close>). The ellipsis is the byte
  sequence E2 80 A6.
\<close>

definition ellipsis :: string where "ellipsis = [CHR 0xE2, CHR 0x80, CHR 0xA6]"

definition short :: "string \<Rightarrow> string option" where
  "short s =
     (if length s > 16
      then if is_char_boundary s 8 \<and> is_char_boundary s (length s - 6)
           then Some (take 8 s @ ellipsis @ drop (length s - 6) s) else None
      else Some s)"

definition audit_kind_label :: "audit_event_kind \<Rightarrow> string" where
  "audit_kind_label ev =
     (case ev of AlertCreated _ _ _ _ \<Rightarrow> ''Alert created''
      | AiAdvisoryRequested _ \<Rightarrow> ''AI advisory requested''
      | AiAdvisoryReceived _ \<Rightarrow> ''AI advisory received''
      | AiAdvisoryUnavailable reason \<Rightarrow> ''AI advisory unavailable ('' @ reason @ '')''
      | InvestigatorDecision investigator_id d _ _ \<Rightarrow>
          ''Decision recorded by '' @ investigator_id @ '' '' @ em_dash @ '' '' @ decision_str d
      | IngestionFailure _ _ _ \<Rightarrow> ''Ingestion failure'')"

section \<open>Pages\<close>

definition redirect_login :: string where
  \<open>redirect_login =
     ''<html><head><meta http-equiv="refresh" content="0; url=/login"></head><body>Redirecting to login'' @
     ellipsis @ ''</body></html>''\<close>

text \<open>The lines of the sign-in form, as they stand in the source.\<close>

definition login_body :: string where
  \<open>login_body =
     ''<div class="card login-box">'' @ newline @
     ''        <h2>Investigator sign-in</h2>'' @ newline @
     ''        <form method="post" action="/login">'' @ newline @
     ''            <label>Username</label><input type="text" name="username" required>'' @ newline @
     ''            <label>Password</label><input type="password" name="password" required>'' @ newline @
     ''            <button type="submit">Sign in</button>'' @ newline @
     ''        </form>'' @ newline @
     ''    </div>''\<close>

definition login_page :: string where
  "login_page = layout ''Sign in'' None login_body"

text \<open>One row of the list; \<open>short\<close> can panic.\<close>

definition alert_row :: "crates \<Rightarrow> alert \<Rightarrow> string option" where
  \<open>alert_row X a =
     map_option (\<lambda>tx.
       ''<tr><td><a class="rowlink" href="/dashboard/alerts/'' @ cr_uuid_text X (al_id a) @ ''">'' @ esc tx @
       ''</a></td><td>'' @ severity_badge a @ ''</td><td>'' @ status_badge a @ ''</td><td>'' @
       fmt_fixed 0 (al_score a) @ ''</td><td>'' @ show_nat (length (al_triggered_rules a)) @
       ''</td><td class="muted">'' @ esc (cr_rfc3339 X (al_created_at a)) @ ''</td></tr>'')
     (short (al_tx_id a))\<close>

fun alert_rows :: "crates \<Rightarrow> alert list \<Rightarrow> string option" where
  "alert_rows X [] = Some []"
| "alert_rows X (a # rest) =
     (case alert_row X a of None \<Rightarrow> None | Some row \<Rightarrow> map_option (\<lambda>rows. row @ rows) (alert_rows X rest))"

definition who_of :: "investigator \<Rightarrow> (string \<times> string) option" where
  "who_of user = Some (inv_username user, role_str (inv_role user))"

definition list_page :: "crates \<Rightarrow> investigator \<Rightarrow> alert list \<Rightarrow> string option" where
  \<open>list_page X user listed =
     map_option (\<lambda>rows0.
       let rows = rows0 @ (if listed = [] then ''<tr><td colspan="6" class="muted">No alerts yet.</td></tr>'' else []);
           body = ''<div class="card"><p class="section-title">Active Alerts</p><table><thead><tr><th>Transaction</th><th>Severity</th><th>Status</th><th>Score</th><th>Rules Triggered</th><th>Created</th></tr></thead><tbody>'' @
                  rows @ ''</tbody></table></div>''
       in layout ''Alerts'' (who_of user) body)
     (alert_rows X listed)\<close>

definition item :: "string \<Rightarrow> string" where
  "item t = ''<li>'' @ esc t @ ''</li>''"

definition ready_panel :: "ai_advisory \<Rightarrow> string" where
  \<open>ready_panel adv =
     ''<div class="ai-panel">'' @
     ''<span class="tag">AI Advisory '' @ em_dash @ '' Recommendation Only</span>'' @
     ''<p><strong>Summary:</strong> '' @ esc (adv_summary adv) @ ''</p>'' @
     ''<p><strong>Risk assessment:</strong> '' @ esc (ra_level (adv_risk_assessment adv)) @ '' '' @ em_dash @ '' '' @
     esc (ra_rationale (adv_risk_assessment adv)) @ ''</p>'' @
     ''<p><strong>Suspicious signals:</strong></p><ul>'' @ concat (map item (adv_suspicious_signals adv)) @ ''</ul>'' @
     ''<p><strong>Relevant history:</strong> '' @ esc (adv_relevant_history adv) @ ''</p>'' @
     ''<p><strong>Recommended next steps:</strong></p><ul>'' @ concat (map item (adv_recommended_next_steps adv)) @ ''</ul>'' @
     ''<p><strong>Confidence:</strong> '' @ fmt_fixed 0 (rn32 (adv_confidence adv * 100)) @ ''%</p>'' @
     ''<p class="muted">'' @ esc (adv_explanation adv) @ ''</p>'' @
     ''<p class="ai-disclaimer">'' @ esc (adv_disclaimer adv) @ ''</p>'' @
     ''</div>''\<close>

definition ai_panel :: "crates \<Rightarrow> ai_advisory_status \<Rightarrow> string" where
  \<open>ai_panel X status =
     (case status of
        Pending \<Rightarrow>
          ''<div class="ai-panel"><span class="tag">AI Advisory</span><p class="muted">Analysis pending'' @ ellipsis @ ''</p></div>''
      | Unavailable reason when \<Rightarrow>
          ''<div class="ai-panel"><span class="tag">AI Advisory</span><p class="muted">Unavailable ('' @ esc reason @ '') '' @
          em_dash @ '' the AI service could not be reached at '' @ esc (cr_rfc3339 X when) @
          ''. Rules-engine findings above are unaffected; proceed with manual review.</p></div>''
      | Ready advisory \<Rightarrow> ready_panel advisory)\<close>

definition rule_html :: "rule_trigger \<Rightarrow> string" where
  \<open>rule_html r = ''<div class="rule"><strong>'' @ esc (rt_rule_name r) @ ''</strong><br>'' @ esc (rt_reason r) @ ''</div>''\<close>

definition tx_html :: "normalized_transaction option \<Rightarrow> string" where
  \<open>tx_html found =
     (case found of
        Some tx \<Rightarrow>
          ''<p class="mono">Source: '' @ esc (tx_source_account tx) @ ''</p><p>Ledger '' @ show_nat (unat (tx_ledger tx)) @
          '' '' @ middle_dot @ '' '' @ show_nat (unat (tx_operation_count tx)) @ '' operation(s) '' @
          middle_dot @ '' fee '' @ show_int (tx_fee_charged tx) @ '' stroops</p>''
      | None \<Rightarrow> ''<p class="muted">Transaction detail not available.</p>'')\<close>

definition decision_html :: "crates \<Rightarrow> decision_record \<Rightarrow> string" where
  \<open>decision_html X d =
     ''<div class="audit-item"><strong>'' @ esc (spaced (decision_str (dr_decision d))) @ ''</strong> by '' @
     esc (dr_investigator_id d) @ '' at '' @ esc (cr_rfc3339 X (dr_created_at d)) @ ''<br><span class="muted">'' @
     esc (dr_rationale d) @ ''</span></div>''\<close>

definition audit_html :: "crates \<Rightarrow> audit_record \<Rightarrow> string" where
  \<open>audit_html X r =
     ''<div class="audit-item mono">#'' @ show_int (ar_sequence r) @ '' '' @ esc (audit_kind_label (ar_event r)) @ '' '' @
     em_dash @ '' '' @ esc (cr_rfc3339 X (ar_created_at r)) @ ''</div>''\<close>

definition decision_form :: "crates \<Rightarrow> investigator \<Rightarrow> uuid \<Rightarrow> string" where
  \<open>decision_form X user i =
     (if can_decide (inv_role user) then
        ''<form class="decision" method="post" action="/dashboard/alerts/'' @ cr_uuid_text X i @ ''/decision">'' @
        ''<label>Final decision</label>'' @
        ''<select name="decision">'' @
        ''<option value="dismissed">Dismissed / False Positive</option>'' @
        ''<option value="under_investigation">Under Investigation</option>'' @
        ''<option value="escalated">Escalated</option>'' @
        ''<option value="confirmed_suspicious">Confirmed Suspicious</option>'' @
        ''</select>'' @
        ''<label>Rationale (required)</label>'' @
        ''<textarea name="rationale" rows="3" required></textarea>'' @
        ''<button type="submit">Record decision</button>'' @
        ''</form>''
      else ''<p class="muted">Your role is read-only; only an investigator or admin can record a decision.</p>'')\<close>

text \<open>What the page of one alert shows: the alert, its decisions, its audit records, its transaction.\<close>

record alert_view =
  av_alert :: alert
  av_decisions :: "decision_record list"
  av_trail :: "audit_record list"
  av_tx :: "normalized_transaction option"

definition history_html :: "crates \<Rightarrow> decision_record list \<Rightarrow> string" where
  \<open>history_html X ds =
     (let shown = concat (map (decision_html X) ds)
      in if shown = [] then ''<p class="muted">No decisions recorded yet.</p>'' else shown)\<close>

definition detail_body :: "crates \<Rightarrow> investigator \<Rightarrow> uuid \<Rightarrow> alert_view \<Rightarrow> string" where
  \<open>detail_body X user i v =
     ''<div class="card"><p class="section-title">Alert '' @ cr_uuid_text X (al_id (av_alert v)) @ ''</p>'' @
     severity_badge (av_alert v) @ '' '' @ status_badge (av_alert v) @
     ''<h3 style="margin-top:14px">Transaction</h3>'' @ tx_html (av_tx v) @
     ''<h3>Triggered Rules (score '' @ fmt_fixed 0 (al_score (av_alert v)) @ '')</h3>'' @
     concat (map rule_html (al_triggered_rules (av_alert v))) @ ''</div>'' @
     ai_panel X (al_ai_status (av_alert v)) @
     ''<div class="human-panel"><span class="tag">Human Decision '' @ em_dash @ '' Final Authority</span>'' @
     ''<p class="muted">Only an authorized investigator can set the final status. AI output above is advisory input to this decision, never a substitute for it.</p>'' @
     decision_form X user i @
     ''<h4 style="margin-top:18px">Decision History</h4>'' @ history_html X (av_decisions v) @
     ''</div>'' @
     ''<div class="card"><p class="section-title">Audit Trail (append-only, hash-chained)</p>'' @
     concat (map (audit_html X) (av_trail v)) @ ''</div>''\<close>

definition detail_page :: "crates \<Rightarrow> investigator \<Rightarrow> uuid \<Rightarrow> alert_view \<Rightarrow> string option" where
  "detail_page X user i v =
     map_option (\<lambda>name. layout (''Alert '' @ name) (who_of user) (detail_body X user i v))
       (short (cr_uuid_text X (al_id (av_alert v))))"

section \<open>Handlers\<close>

definition index :: string where "index = ''/dashboard''"

definition page_or_panic :: "string option \<Rightarrow> ('s, string) handler" where
  "page_or_panic p = lift_res (ok_or Panicked p)"

text \<open>A page for the signed-in user; everybody else is sent to the login page.\<close>

definition signed_in ::
  "auth_crates \<Rightarrow> 'a env_scheme app_state \<Rightarrow> parts \<Rightarrow> (investigator \<Rightarrow> ('a env_scheme, string) handler) \<Rightarrow> ('a env_scheme, string) handler" where
  "signed_in A st p k =
     and_then (optional_auth_user A (app_jwt_secret st) p) (\<lambda>user.
       case user of None \<Rightarrow> ok redirect_login | Some u \<Rightarrow> k u)"

definition alerts_list ::
  "crates \<Rightarrow> auth_crates \<Rightarrow> 'a env_scheme app_state \<Rightarrow> parts \<Rightarrow> ('a env_scheme, string) handler" where
  "alerts_list X A st p =
     signed_in A st p (\<lambda>user.
     and_then (domain_call (list_alerts (app_alerts st) \<lparr>af_status = None, af_limit = 100, af_offset = 0\<rparr>)) (\<lambda>listed.
       page_or_panic (list_page X user listed)))"

definition alert_view_of ::
  "crates \<Rightarrow> 'a db_scheme app_state \<Rightarrow> uuid \<Rightarrow> ('a db_scheme, alert_view) handler" where
  "alert_view_of X st i =
     and_then (domain_call (get_alert (app_alerts st) i)) (\<lambda>found.
     and_then (found_or (alert_not_found X i) found) (\<lambda>a.
     and_then (domain_call (decision_history (app_alerts st) i)) (\<lambda>decisions.
     and_then (domain_call (audit_history (app_alerts st) i)) (\<lambda>trail.
     and_then (domain_call (tx_get X (al_tx_id a))) (\<lambda>tx.
       ok \<lparr>av_alert = a, av_decisions = decisions, av_trail = trail, av_tx = tx\<rparr>)))))"

definition alert_detail ::
  "crates \<Rightarrow> auth_crates \<Rightarrow> 'a db_scheme app_state \<Rightarrow> parts \<Rightarrow> uuid \<Rightarrow> ('a db_scheme, string) handler" where
  "alert_detail X A st p i =
     signed_in A st p (\<lambda>user.
     and_then (alert_view_of X st i) (\<lambda>v.
       page_or_panic (detail_page X user i v)))"

text \<open>The answer is the target of the redirect.\<close>

definition submit_decision_form ::
  "crates \<Rightarrow> auth_crates \<Rightarrow> 'a env_scheme app_state \<Rightarrow> parts \<Rightarrow> uuid \<Rightarrow> decision_request \<Rightarrow> ('a env_scheme, string) handler" where
  "submit_decision_form X A st p i req =
     and_then (authenticated A st p) (\<lambda>who.
     and_then (decide X st who i req) (\<lambda>_.
       ok (''/dashboard/alerts/'' @ cr_uuid_text X i)))"

end
