(* ===== verification/Server.thy ===== *)
theory Server
  imports Dashboard
begin

text \<open>
  \<open>api/routes/mod.rs\<close>: the router. A request reaches the model after \<open>axum\<close> has matched its
  method and path and parsed path, query and body; each constructor of \<open>request\<close> is one line of
  \<open>build_router\<close>.
\<close>

datatype request =
    Health
  | Login login_request
  | ListTransactions "string \<rightharpoonup> string"
  | IngestTransaction normalized_transaction
  | GetTransaction tx_id
  | EvaluateTransaction tx_id
  | ListAlerts "string \<rightharpoonup> string"
  | GetAlert uuid
  | GetAlertAi uuid
  | SubmitDecision uuid decision_request
  | DecisionHistory uuid
  | AlertAudit uuid
  | VerifyAudit
  | Index
  | LoginPage
  | LoginForm login_request
  | Logout
  | DashboardList
  | DashboardAlert uuid
  | DashboardDecision uuid decision_request

text \<open>
  Answers: a JSON body of some type, a page, or a redirect with the cookie it sets, if any.
\<close>

datatype response =
    JsonHealth json
  | JsonLogin login_response
  | JsonTransactions "normalized_transaction list"
  | JsonIngest "uuid option"
  | JsonTransaction normalized_transaction
  | JsonEvaluation evaluation_result
  | JsonAlerts "alert list"
  | JsonAlert alert
  | JsonAiStatus ai_advisory_status
  | JsonDecision decision_record
  | JsonDecisions "decision_record list"
  | JsonAudit "audit_record list"
  | JsonVerification chain_verification
  | Page string
  | Redirect "string option" string

definition answer :: "('r \<Rightarrow> response) \<Rightarrow> ('s, 'r) handler \<Rightarrow> ('s, response) handler" where
  "answer f m = and_then m (\<lambda>x. ok (f x))"

definition health :: "json" where
  "health = JObject [(''status'', JString ''ok'')]"

fun serve ::
  "crates \<Rightarrow> auth_crates \<Rightarrow> 'a db_scheme app_state \<Rightarrow> parts \<Rightarrow> request \<Rightarrow> ('a db_scheme, response) handler" where
  "serve X A st p Health = ok (JsonHealth health)"
| "serve X A st p (Login req) = answer JsonLogin (map_err_act Failed (login A (app_jwt_secret st) req))"
| "serve X A st p (ListTransactions q) = answer JsonTransactions (api_list_transactions X A st p q)"
| "serve X A st p (IngestTransaction tx) = answer JsonIngest (api_ingest_transaction X A st p tx)"
| "serve X A st p (GetTransaction i) = answer JsonTransaction (api_get_transaction X A st p i)"
| "serve X A st p (EvaluateTransaction i) = answer JsonEvaluation (api_evaluate_transaction X A st p i)"
| "serve X A st p (ListAlerts q) = answer JsonAlerts (api_list_alerts A st p q)"
| "serve X A st p (GetAlert i) = answer JsonAlert (api_get_alert X A st p i)"
| "serve X A st p (GetAlertAi i) = answer JsonAiStatus (api_get_alert_ai X A st p i)"
| "serve X A st p (SubmitDecision i req) = answer JsonDecision (api_submit_decision X A st p i req)"
| "serve X A st p (DecisionHistory i) = answer JsonDecisions (api_decision_history A st p i)"
| "serve X A st p (AlertAudit i) = answer JsonAudit (api_alert_audit A st p i)"
| "serve X A st p VerifyAudit = answer JsonVerification (api_verify_audit_chain A st p)"
| "serve X A st p Index = ok (Redirect None index)"
| "serve X A st p LoginPage = ok (Page login_page)"
| "serve X A st p (LoginForm req) =
     answer (\<lambda>(cookie, target). Redirect (Some cookie) target) (map_err_act Failed (login_form A (app_jwt_secret st) req))"
| "serve X A st p Logout = ok (case logout of (cookie, target) \<Rightarrow> Redirect (Some cookie) target)"
| "serve X A st p DashboardList = answer Page (alerts_list X A st p)"
| "serve X A st p (DashboardAlert i) = answer Page (alert_detail X A st p i)"
| "serve X A st p (DashboardDecision i req) = answer (Redirect None) (submit_decision_form X A st p i req)"

text \<open>What the client gets for a handler that failed: a status and a body, or nothing after a panic.\<close>

definition failure_response :: "failure \<Rightarrow> (nat \<times> json) option" where
  "failure_response f = (case f of Failed e \<Rightarrow> Some (error_response e) | Panicked \<Rightarrow> None)"

text \<open>The detail of an internal error (storage messages among them) never reaches the client.\<close>

lemma internal_errors_hidden:
  "failure_response f = Some (500, body) \<Longrightarrow> body = JObject [(''error'', JString ''internal error'')]"
  by (auto simp: failure_response_def error_response_def split: failure.splits api_error.splits)

end
