(* ===== verification/Tasks.thy ===== *)
theory Tasks
  imports Prelude
begin

text \<open>
  Asynchronous functions. An \<open>async fn\<close> is a task: it is done, or it stops at an \<open>await\<close> and goes on,
  in whatever state the others have left, when it is polled. Handlers run as tasks on one state;
  between two of their awaits any other task may run. The theory has the combinators that the
  translations use, the sequential run of a task, the interleavings of a pool of tasks, and two ways
  to reason about them: \<open>keeps\<close>, every step keeps a relation, and \<open>ensures\<close>, a rely-guarantee statement
  about the result.
\<close>

section \<open>Tasks\<close>

datatype ('s, 'r) task = Done 'r | Await "'s \<Rightarrow> ('s, 'r) task \<times> 's"

text \<open>The task on its own, without interference.\<close>

primrec run_task :: "('s, 'r) task \<Rightarrow> 's \<Rightarrow> 'r \<times> 's" where
  "run_task (Done r) = (\<lambda>s. (r, s))"
| "run_task (Await f) = (\<lambda>s. case map_prod run_task id (f s) of (g, t) \<Rightarrow> g t)"

text \<open>One awaited operation; the code after an await, \<open>?\<close> and \<open>map_err\<close>.\<close>

definition call :: "('s \<Rightarrow> 'r \<times> 's) \<Rightarrow> ('s, 'r) task" where
  "call m = Await (\<lambda>s. case m s of (r, t) \<Rightarrow> (Done r, t))"

primrec bind_task :: "('s, 'r) task \<Rightarrow> ('r \<Rightarrow> ('s, 'q) task) \<Rightarrow> ('s, 'q) task" where
  "bind_task (Done r) k = k r"
| "bind_task (Await f) k = Await (\<lambda>s. map_prod (\<lambda>p. bind_task p k) id (f s))"

definition then_task :: "('s, 'e + 'a) task \<Rightarrow> ('a \<Rightarrow> ('s, 'e + 'b) task) \<Rightarrow> ('s, 'e + 'b) task" where
  "then_task p k = bind_task p (\<lambda>r. case r of Inl e \<Rightarrow> Done (Inl e) | Inr x \<Rightarrow> k x)"

definition map_result :: "('r \<Rightarrow> 'q) \<Rightarrow> ('s, 'r) task \<Rightarrow> ('s, 'q) task" where
  "map_result g p = bind_task p (\<lambda>r. Done (g r))"

definition map_err_task :: "('e \<Rightarrow> 'f) \<Rightarrow> ('s, 'e + 'a) task \<Rightarrow> ('s, 'f + 'a) task" where
  "map_err_task f p = map_result (map_err f) p"

section \<open>The sequential run\<close>

lemma run_call [simp]: "run_task (call m) = m"
  by (rule ext) (simp add: call_def split: prod.split)

lemma run_bind: "run_task (bind_task p k) s = (case run_task p s of (r, t) \<Rightarrow> run_task (k r) t)"
proof (induction p arbitrary: s)
  case (Await f)
  have "run_task (bind_task (fst (f s)) k) t = (case run_task (fst (f s)) t of (r, t) \<Rightarrow> run_task (k r) t)" for t
    by (rule Await [of "f s" "fst (f s)"]) (simp_all add: prod_set_defs)
  then show ?case by (cases "f s") simp
qed simp

lemma run_then [simp]: "run_task (then_task p k) = and_then (run_task p) (\<lambda>x. run_task (k x))"
  by (rule ext) (simp add: then_task_def run_bind and_then_def split: prod.split sum.split)

lemma run_map [simp]: "run_task (map_result g p) s = (case run_task p s of (r, t) \<Rightarrow> (g r, t))"
  by (simp add: map_result_def run_bind)

lemma run_map_err [simp]: "run_task (map_err_task f p) = map_err_act f (run_task p)"
  by (rule ext) (simp add: map_err_task_def map_err_act_def map_err_def split: prod.split sum.split)

lemma run_finished [simp]: "run_task (Done r) s = (r, s)"
  by simp

lemma run_Done: "run_task (Done r) = lift_res r"
  by (rule ext) simp

lemma ok_lift: "ok x = lift_res (Inr x)" "err e = lift_res (Inl e)"
  by (rule ext, simp)+

lemma run_task_prod: "run_task (case x of (a, b) \<Rightarrow> k a b) = (case x of (a, b) \<Rightarrow> run_task (k a b))"
  by (simp split: prod.split)

lemma run_task_option: "run_task (case x of None \<Rightarrow> p | Some y \<Rightarrow> k y) = (case x of None \<Rightarrow> run_task p | Some y \<Rightarrow> run_task (k y))"
  by (simp split: option.split)

text \<open>Rewriting a task to the function it runs.\<close>

declare run_task.simps [simp del]

lemmas run_simps = run_Done ok_lift run_task_prod run_task_option

section \<open>Pools of tasks\<close>

text \<open>
  A pool is the tasks that were spawned, in order, and the state. New tasks arrive at any time; any
  task that is not done can be polled next. A task that is never polled again is one whose handler
  was dropped.
\<close>

type_synonym ('s, 'r) pool = "('s, 'r) task list \<times> 's"

inductive moves :: "(('s, 'r) task \<Rightarrow> bool) \<Rightarrow> ('s, 'r) pool \<Rightarrow> ('s, 'r) pool \<Rightarrow> bool" for entry where
  arrive: "entry p \<Longrightarrow> moves entry (ts, s) (ts @ [p], s)"
| poll: "i < length ts \<Longrightarrow> ts ! i = Await f \<Longrightarrow> f s = (p, t) \<Longrightarrow> moves entry (ts, s) (ts[i := p], t)"

text \<open>A task that nobody interrupts is polled to its end.\<close>

lemma run_polls:
  "run_task p s = (r, t) \<Longrightarrow> (moves entry)\<^sup>*\<^sup>* (us @ p # vs, s) (us @ Done r # vs, t)"
proof (induction p arbitrary: s)
  case (Await f)
  obtain p u where f: "f s = (p, u)" by fastforce
  with Await.prems have "run_task p u = (r, t)" by (simp add: run_task.simps)
  have "(p, u) \<in> range f" using f by (metis rangeI)
  with Await.IH [of "(p, u)" p u] \<open>run_task p u = (r, t)\<close> have "(moves entry)\<^sup>*\<^sup>* (us @ p # vs, u) (us @ Done r # vs, t)" by (simp add: prod_set_defs)
  moreover have "moves entry (us @ Await f # vs, s) (us @ p # vs, u)"
    using poll [of "length us" "us @ Await f # vs" f s p u] f by simp
  ultimately show ?case by (rule converse_rtranclp_into_rtranclp [rotated])
qed simp

lemma arrive_and_run:
  assumes "entry p" "run_task p s = (r, t)"
  shows "(moves entry)\<^sup>*\<^sup>* (ts, s) (ts @ [Done r], t)"
  using run_polls [OF assms(2), of entry ts "[]"] arrive [of entry p ts s, OF assms(1)]
  by (simp add: converse_rtranclp_into_rtranclp)

section \<open>Relations that every step keeps\<close>

inductive keeps :: "('s \<Rightarrow> 's \<Rightarrow> bool) \<Rightarrow> ('s, 'r) task \<Rightarrow> bool" for R where
  keeps_Done: "keeps R (Done r)"
| keeps_Await: "(\<And>s p t. f s = (p, t) \<Longrightarrow> R s t \<and> keeps R p) \<Longrightarrow> keeps R (Await f)"

inductive_simps keeps_simps [simp]: "keeps R (Done r)" "keeps R (Await f)"

named_theorems keeps_rules \<open>how steps that keep a relation compose\<close>

declare keeps_Done [keeps_rules]

lemma keeps_call [keeps_rules]: "preserves R m \<Longrightarrow> keeps R (call m)"
  by (auto simp: call_def preserves_def split: prod.splits)

lemma keeps_bind:
  assumes "keeps R p" "\<And>r. keeps R (k r)"
  shows "keeps R (bind_task p k)"
  using assms(1)
proof induction
  case (keeps_Await f)
  then show ?case by (auto simp: map_prod_def split: prod.splits)
qed (simp add: assms(2))

lemma keeps_then [keeps_rules]: "keeps R p \<Longrightarrow> (\<And>x. keeps R (k x)) \<Longrightarrow> keeps R (then_task p k)"
  unfolding then_task_def by (rule keeps_bind) (auto split: sum.split)

lemma keeps_map [keeps_rules]: "keeps R p \<Longrightarrow> keeps R (map_result g p)" "keeps R q \<Longrightarrow> keeps R (map_err_task h q)"
  unfolding map_err_task_def map_result_def by (erule keeps_bind, simp)+

lemma keeps_mono: "keeps R p \<Longrightarrow> (\<And>s t. R s t \<Longrightarrow> R' s t) \<Longrightarrow> keeps R' p"
  by (induction rule: keeps.induct) auto

context state_preorder
begin

lemma keeps_run: "keeps R p \<Longrightarrow> run_task p s = (r, t) \<Longrightarrow> R s t"
proof (induction arbitrary: s rule: keeps.induct)
  case (keeps_Done x)
  then show ?case by (simp add: refl)
next
  case (keeps_Await f)
  obtain p u where f: "f s = (p, u)" by fastforce
  with keeps_Await.prems have "run_task p u = (r, t)" by (simp add: run_task.simps)
  with keeps_Await.IH [OF f] show ?case using trans by blast
qed

text \<open>A pool all of whose tasks keep the relation keeps it, however they are interleaved.\<close>

lemma pool_keeps:
  assumes "(moves entry)\<^sup>*\<^sup>* (ts, s) (us, t)" "list_all (keeps R) ts" "\<And>p. entry p \<Longrightarrow> keeps R p"
  shows "R s t \<and> list_all (keeps R) us"
  using assms(1)
proof (induction rule: rtranclp_induct2)
  case refl
  show ?case using assms(2) state_preorder.refl [OF state_preorder_axioms] by simp
next
  case (step us u vs v)
  from step(2) show ?case
  proof cases
    case (arrive p)
    then show ?thesis using step(3) assms(3) by simp
  next
    case (poll i f p)
    have "keeps R (Await f)" using step(3) poll(2,3) by (metis list_all_length)
    then have "R u v" "keeps R p" using poll(4) by auto
    moreover have "R s v" using \<open>R u v\<close> step(3) trans by blast
    moreover have "set (us[i := p]) \<subseteq> insert p (set us)" by (rule set_update_subset_insert)
    ultimately show ?thesis using step(3) poll(1) by (auto simp: list_all_iff)
  qed
qed

end

section \<open>What a task ensures under interference\<close>

text \<open>
  \<open>ensures R Q p s\<close>: from the state \<open>s\<close> on, as long as the others keep \<open>R\<close>, every step of \<open>p\<close> keeps \<open>R\<close> too,
  and when \<open>p\<close> is done its result satisfies \<open>Q\<close> then and ever after.
\<close>

inductive ensures :: "('s \<Rightarrow> 's \<Rightarrow> bool) \<Rightarrow> ('r \<Rightarrow> 's \<Rightarrow> bool) \<Rightarrow> ('s, 'r) task \<Rightarrow> 's \<Rightarrow> bool" for R Q where
  ensures_Done: "(\<And>t. R s t \<Longrightarrow> Q r t) \<Longrightarrow> ensures R Q (Done r) s"
| ensures_Await: "(\<And>t p u. R s t \<Longrightarrow> f t = (p, u) \<Longrightarrow> R t u \<and> ensures R Q p u) \<Longrightarrow> ensures R Q (Await f) s"

inductive_simps ensures_simps: "ensures R Q (Done r) s" "ensures R Q (Await f) s"

lemma ensures_call:
  assumes "\<And>t r u. R s t \<Longrightarrow> m t = (r, u) \<Longrightarrow> R t u \<and> (\<forall>v. R u v \<longrightarrow> Q r v)"
  shows "ensures R Q (call m) s"
  using assms by (auto simp: call_def ensures_simps split: prod.splits)

context state_preorder
begin

lemma ensures_later: "ensures R Q p s \<Longrightarrow> R s t \<Longrightarrow> ensures R Q p t"
  by (cases p) (auto simp: ensures_simps intro: trans)

lemma ensures_bind:
  "ensures R P p s \<Longrightarrow> (\<And>r t. R s t \<Longrightarrow> (\<And>u. R t u \<Longrightarrow> P r u) \<Longrightarrow> ensures R Q (k r) t) \<Longrightarrow> ensures R Q (bind_task p k) s"
proof (induction rule: ensures.induct)
  case (ensures_Done s r)
  then show ?case using trans refl by simp
next
  case (ensures_Await s f)
  have "R t u \<and> ensures R Q (bind_task p k) u" if "R s t" "f t = (p, u)" for t p u
  proof -
    have "R s u" using ensures_Await.IH [OF that] that(1) trans by blast
    with ensures_Await.IH [OF that] ensures_Await.prems show ?thesis using trans by blast
  qed
  then show ?case by (auto simp: ensures_simps map_prod_def split: prod.splits)
qed

lemma ensures_then:
  assumes "ensures R P p s"
    and "\<And>e t. P (Inl e) t \<Longrightarrow> Q (Inl e) t"
    and "\<And>x t. R s t \<Longrightarrow> (\<And>u. R t u \<Longrightarrow> P (Inr x) u) \<Longrightarrow> ensures R Q (k x) t"
  shows "ensures R Q (then_task p k) s"
  unfolding then_task_def using assms(1)
  by (rule ensures_bind) (auto split: sum.split simp: ensures_simps assms(2) intro: assms(3))

lemma ensures_map:
  "ensures R (\<lambda>r. Q (g r)) p s \<Longrightarrow> ensures R Q (map_result g p) s"
  unfolding map_result_def by (erule ensures_bind) (auto simp: ensures_simps)

text \<open>A task that keeps the relation ensures what holds of every result.\<close>

lemma ensures_keeps: "keeps R p \<Longrightarrow> ensures R (\<lambda>_ _. True) p s"
  by (induction arbitrary: s rule: keeps.induct) (auto simp: ensures_simps)

text \<open>Steps before the ones that matter.\<close>

lemma ensures_step:
  assumes "keeps R p" "\<And>e t. Q (Inl e) t" "\<And>x t. R s t \<Longrightarrow> ensures R Q (k x) t"
  shows "ensures R Q (then_task p k) s"
  by (rule ensures_then [OF ensures_keeps [OF assms(1)]]) (simp_all add: assms(2,3))

lemma ensures_mono: "ensures R Q p s \<Longrightarrow> (\<And>r t. Q r t \<Longrightarrow> Q' r t) \<Longrightarrow> ensures R Q' p s"
  by (induction rule: ensures.induct) (auto simp: ensures_simps)

text \<open>Every task of a pool that is done has the result it ensures.\<close>

lemma pool_ensures:
  assumes "(moves entry)\<^sup>*\<^sup>* (ts, s) (us, t)" "list_all (\<lambda>p. ensures R Q p s) ts"
    and "\<And>p u. entry p \<Longrightarrow> R s u \<Longrightarrow> ensures R Q p u"
  shows "R s t \<and> list_all (\<lambda>p. ensures R Q p t) us"
  using assms(1)
proof (induction rule: rtranclp_induct2)
  case refl
  show ?case using assms(2) state_preorder.refl [OF state_preorder_axioms] by simp
next
  case (step us u vs v)
  from step(2) show ?case
  proof cases
    case (arrive p)
    then show ?thesis using step(3) assms(3) by simp
  next
    case (poll i f p)
    have "ensures R Q (Await f) u" using step(3) poll(2,3) by (metis list_all_length)
    then have uv: "R u v" "ensures R Q p v" using poll(4) refl by (auto simp: ensures_simps)
    then have "R s v" using step(3) trans by blast
    moreover have "ensures R Q q v" if "q \<in> set us" for q
      using step(3) that ensures_later [OF _ uv(1)] by (auto simp: list_all_iff)
    moreover have "set (us[i := p]) \<subseteq> insert p (set us)" by (rule set_update_subset_insert)
    ultimately show ?thesis using poll(1) uv(2) by (auto simp: list_all_iff)
  qed
qed

lemma pool_result:
  "R s t \<and> list_all (\<lambda>p. ensures R Q p t) us \<Longrightarrow> Done r \<in> set us \<Longrightarrow> Q r t"
  using refl by (auto simp: list_all_iff ensures_simps)

end

section \<open>At most one step of a kind\<close>

text \<open>
  \<open>once R Q C p s\<close>: from the state \<open>s\<close> on, as long as the others keep \<open>R\<close>, every step of \<open>p\<close> keeps \<open>Q\<close>,
  except for at most one, which keeps \<open>C\<close>. What a task has learnt from the states it has seen may
  decide what that step is.
\<close>

inductive once ::
  "('s \<Rightarrow> 's \<Rightarrow> bool) \<Rightarrow> ('s \<Rightarrow> 's \<Rightarrow> bool) \<Rightarrow> ('s \<Rightarrow> 's \<Rightarrow> bool) \<Rightarrow> ('s, 'r) task \<Rightarrow> 's \<Rightarrow> bool" for R Q C where
  once_quiet: "keeps Q p \<Longrightarrow> once R Q C p s"
| once_Await: "(\<And>t p u. R s t \<Longrightarrow> f t = (p, u) \<Longrightarrow> R t u \<and> (Q t u \<and> once R Q C p u \<or> C t u \<and> keeps Q p))
    \<Longrightarrow> once R Q C (Await f) s"

lemma once_Done: "once R Q C (Done r) s"
  by (rule once_quiet) simp

context state_preorder
begin

lemma once_later:
  assumes "once R Q C p s" "R s t"
  shows "once R Q C p t"
  using assms(1)
proof (cases rule: once.cases)
  case (once_Await f)
  then show ?thesis using trans [OF assms(2)] by (auto intro!: once.once_Await)
qed (rule once_quiet)

lemma once_poll:
  assumes "once R Q C (Await f) s" "f s = (p, t)"
  shows "Q s t \<and> once R Q C p t \<or> C s t \<and> keeps Q p"
  using assms(1)
proof (cases rule: once.cases)
  case once_quiet
  then show ?thesis using assms(2) by (auto intro: once.once_quiet)
next
  case once_Await
  then show ?thesis using assms(2) refl [of s] by blast
qed

text \<open>The first step of a task that goes on.\<close>

lemma once_binds:
  assumes "\<And>t p u. R s t \<Longrightarrow> f t = (p, u) \<Longrightarrow> R t u \<and> (Q t u \<and> once R Q C (bind_task p k) u \<or> C t u \<and> keeps Q (bind_task p k))"
  shows "once R Q C (bind_task (Await f) k) s"
  unfolding bind_task.simps
proof (rule once_Await)
  fix t p u assume t: "R s t" and "map_prod (\<lambda>p. bind_task p k) id (f t) = (p, u)"
  then obtain q where "f t = (q, u)" "p = bind_task q k" by (cases "f t") simp
  with assms [OF t] show "R t u \<and> (Q t u \<and> once R Q C p u \<or> C t u \<and> keeps Q p)" by simp
qed

lemma once_bind:
  assumes "once R Q C p s" "\<And>r. keeps Q (k r)"
  shows "once R Q C (bind_task p k) s"
  using assms(1)
proof induction
  case (once_quiet p s)
  then show ?case by (intro once.once_quiet keeps_bind assms(2))
next
  case (once_Await s f)
  have later: "keeps Q p \<Longrightarrow> keeps Q (bind_task p k)" for p by (rule keeps_bind [OF _ assms(2)])
  show ?case
  proof (rule once_binds)
    fix t p u assume "R s t" "f t = (p, u)"
    from once_Await.IH [OF this] later [of p]
    show "R t u \<and> (Q t u \<and> once R Q C (bind_task p k) u \<or> C t u \<and> keeps Q (bind_task p k))" by argo
  qed
qed

lemma once_call:
  fixes m :: "'s \<Rightarrow> 'q \<times> 's"
  assumes "\<And>t r u. R s t \<Longrightarrow> m t = (r, u) \<Longrightarrow> R t u \<and> (Q t u \<and> once R Q C (k r) u \<or> C t u \<and> keeps Q (k r))"
  shows "once R Q C (bind_task (call m) k) s"
  unfolding call_def
proof (rule once_binds)
  fix t u :: 's and p :: "('s, 'q) task" assume t: "R s t" and "(case m t of (r, t) \<Rightarrow> (Done r, t)) = (p, u)"
  then obtain r where "m t = (r, u)" "p = Done r" by (cases "m t") simp
  with assms [OF t] show "R t u \<and> (Q t u \<and> once R Q C (bind_task p k) u \<or> C t u \<and> keeps Q (bind_task p k))" by simp
qed

text \<open>Steps before the one that matters.\<close>

lemma once_after:
  assumes "keeps Q p" "\<And>s t. Q s t \<Longrightarrow> R s t" "\<And>r t. R s t \<Longrightarrow> once R Q C (k r) t"
  shows "once R Q C (bind_task p k) s"
  using assms(1,3)
proof (induction arbitrary: s)
  case (keeps_Done r)
  then show ?case by (simp add: refl)
next
  case (keeps_Await f)
  show ?case
  proof (rule once_binds)
    fix t p u assume t: "R s t" "f t = (p, u)"
    note ih = keeps_Await.IH [OF t(2)]
    then have q: "Q t u" "R t u" using assms(2) by blast+
    have "R s u" by (rule trans [OF t(1) q(2)])
    then have "once R Q C (k r) v" if "R u v" for r v using that keeps_Await.prems trans by blast
    with ih q show "R t u \<and> (Q t u \<and> once R Q C (bind_task p k) u \<or> C t u \<and> keeps Q (bind_task p k))" by blast
  qed
qed

lemma once_then:
  assumes "once R Q C p s" "\<And>x. keeps Q (k x)"
  shows "once R Q C (then_task p k) s"
  unfolding then_task_def using assms by (intro once_bind) (auto split: sum.split)

lemma once_after_then:
  assumes "keeps Q p" "\<And>s t. Q s t \<Longrightarrow> R s t" "\<And>x t. R s t \<Longrightarrow> once R Q C (k x) t"
  shows "once R Q C (then_task p k) s"
  unfolding then_task_def using assms(3)
  by (intro once_after [OF assms(1,2)]) (auto split: sum.split intro: once_Done)

lemma once_map: "once R Q C p s \<Longrightarrow> once R Q C (map_result g p) s" "once R Q C q s \<Longrightarrow> once R Q C (map_err_task h q) s"
  unfolding map_err_task_def map_result_def by (erule once_bind, simp)+

end

end
