(* ===== verification/Concurrent.thy ===== *)
theory Concurrent
  imports Server Tasks
begin

text \<open>
  The asynchronous functions of the server as tasks: \<open>alerts/service.rs\<close>, \<open>api/pipeline.rs\<close> and the
  handlers, await by await. One await is one SQL statement or transaction, one append to the log
  (its mutex is held over all its statements), one call to the AI provider, the anchoring tool or the
  transaction source; these reach no table, so the awaits inside them are not told apart. Drawing an
  identifier or a time is a step of its own, although it cannot be interrupted: more interleavings
  than the code has. Every task run on its own is the sequential function of the earlier theories.
\<close>

named_theorems run_rules \<open>the sequential run of a task\<close>

section \<open>The alert service\<close>

definition log_event_task :: "'s alert_service \<Rightarrow> new_audit_event \<Rightarrow> ('s, domain_error + audit_record) task" where
  "log_event_task svc ev = map_err_task storage_err (call (au_append (svc_audit svc) ev))"

definition create_alert_task :: "'a env_scheme alert_service \<Rightarrow> new_alert \<Rightarrow> ('a env_scheme, domain_error + alert) task" where
  "create_alert_task svc na =
     then_task (call new_uuid) (\<lambda>i.
     then_task (call utc_now) (\<lambda>now.
       let alert = opened_alert i now na
       in then_task (call (ao_insert (svc_store svc) alert)) (\<lambda>_.
          then_task (log_event_task svc (alert_event (alert_created_event alert) (al_id alert) (al_tx_id alert))) (\<lambda>_.
          Done (Inr alert)))))"

definition record_ai_advisory_requested_task ::
  "'s alert_service \<Rightarrow> uuid \<Rightarrow> tx_id \<Rightarrow> json \<Rightarrow> ('s, domain_error + unit) task" where
  "record_ai_advisory_requested_task svc i t payload =
     then_task (log_event_task svc (alert_event (AiAdvisoryRequested payload) i t)) (\<lambda>_. Done (Inr ()))"

definition record_ai_advisory_task ::
  "'s alert_service \<Rightarrow> uuid \<Rightarrow> tx_id \<Rightarrow> ai_advisory \<Rightarrow> ('s, domain_error + unit) task" where
  "record_ai_advisory_task svc i t advisory =
     then_task (call (ao_set_ai_status (svc_store svc) i (Ready advisory))) (\<lambda>_.
     then_task (log_event_task svc (alert_event (AiAdvisoryReceived advisory) i t)) (\<lambda>_. Done (Inr ())))"

definition record_ai_unavailable_task ::
  "'a env_scheme alert_service \<Rightarrow> uuid \<Rightarrow> tx_id \<Rightarrow> string \<Rightarrow> ('a env_scheme, domain_error + unit) task" where
  "record_ai_unavailable_task svc i t reason =
     then_task (call utc_now) (\<lambda>now.
     then_task (call (ao_set_ai_status (svc_store svc) i (Unavailable reason now))) (\<lambda>_.
     then_task (log_event_task svc (alert_event (AiAdvisoryUnavailable reason) i t)) (\<lambda>_. Done (Inr ()))))"

definition submit_decision_task ::
  "crates \<Rightarrow> 'a env_scheme alert_service \<Rightarrow> uuid \<Rightarrow> string \<Rightarrow> decision \<Rightarrow> string \<Rightarrow>
   ('a env_scheme, domain_error + decision_record) task" where
  "submit_decision_task X svc i who d rationale =
     then_task (call (ao_get (svc_store svc) i)) (\<lambda>found.
     then_task (Done (ok_or (DomNotFound (''alert '' @ cr_uuid_text X i)) found)) (\<lambda>alert.
     then_task (call new_uuid) (\<lambda>rid.
     then_task (call utc_now) (\<lambda>now.
       let record = \<lparr>dr_id = rid, dr_alert_id = i, dr_investigator_id = who, dr_decision = d,
                     dr_rationale = rationale, dr_created_at = now\<rparr>
       in then_task (call (ao_record_decision (svc_store svc) record (status_of_decision d))) (\<lambda>_.
          then_task (log_event_task svc (alert_event (InvestigatorDecision who d rationale (al_status alert)) i (al_tx_id alert))) (\<lambda>_.
          Done (Inr record)))))))"

lemma run_service [run_rules]:
  "run_task (log_event_task svc ev) = log_event svc ev"
  "run_task (create_alert_task vc na) = create_alert vc na"
  "run_task (record_ai_advisory_requested_task svc i x payload) = record_ai_advisory_requested svc i x payload"
  "run_task (record_ai_advisory_task svc i x adv) = record_ai_advisory svc i x adv"
  "run_task (record_ai_unavailable_task vc i x reason) = record_ai_unavailable vc i x reason"
  "run_task (submit_decision_task X vc i who d why) = submit_decision X vc i who d why"
  by (simp_all add: log_event_task_def create_alert_task_def record_ai_advisory_requested_task_def
      record_ai_advisory_task_def record_ai_unavailable_task_def submit_decision_task_def run_simps Let_def
      log_event_def create_alert_def record_ai_advisory_requested_def record_ai_advisory_def record_ai_unavailable_def
      submit_decision_def)

section \<open>The pipeline\<close>

definition build_account_history_task ::
  "crates \<Rightarrow> account_id \<Rightarrow> datetime \<Rightarrow> duration \<Rightarrow> duration \<Rightarrow> ('a db_scheme, domain_error + account_history) task" where
  "build_account_history_task X account as_of lookback baseline_window =
     (let lookback_start = cr_rfc3339 X (as_of - lookback);
          baseline_start = cr_rfc3339 X (as_of - baseline_window);
          as_of_str = cr_rfc3339 X as_of in
      then_task (map_err_task map_sqlx (call (query (\<lambda>s.
        sort_desc_key txr_created_at (select_window account lookback_start as_of_str (db_transactions s)))))) (\<lambda>recent_rows.
      then_task (Done (recent_loop X account recent_rows [] {})) (\<lambda>(recent, known).
      then_task (map_err_task map_sqlx (call (query (\<lambda>s.
        length (select_window account baseline_start as_of_str (db_transactions s)))))) (\<lambda>baseline_count.
      then_task (map_err_task map_sqlx (call (query (\<lambda>s.
        select_window account baseline_start as_of_str (db_transactions s))))) (\<lambda>baseline_rows.
      then_task (Done (known_loop X baseline_rows known)) (\<lambda>known.
        Done (Inr \<lparr>ah_account = account, ah_recent_transactions = recent,
                    ah_baseline_tx_per_hour = baseline_rate baseline_count baseline_window,
                    ah_baseline_observations = baseline_count, ah_known_assets = known\<rparr>)))))))"

lemma run_history [run_rules]:
  "run_task (build_account_history_task X acct as_of lb bw) = build_account_history X acct as_of lb bw"
  by (simp add: build_account_history_task_def build_account_history_def Let_def run_simps)

definition assess_transaction_task ::
  "crates \<Rightarrow> 'a db_scheme app_state \<Rightarrow> normalized_transaction \<Rightarrow>
   ('a db_scheme, string + account_history \<times> evaluation_result) task" where
  "assess_transaction_task X st tx =
     then_task (map_err_task domain_error_text (call (tx_save X tx))) (\<lambda>_.
     then_task (map_err_task domain_error_text (build_account_history_task X (tx_source_account tx) (tx_created_at tx)
                              (app_lookback st) (app_baseline st))) (\<lambda>history.
     then_task (map_err_task domain_error_text (call flagged_all)) (\<lambda>flagged_accounts.
       Done (Inr (history, evaluate (app_registry st) (evaluation_ctx st tx history flagged_accounts) (app_scoring st))))))"

definition request_ai_advisory_task ::
  "crates \<Rightarrow> 'a env_scheme app_state \<Rightarrow> alert \<Rightarrow> normalized_transaction \<Rightarrow> account_history \<Rightarrow> ('a env_scheme, unit) task" where
  "request_ai_advisory_task X st a tx history =
     (let request = advisory_request_of X a tx history; svc = app_alerts st in
      bind_task (record_ai_advisory_requested_task svc (al_id a) (tx_id tx) (to_payload X request)) (\<lambda>_.
      bind_task (call (app_advisor st request)) (\<lambda>answer.
      map_result (\<lambda>_. ()) (case answer of
           Inr advisory \<Rightarrow> record_ai_advisory_task svc (al_id a) (tx_id tx) advisory
         | Inl e \<Rightarrow> record_ai_unavailable_task svc (al_id a) (tx_id tx) (advisor_error_text e)))))"

definition process_transaction_task ::
  "crates \<Rightarrow> 'a db_scheme app_state \<Rightarrow> normalized_transaction \<Rightarrow> ('a db_scheme, string + uuid option) task" where
  "process_transaction_task X st tx =
     then_task (assess_transaction_task X st tx) (\<lambda>(history, evaluation).
       case er_severity evaluation of
         None \<Rightarrow> Done (Inr None)
       | Some severity \<Rightarrow>
           then_task (map_err_task domain_error_text (create_alert_task (app_alerts st) (new_alert_of tx evaluation severity))) (\<lambda>a.
           bind_task (request_ai_advisory_task X st a tx history) (\<lambda>_.
             Done (Inr (Some (al_id a))))))"

fun process_all_task ::
  "crates \<Rightarrow> 'a db_scheme app_state \<Rightarrow> string \<Rightarrow> normalized_transaction list \<Rightarrow> ('a db_scheme, unit) task" where
  "process_all_task X st source [] = Done ()"
| "process_all_task X st source (tx # txs) =
     bind_task (process_transaction_task X st tx) (\<lambda>r.
     bind_task (case r of Inr _ \<Rightarrow> Done ()
                | Inl e \<Rightarrow> map_result (\<lambda>_. ()) (call (add_dead_letter X source (raw_payload X tx) e))) (\<lambda>_.
     process_all_task X st source txs))"

fun record_failures_task :: "crates \<Rightarrow> string \<Rightarrow> fetch_failure list \<Rightarrow> ('a db_scheme, unit) task" where
  "record_failures_task X source [] = Done ()"
| "record_failures_task X source (f # fs) =
     bind_task (call (add_dead_letter X source (ff_raw_id f) (ff_error f))) (\<lambda>_.
     record_failures_task X source fs)"

definition process_batch_task ::
  "crates \<Rightarrow> 'a db_scheme app_state \<Rightarrow> string \<Rightarrow> fetched_batch \<Rightarrow> ('a db_scheme, unit) task" where
  "process_batch_task X st source batch =
     bind_task (process_all_task X st source (fb_transactions batch)) (\<lambda>_.
     record_failures_task X source (fb_failures batch))"

text \<open>One turn of the ingestion loop; the result is the cursor held in memory.\<close>

definition source_turn_task ::
  "crates \<Rightarrow> 'a db_scheme app_state \<Rightarrow> 'a db_scheme transaction_source \<Rightarrow> string \<Rightarrow> nat \<Rightarrow> string option \<Rightarrow>
   ('a db_scheme, string option) task" where
  "source_turn_task X st src source_name poll_ms cursor =
     bind_task (call (src_poll src cursor)) (\<lambda>polled.
     bind_task (case polled of
         Inl _ \<Rightarrow> Done cursor
       | Inr batch \<Rightarrow>
           bind_task (process_batch_task X st source_name batch) (\<lambda>_.
             case fb_next_cursor batch of
               None \<Rightarrow> Done cursor
             | Some c \<Rightarrow> map_result (\<lambda>_. Some c) (call (set_cursor X source_name c)))) (\<lambda>cursor.
     call (\<lambda>s. (cursor, sleep_ms poll_ms s))))"

fun source_loop_task ::
  "crates \<Rightarrow> 'a db_scheme app_state \<Rightarrow> 'a db_scheme transaction_source \<Rightarrow> string \<Rightarrow> nat \<Rightarrow> nat \<Rightarrow> string option \<Rightarrow>
   ('a db_scheme, string option) task" where
  "source_loop_task X st src source_name poll_ms 0 cursor = Done cursor"
| "source_loop_task X st src source_name poll_ms (Suc turns) cursor =
     bind_task (source_turn_task X st src source_name poll_ms cursor) (source_loop_task X st src source_name poll_ms turns)"

definition run_source_task ::
  "crates \<Rightarrow> 'a db_scheme app_state \<Rightarrow> 'a db_scheme transaction_source \<Rightarrow> string \<Rightarrow> nat \<Rightarrow> nat \<Rightarrow> ('a db_scheme, string option) task" where
  "run_source_task X st src source_name poll_ms turns =
     bind_task (call (get_cursor source_name)) (\<lambda>r.
     source_loop_task X st src source_name poll_ms turns (case r of Inr cursor \<Rightarrow> cursor | Inl _ \<Rightarrow> None))"

lemma run_assess [run_rules]: "run_task (assess_transaction_task X st tx) = assess_transaction X st tx"
  by (simp add: assess_transaction_task_def assess_transaction_def display_err_def run_rules run_simps)

lemma run_request_ai: "run_task (request_ai_advisory_task X st a tx h) s = ((), request_ai_advisory X st a tx h s)"
  by (simp add: request_ai_advisory_task_def request_ai_advisory_def Let_def run_bind run_rules
      split: prod.split sum.split)

lemma run_advised:
  "run_task (bind_task (request_ai_advisory_task X st a tx h) (\<lambda>_. Done (Inr v))) = (\<lambda>s. (Inr v, request_ai_advisory X st a tx h s))"
  by (rule ext) (simp add: run_bind run_request_ai)

lemma run_process [run_rules]: "run_task (process_transaction_task X st tx) = process_transaction X st tx"
  by (simp add: process_transaction_task_def process_transaction_def display_err_def run_rules run_simps run_advised
      cong: option.case_cong)

lemma run_batch:
  "run_task (process_all_task X st source txs) s = ((), process_all X st source txs s)"
  "run_task (record_failures_task X source fs) s = ((), record_failures X source fs s)"
  "run_task (process_batch_task X st source b) s = ((), process_batch X st source b s)"
proof -
  show a: "run_task (process_all_task X st source txs) s = ((), process_all X st source txs s)" for txs s
    by (induction txs arbitrary: s) (simp_all add: run_bind run_rules split: prod.split sum.split)
  show f: "run_task (record_failures_task X source fs) s = ((), record_failures X source fs s)" for fs s
    by (induction fs arbitrary: s) (simp_all add: run_bind split: prod.split)
  show "run_task (process_batch_task X st source b) s = ((), process_batch X st source b s)"
    by (simp add: process_batch_task_def process_batch_def run_bind a f)
qed

lemma run_turn: "run_task (source_turn_task X st src name ms c) s = source_turn X st src name ms (c, s)"
  by (simp add: source_turn_task_def source_turn_def Let_def run_bind run_batch split: prod.split sum.split option.split)

lemma run_loop: "run_task (source_loop_task X st src name ms n c) s = (source_turn X st src name ms ^^ n) (c, s)"
proof (induction n arbitrary: c s)
  case (Suc n)
  show ?case by (simp add: run_bind run_turn Suc.IH funpow_swap1 split: prod.split)
qed simp

lemma run_ingestion: "run_task (run_source_task X st src name ms n) s = run_source X st src name ms n s"
  by (simp add: run_source_task_def run_source_def start_cursor_def run_bind run_loop split: prod.split sum.split)

section \<open>Handlers\<close>

text \<open>The wrappers of \<open>Routes\<close> on tasks. Authentication reads the clock and no table.\<close>

definition domain_task :: "('s, domain_error + 'r) task \<Rightarrow> ('s, failure + 'r) task" where
  "domain_task p = map_err_task (\<lambda>e. Failed (api_error_of_domain e)) p"

definition checked_task :: "api_error + 'r \<Rightarrow> ('s, failure + 'r) task" where
  "checked_task r = Done (map_err Failed r)"

definition found_or_task :: "string \<Rightarrow> 'r option \<Rightarrow> ('s, failure + 'r) task" where
  "found_or_task m x = checked_task (ok_or (ApiNotFound m) x)"

lemma run_wrappers [run_rules]:
  "run_task (domain_task p) = domain_call (run_task p)"
  "run_task (checked_task r) = checked r"
  "run_task (found_or_task m x) = found_or m x"
  by (simp_all add: domain_task_def domain_call_def checked_task_def checked_def found_or_task_def found_or_def run_simps)

definition decide_task ::
  "crates \<Rightarrow> 'a env_scheme app_state \<Rightarrow> investigator \<Rightarrow> uuid \<Rightarrow> decision_request \<Rightarrow>
   ('a env_scheme, failure + decision_record) task" where
  "decide_task X st who i req =
     then_task (checked_task (require_decision_role who)) (\<lambda>_.
     then_task (checked_task (map_err ApiBadRequest (decision_from_str (dq_decision req)))) (\<lambda>d.
     if trim (dq_rationale req) = [] then Done (Inl (Failed (ApiBadRequest ''rationale is required'')))
     else
       then_task (domain_task (submit_decision_task X (app_alerts st) i (inv_id who) d (dq_rationale req))) (\<lambda>rec.
         case hash_decision X i (inv_id who) (decision_str d) (dr_rationale rec) (dr_created_at rec) of
           None \<Rightarrow> Done (Inl Panicked)
         | Some h \<Rightarrow> map_result (\<lambda>_. Inr rec) (call (app_anchor st i h)))))"

definition api_submit_decision_task ::
  "crates \<Rightarrow> auth_crates \<Rightarrow> 'a env_scheme app_state \<Rightarrow> parts \<Rightarrow> uuid \<Rightarrow> decision_request \<Rightarrow>
   ('a env_scheme, failure + decision_record) task" where
  "api_submit_decision_task X A st p i req =
     then_task (call (authenticated A st p)) (\<lambda>who. decide_task X st who i req)"

definition submit_decision_form_task ::
  "crates \<Rightarrow> auth_crates \<Rightarrow> 'a env_scheme app_state \<Rightarrow> parts \<Rightarrow> uuid \<Rightarrow> decision_request \<Rightarrow>
   ('a env_scheme, failure + string) task" where
  "submit_decision_form_task X A st p i req =
     then_task (call (authenticated A st p)) (\<lambda>who.
     then_task (decide_task X st who i req) (\<lambda>_.
       Done (Inr (''/dashboard/alerts/'' @ cr_uuid_text X i))))"

definition api_ingest_transaction_task ::
  "crates \<Rightarrow> auth_crates \<Rightarrow> 'a db_scheme app_state \<Rightarrow> parts \<Rightarrow> normalized_transaction \<Rightarrow>
   ('a db_scheme, failure + uuid option) task" where
  "api_ingest_transaction_task X A st p tx =
     then_task (call (authenticated A st p)) (\<lambda>who.
     then_task (checked_task (require_admin who)) (\<lambda>_.
       map_err_task (\<lambda>e. Failed (ApiInternal e)) (process_transaction_task X st tx)))"

definition api_evaluate_transaction_task ::
  "crates \<Rightarrow> auth_crates \<Rightarrow> 'a db_scheme app_state \<Rightarrow> parts \<Rightarrow> string \<Rightarrow> ('a db_scheme, failure + evaluation_result) task" where
  "api_evaluate_transaction_task X A st p i =
     then_task (call (authenticated A st p)) (\<lambda>_.
     then_task (domain_task (call (tx_get X i))) (\<lambda>found.
     then_task (found_or_task (tx_not_found i) found) (\<lambda>tx.
     then_task (domain_task (build_account_history_task X (tx_source_account tx) (tx_created_at tx)
                              (app_lookback st) (app_baseline st))) (\<lambda>history.
     then_task (domain_task (call flagged_all)) (\<lambda>flagged_accounts.
       Done (Inr (evaluate (app_registry st) (evaluation_ctx st tx history flagged_accounts) (app_scoring st))))))))"

definition signed_in_task ::
  "auth_crates \<Rightarrow> 'a env_scheme app_state \<Rightarrow> parts \<Rightarrow> (investigator \<Rightarrow> ('a env_scheme, failure + string) task) \<Rightarrow>
   ('a env_scheme, failure + string) task" where
  "signed_in_task A st p k =
     then_task (call (optional_auth_user A (app_jwt_secret st) p)) (\<lambda>user.
       case user of None \<Rightarrow> Done (Inr redirect_login) | Some u \<Rightarrow> k u)"

definition alerts_list_task ::
  "crates \<Rightarrow> auth_crates \<Rightarrow> 'a env_scheme app_state \<Rightarrow> parts \<Rightarrow> ('a env_scheme, failure + string) task" where
  "alerts_list_task X A st p =
     signed_in_task A st p (\<lambda>user.
     then_task (domain_task (call (list_alerts (app_alerts st) \<lparr>af_status = None, af_limit = 100, af_offset = 0\<rparr>))) (\<lambda>listed.
       Done (ok_or Panicked (list_page X user listed))))"

definition alert_view_task ::
  "crates \<Rightarrow> 'a db_scheme app_state \<Rightarrow> uuid \<Rightarrow> ('a db_scheme, failure + alert_view) task" where
  "alert_view_task X st i =
     then_task (domain_task (call (get_alert (app_alerts st) i))) (\<lambda>found.
     then_task (found_or_task (alert_not_found X i) found) (\<lambda>a.
     then_task (domain_task (call (decision_history (app_alerts st) i))) (\<lambda>decisions.
     then_task (domain_task (call (audit_history (app_alerts st) i))) (\<lambda>trail.
     then_task (domain_task (call (tx_get X (al_tx_id a)))) (\<lambda>tx.
       Done (Inr \<lparr>av_alert = a, av_decisions = decisions, av_trail = trail, av_tx = tx\<rparr>))))))"

definition alert_detail_task ::
  "crates \<Rightarrow> auth_crates \<Rightarrow> 'a db_scheme app_state \<Rightarrow> parts \<Rightarrow> uuid \<Rightarrow> ('a db_scheme, failure + string) task" where
  "alert_detail_task X A st p i =
     signed_in_task A st p (\<lambda>user.
     then_task (alert_view_task X st i) (\<lambda>v.
       Done (ok_or Panicked (detail_page X user i v))))"

text \<open>A login: the query for the investigator, then the token.\<close>

definition checked_login_task ::
  "auth_crates \<Rightarrow> string \<Rightarrow> login_request \<Rightarrow> ('a db_scheme, api_error + investigator \<times> string) task" where
  "checked_login_task A secret req =
     then_task (map_err_task api_error_of_domain (call (find_by_username (lg_username req)))) (\<lambda>found.
     then_task (Done (ok_or (ApiUnauthorized ''invalid credentials'') found)) (\<lambda>rec.
     if \<not> verify_password A (lg_password req) (iw_password_hash rec)
     then Done (Inl (ApiUnauthorized ''invalid credentials''))
     else then_task (call (issue_token A (iw_investigator rec) secret)) (\<lambda>token.
          Done (Inr (iw_investigator rec, token)))))"

definition login_task ::
  "auth_crates \<Rightarrow> string \<Rightarrow> login_request \<Rightarrow> ('a db_scheme, api_error + login_response) task" where
  "login_task A secret req =
     then_task (checked_login_task A secret req) (\<lambda>(who, token).
       Done (Inr \<lparr>lr_token = token, lr_investigator_id = inv_id who, lr_username = inv_username who,
                   lr_role = role_str (inv_role who)\<rparr>))"

definition login_form_task ::
  "auth_crates \<Rightarrow> string \<Rightarrow> login_request \<Rightarrow> ('a db_scheme, api_error + string \<times> string) task" where
  "login_form_task A secret req =
     then_task (checked_login_task A secret req) (\<lambda>(_, token). Done (Inr (session_cookie token, ''/dashboard'')))"

lemma run_option_anchor:
  "run_task (map_result (\<lambda>_. Inr v) (call (m i h))) = (\<lambda>s. (Inr v, snd (m i h s)))"
  by (rule ext) (simp split: prod.split)

lemma run_if: "run_task (if b then p else q) = (if b then run_task p else run_task q)"
  by simp

lemma run_handlers [run_rules]:
  "run_task (decide_task X st who i req) = decide X st who i req"
  "run_task (api_submit_decision_task X A st p i req) = api_submit_decision X A st p i req"
  "run_task (submit_decision_form_task X A dt p i req) = submit_decision_form X A dt p i req"
  "run_task (api_ingest_transaction_task X A dt p tx) = api_ingest_transaction X A dt p tx"
  "run_task (api_evaluate_transaction_task X A dt p j) = api_evaluate_transaction X A dt p j"
  by (simp_all add: decide_task_def decide_def api_submit_decision_task_def api_submit_decision_def
      submit_decision_form_task_def submit_decision_form_def api_ingest_transaction_task_def api_ingest_transaction_def
      api_evaluate_transaction_task_def api_evaluate_transaction_def run_rules run_simps run_option_anchor run_if
      cong: option.case_cong if_cong)

lemma run_signed_in: "run_task (signed_in_task A st p k) = signed_in A st p (\<lambda>u. run_task (k u))"
  by (simp add: signed_in_task_def signed_in_def run_simps cong: option.case_cong)

lemma run_pages [run_rules]:
  "run_task (alerts_list_task X A st p) = alerts_list X A st p"
  "run_task (alert_view_task X dt i) = alert_view_of X dt i"
  "run_task (alert_detail_task X A dt p i) = alert_detail X A dt p i"
  by (simp_all add: alerts_list_task_def alerts_list_def alert_view_task_def alert_view_of_def alert_detail_task_def
      alert_detail_def run_signed_in page_or_panic_def run_rules run_simps)

lemma run_login [run_rules]:
  "run_task (checked_login_task A secret req) = checked_login A secret req"
  "run_task (login_task A secret req) = login A secret req"
  "run_task (login_form_task A secret req) = login_form A secret req"
  by (simp_all add: checked_login_task_def checked_login_def login_task_def login_def login_form_task_def login_form_def
      run_simps run_if cong: if_cong)

text \<open>The handlers that await one statement after the user is known.\<close>

definition api_list_transactions_task ::
  "crates \<Rightarrow> auth_crates \<Rightarrow> 'a db_scheme app_state \<Rightarrow> parts \<Rightarrow> (string \<rightharpoonup> string) \<Rightarrow>
   ('a db_scheme, failure + normalized_transaction list) task" where
  "api_list_transactions_task X A st p params =
     then_task (call (authenticated A st p)) (\<lambda>_. domain_task (call (tx_list_recent X (int_param params ''limit'' 50))))"

definition api_get_transaction_task ::
  "crates \<Rightarrow> auth_crates \<Rightarrow> 'a db_scheme app_state \<Rightarrow> parts \<Rightarrow> string \<Rightarrow> ('a db_scheme, failure + normalized_transaction) task" where
  "api_get_transaction_task X A st p i =
     then_task (call (authenticated A st p)) (\<lambda>_.
     then_task (domain_task (call (tx_get X i))) (\<lambda>found.
       found_or_task (tx_not_found i) found))"

definition api_list_alerts_task ::
  "auth_crates \<Rightarrow> 'a env_scheme app_state \<Rightarrow> parts \<Rightarrow> (string \<rightharpoonup> string) \<Rightarrow> ('a env_scheme, failure + alert list) task" where
  "api_list_alerts_task A st p params =
     then_task (call (authenticated A st p)) (\<lambda>_.
       let status = Option.bind (params ''status'') (\<lambda>v. ok_opt (alert_status_from_str v));
           limit = int_param params ''limit'' 50;
           offset = int_param params ''offset'' 0
       in domain_task (call (list_alerts (app_alerts st) \<lparr>af_status = status, af_limit = limit, af_offset = offset\<rparr>)))"

definition api_get_alert_task ::
  "crates \<Rightarrow> auth_crates \<Rightarrow> 'a env_scheme app_state \<Rightarrow> parts \<Rightarrow> uuid \<Rightarrow> ('a env_scheme, failure + alert) task" where
  "api_get_alert_task X A st p i =
     then_task (call (authenticated A st p)) (\<lambda>_.
     then_task (domain_task (call (get_alert (app_alerts st) i))) (\<lambda>found.
       found_or_task (alert_not_found X i) found))"

definition api_get_alert_ai_task ::
  "crates \<Rightarrow> auth_crates \<Rightarrow> 'a env_scheme app_state \<Rightarrow> parts \<Rightarrow> uuid \<Rightarrow> ('a env_scheme, failure + ai_advisory_status) task" where
  "api_get_alert_ai_task X A st p i =
     then_task (call (authenticated A st p)) (\<lambda>_.
     then_task (domain_task (call (get_alert (app_alerts st) i))) (\<lambda>found.
     then_task (found_or_task (alert_not_found X i) found) (\<lambda>a.
       Done (Inr (al_ai_status a)))))"

definition api_decision_history_task ::
  "auth_crates \<Rightarrow> 'a env_scheme app_state \<Rightarrow> parts \<Rightarrow> uuid \<Rightarrow> ('a env_scheme, failure + decision_record list) task" where
  "api_decision_history_task A st p i =
     then_task (call (authenticated A st p)) (\<lambda>_. domain_task (call (decision_history (app_alerts st) i)))"

definition api_alert_audit_task ::
  "auth_crates \<Rightarrow> 'a env_scheme app_state \<Rightarrow> parts \<Rightarrow> uuid \<Rightarrow> ('a env_scheme, failure + audit_record list) task" where
  "api_alert_audit_task A st p i =
     then_task (call (authenticated A st p)) (\<lambda>_. domain_task (call (audit_history (app_alerts st) i)))"

definition api_verify_audit_chain_task ::
  "auth_crates \<Rightarrow> 'a env_scheme app_state \<Rightarrow> parts \<Rightarrow> ('a env_scheme, failure + chain_verification) task" where
  "api_verify_audit_chain_task A st p =
     then_task (call (authenticated A st p)) (\<lambda>who.
     then_task (checked_task (require_admin who)) (\<lambda>_.
       map_err_task (\<lambda>e. Failed (ApiInternal (audit_error_text e))) (call (au_verify_chain (app_audit st)))))"

lemma run_reads [run_rules]:
  "run_task (api_list_transactions_task X A dt p params) = api_list_transactions X A dt p params"
  "run_task (api_get_transaction_task X A dt p j) = api_get_transaction X A dt p j"
  "run_task (api_list_alerts_task A st p params) = api_list_alerts A st p params"
  "run_task (api_get_alert_task X A st p i) = api_get_alert X A st p i"
  "run_task (api_get_alert_ai_task X A st p i) = api_get_alert_ai X A st p i"
  "run_task (api_decision_history_task A st p i) = api_decision_history A st p i"
  "run_task (api_alert_audit_task A st p i) = api_alert_audit A st p i"
  "run_task (api_verify_audit_chain_task A st p) = api_verify_audit_chain A st p"
  by (simp_all add: api_list_transactions_task_def api_list_transactions_def api_get_transaction_task_def
      api_get_transaction_def api_list_alerts_task_def api_list_alerts_def api_get_alert_task_def api_get_alert_def
      api_get_alert_ai_task_def api_get_alert_ai_def api_decision_history_task_def api_decision_history_def
      api_alert_audit_task_def api_alert_audit_def api_verify_audit_chain_task_def api_verify_audit_chain_def
      run_rules run_simps Let_def)

section \<open>The router\<close>

definition answer_task :: "('r \<Rightarrow> response) \<Rightarrow> ('s, failure + 'r) task \<Rightarrow> ('s, failure + response) task" where
  "answer_task f p = then_task p (\<lambda>x. Done (Inr (f x)))"

definition api_failed :: "('s, api_error + 'r) task \<Rightarrow> ('s, failure + 'r) task" where
  "api_failed p = map_err_task Failed p"

fun serve_task ::
  "crates \<Rightarrow> auth_crates \<Rightarrow> 'a db_scheme app_state \<Rightarrow> parts \<Rightarrow> request \<Rightarrow> ('a db_scheme, failure + response) task" where
  "serve_task X A st p Health = Done (Inr (JsonHealth health))"
| "serve_task X A st p (Login req) = answer_task JsonLogin (api_failed (login_task A (app_jwt_secret st) req))"
| "serve_task X A st p (ListTransactions q) = answer_task JsonTransactions (api_list_transactions_task X A st p q)"
| "serve_task X A st p (IngestTransaction tx) = answer_task JsonIngest (api_ingest_transaction_task X A st p tx)"
| "serve_task X A st p (GetTransaction i) = answer_task JsonTransaction (api_get_transaction_task X A st p i)"
| "serve_task X A st p (EvaluateTransaction i) = answer_task JsonEvaluation (api_evaluate_transaction_task X A st p i)"
| "serve_task X A st p (ListAlerts q) = answer_task JsonAlerts (api_list_alerts_task A st p q)"
| "serve_task X A st p (GetAlert i) = answer_task JsonAlert (api_get_alert_task X A st p i)"
| "serve_task X A st p (GetAlertAi i) = answer_task JsonAiStatus (api_get_alert_ai_task X A st p i)"
| "serve_task X A st p (SubmitDecision i req) = answer_task JsonDecision (api_submit_decision_task X A st p i req)"
| "serve_task X A st p (DecisionHistory i) = answer_task JsonDecisions (api_decision_history_task A st p i)"
| "serve_task X A st p (AlertAudit i) = answer_task JsonAudit (api_alert_audit_task A st p i)"
| "serve_task X A st p VerifyAudit = answer_task JsonVerification (api_verify_audit_chain_task A st p)"
| "serve_task X A st p Index = Done (Inr (Redirect None index))"
| "serve_task X A st p LoginPage = Done (Inr (Page login_page))"
| "serve_task X A st p (LoginForm req) =
     answer_task (\<lambda>(cookie, target). Redirect (Some cookie) target) (api_failed (login_form_task A (app_jwt_secret st) req))"
| "serve_task X A st p Logout = Done (Inr (case logout of (cookie, target) \<Rightarrow> Redirect (Some cookie) target))"
| "serve_task X A st p DashboardList = answer_task Page (alerts_list_task X A st p)"
| "serve_task X A st p (DashboardAlert i) = answer_task Page (alert_detail_task X A st p i)"
| "serve_task X A st p (DashboardDecision i req) = answer_task (Redirect None) (submit_decision_form_task X A st p i req)"

lemma run_answer: "run_task (answer_task f p) = answer f (run_task p)" "run_task (api_failed q) = map_err_act Failed (run_task q)"
  by (simp_all add: answer_task_def answer_def api_failed_def run_simps)

lemma run_serve: "run_task (serve_task X A st p q) = serve X A st p q"
  by (cases q) (simp_all add: run_answer run_rules run_Done ok_lift)


end
