(* ===== verification/RulesProps.thy ===== *)
theory RulesProps
  imports RulesEngine Samples
begin

text \<open>
  What the built-in rules, the registry and the scoring of \<open>rules_engine\<close> compute: each rule
  against a direct description of the movements or accounts it must name, the registry's
  extension property, and the bounds, exactness and monotonicity of the score.
\<close>

section \<open>The single rules\<close>

lemma large_transfer_loop_eq:
  "large_transfer_loop X cfg ms =
     map (\<lambda>m. large_transfer_trigger X (transfer_threshold cfg (mv_asset m)) m)
       (filter (\<lambda>m. dec_value (transfer_threshold cfg (mv_asset m)) < dec_value (mv_amount m)) ms)"
  by (induction ms) (simp_all add: Let_def dec_gt_value)

text \<open>
  C36: The large-transfer rule reports exactly the movements whose amount is above the threshold
  of their asset (the per-asset entry, or the default when there is none), one trigger per
  movement, in the order of the transaction.
\<close>
theorem large_transfer_exact:
  "rule_evaluate (large_transfer_rule X) ctx =
     map (\<lambda>m. large_transfer_trigger X (transfer_threshold (ec_config ctx) (mv_asset m)) m)
       (filter (\<lambda>m. dec_value (case large_transfer_thresholds (ec_config ctx) (asset_key (mv_asset m)) of
                       Some t \<Rightarrow> t | None \<Rightarrow> large_transfer_default_threshold (ec_config ctx))
                    < dec_value (mv_amount m))
         (tx_movements (ec_tx ctx)))"
  by (simp add: large_transfer_rule_def large_transfer_loop_eq transfer_threshold_def)

text \<open>
  The flagged-account rule fires once for each distinct flagged account among the source and
  the two ends of every movement, in ascending order, and for no other account.
\<close>
theorem flagged_account_exact:
  "rule_evaluate flagged_account_rule ctx =
     map flagged_trigger
       (sorted_list_of_set
          (ec_flagged_accounts ctx \<inter>
           insert (tx_source_account (ec_tx ctx))
             (mv_from ` set (tx_movements (ec_tx ctx)) \<union> mv_to ` set (tx_movements (ec_tx ctx)))))"
proof -
  let ?hits = "filter (\<lambda>a. a \<in> ec_flagged_accounts ctx) (involved_accounts (ec_tx ctx))"
  have "sort_dedup ?hits = sorted_list_of_set (set ?hits)"
    by (rule sorted_distinct_set_unique) simp_all
  moreover have "set ?hits = ec_flagged_accounts ctx \<inter> set (involved_accounts (ec_tx ctx))"
    by auto
  ultimately show ?thesis
    by (simp add: flagged_account_rule_def flagged_account_eval_def set_involved_accounts)
qed

lemma unusual_filter_keys:
  "asset_key ` mv_asset ` set (unusual_filter known seen ms) = asset_key ` mv_asset ` set ms - known - seen"
proof (induction known seen ms rule: unusual_filter.induct)
  case (1 known seen)
  then show ?case by simp
next
  case (2 known seen m ms)
  then show ?case by (cases "asset_key (mv_asset m) \<notin> seen \<and> asset_key (mv_asset m) \<notin> known") (auto simp: Let_def)
qed

lemma unusual_filter_distinct: "distinct (map (\<lambda>m. asset_key (mv_asset m)) (unusual_filter known seen ms))"
proof (induction known seen ms rule: unusual_filter.induct)
  case (1 known seen)
  then show ?case by simp
next
  case (2 known seen m ms)
  have "asset_key (mv_asset m) \<notin> asset_key ` mv_asset ` set (unusual_filter known (insert (asset_key (mv_asset m)) seen) ms)"
    by (simp only: unusual_filter_keys) simp
  with 2 show ?case by (auto simp: Let_def image_image)
qed

lemma unusual_filter_none: "asset_key ` mv_asset ` set ms \<subseteq> known \<Longrightarrow> unusual_filter known seen ms = []"
proof -
  assume "asset_key ` mv_asset ` set ms \<subseteq> known"
  then have "asset_key ` mv_asset ` set (unusual_filter known seen ms) = {}"
    by (simp only: unusual_filter_keys) blast
  then show ?thesis by simp
qed

text \<open>
  C37: For an account with a recorded history the unusual-asset rule fires exactly once for every
  asset key moved in the transaction that is not among the known assets; for an account with no
  known asset it never fires.
\<close>
theorem unusual_asset_exact:
  "(\<exists>ms. rule_evaluate unusual_asset_rule ctx = map (unusual_asset_trigger (tx_source_account (ec_tx ctx))) ms
      \<and> distinct (map (\<lambda>m. asset_key (mv_asset m)) ms)
      \<and> (\<lambda>m. asset_key (mv_asset m)) ` set ms =
          (if ah_known_assets (ec_source_history ctx) = {} then {}
           else (\<lambda>m. asset_key (mv_asset m)) ` set (tx_movements (ec_tx ctx)) - ah_known_assets (ec_source_history ctx)))"
proof (cases "ah_known_assets (ec_source_history ctx) = {}")
  case True
  then show ?thesis by (simp add: unusual_asset_rule_def unusual_asset_eval_def)
next
  case False
  let ?ms = "unusual_filter (ah_known_assets (ec_source_history ctx)) {} (tx_movements (ec_tx ctx))"
  have "rule_evaluate unusual_asset_rule ctx = map (unusual_asset_trigger (tx_source_account (ec_tx ctx))) ?ms"
    using False by (simp add: unusual_asset_rule_def unusual_asset_eval_def)
  moreover have "distinct (map (\<lambda>m. asset_key (mv_asset m)) ?ms)" by (rule unusual_filter_distinct)
  moreover have "(\<lambda>m. asset_key (mv_asset m)) ` set ?ms =
      (\<lambda>m. asset_key (mv_asset m)) ` set (tx_movements (ec_tx ctx)) - ah_known_assets (ec_source_history ctx)"
    using unusual_filter_keys [of "ah_known_assets (ec_source_history ctx)" "{}" "tx_movements (ec_tx ctx)"]
    by (simp add: image_image)
  ultimately show ?thesis using False by (intro exI [of _ ?ms]) simp
qed

section \<open>Weights\<close>

text \<open>The built-in rules use whole-number weights; \<open>weight_of\<close> is the weight by rule identifier.\<close>

definition weight_of :: "string \<Rightarrow> nat" where
  "weight_of rid =
     (if rid = ''large_transfer'' then 35 else if rid = ''velocity'' then 25
      else if rid = ''abnormal_frequency'' then 20 else if rid = ''flagged_account_interaction'' then 40
      else if rid = ''unusual_asset_movement'' then 15 else 10)"

definition trigger_ok :: "rule \<Rightarrow> rule_trigger \<Rightarrow> bool" where
  "trigger_ok r t \<longleftrightarrow> rt_rule_id t = rule_id r \<and> rt_rule_name t = rule_name r
     \<and> rt_weight t = of_nat (weight_of (rule_id r))"

lemma large_transfer_trigger_ok: "t \<in> set (large_transfer_loop X cfg ms) \<Longrightarrow> trigger_ok (large_transfer_rule X) t"
  by (induction ms)
    (auto simp: Let_def trigger_ok_def large_transfer_rule_def large_transfer_trigger_def trigger_def weight_of_def
          split: if_splits)

lemma built_in_trigger_ok:
  assumes "r \<in> set (built_in_rules X)" and "t \<in> set (rule_evaluate r ctx)"
  shows "trigger_ok r t"
proof -
  have "t \<in> set (large_transfer_loop X (ec_config ctx) (tx_movements (ec_tx ctx))) \<Longrightarrow> trigger_ok (large_transfer_rule X) t"
    by (rule large_transfer_trigger_ok)
  moreover have "t \<in> set (velocity_eval ctx) \<Longrightarrow> trigger_ok velocity_rule t"
    by (auto simp: velocity_eval_def trigger_ok_def velocity_rule_def trigger_def weight_of_def Let_def split: if_splits)
  moreover have "t \<in> set (abnormal_frequency_eval ctx) \<Longrightarrow> trigger_ok abnormal_frequency_rule t"
    by (auto simp: abnormal_frequency_eval_def trigger_ok_def abnormal_frequency_rule_def trigger_def weight_of_def Let_def
             split: if_splits)
  moreover have "t \<in> set (flagged_account_eval ctx) \<Longrightarrow> trigger_ok flagged_account_rule t"
    by (auto simp: flagged_account_eval_def trigger_ok_def flagged_account_rule_def flagged_trigger_def trigger_def weight_of_def)
  moreover have "t \<in> set (unusual_asset_eval ctx) \<Longrightarrow> trigger_ok unusual_asset_rule t"
    by (auto simp: unusual_asset_eval_def trigger_ok_def unusual_asset_rule_def unusual_asset_trigger_def trigger_def weight_of_def
             split: if_splits)
  moreover have "t \<in> set (operation_count_eval ctx) \<Longrightarrow> trigger_ok operation_count_rule t"
    by (auto simp: operation_count_eval_def trigger_ok_def operation_count_rule_def trigger_def weight_of_def Let_def
             split: if_splits)
  ultimately show ?thesis
    using assms
    by (auto simp: built_in_rules_def large_transfer_rule_def velocity_rule_def abnormal_frequency_rule_def
          flagged_account_rule_def unusual_asset_rule_def operation_count_rule_def)
qed

lemma built_in_weight:
  "t \<in> set (evaluate_all (with_built_ins X) ctx) \<Longrightarrow> rt_weight t = of_nat (weight_of (rt_rule_id t))"
  by (auto simp: evaluate_all_def with_built_ins_def dest!: built_in_trigger_ok simp: trigger_ok_def)

lemma weight_of_le: "weight_of rid \<le> 40"
  by (simp add: weight_of_def)


section \<open>Scoring\<close>

definition weights_nonneg :: "rule_trigger list \<Rightarrow> bool" where
  "weights_nonneg ts \<longleftrightarrow> list_all (\<lambda>t. 0 \<le> rt_weight t) ts"

lemma built_in_weights_nonneg: "weights_nonneg (evaluate_all (with_built_ins X) ctx)"
  by (auto simp: weights_nonneg_def list_all_iff built_in_weight)

lemma severity_of_score_mono: "a \<le> b \<Longrightarrow> severity_of_score cfg a \<le> severity_of_score cfg b"
  by (auto simp: severity_of_score_def less_eq_severity_def)

lemma score_nonneg: "weights_nonneg ts \<Longrightarrow> 0 \<le> max_score cfg \<Longrightarrow> 0 \<le> fst (score_and_severity ts cfg)"
  by (simp add: score_and_severity_def Let_def weights_nonneg_def f64_sum_nonneg list_all_iff)

lemma score_le_max: "0 \<le> max_score cfg \<Longrightarrow> fst (score_and_severity ts cfg) \<le> max_score cfg"
  by (simp add: score_and_severity_def Let_def)

lemma severity_None_iff: "snd (score_and_severity ts cfg) = None \<longleftrightarrow> ts = []"
  by (simp add: score_and_severity_def Let_def)

lemma severity_Some: "snd (score_and_severity ts cfg) = Some s \<longleftrightarrow>
   ts \<noteq> [] \<and> s = severity_of_score cfg (fst (score_and_severity ts cfg))"
  by (auto simp: score_and_severity_def Let_def)

lemma evaluate_sel [simp]:
  "er_tx_id (evaluate rs ctx cfg) = tx_id (ec_tx ctx)"
  "er_triggers (evaluate rs ctx cfg) = evaluate_all rs ctx"
  "er_score (evaluate rs ctx cfg) = fst (score_and_severity (evaluate_all rs ctx) cfg)"
  "er_severity (evaluate rs ctx cfg) = snd (score_and_severity (evaluate_all rs ctx) cfg)"
  by (simp_all add: evaluate_def Let_def split: prod.split)

text \<open>
  C35: With the built-in rules and the default scoring configuration, whatever the transaction,
  history and flagged accounts: the score lies between 0 and 100, a severity is reported exactly
  when some rule fired, and the severity is Critical from 80, High from 60, Medium from 35 and Low
  below that.
\<close>
theorem evaluation_bounds:
  "(let r = evaluate (with_built_ins X) ctx scoring_config_default in
      0 \<le> er_score r \<and> er_score r \<le> 100
      \<and> (er_severity r = None \<longleftrightarrow> \<not> is_flagged r)
      \<and> (er_severity r = Some Critical \<longleftrightarrow> is_flagged r \<and> 80 \<le> er_score r)
      \<and> (er_severity r = Some High \<longleftrightarrow> is_flagged r \<and> 60 \<le> er_score r \<and> er_score r < 80)
      \<and> (er_severity r = Some Medium \<longleftrightarrow> is_flagged r \<and> 35 \<le> er_score r \<and> er_score r < 60)
      \<and> (er_severity r = Some Low \<longleftrightarrow> is_flagged r \<and> er_score r < 35))"
proof -
  let ?ts = "evaluate_all (with_built_ins X) ctx"
  have "0 \<le> fst (score_and_severity ?ts scoring_config_default)"
    by (rule score_nonneg [OF built_in_weights_nonneg]) (simp add: scoring_config_default_def)
  moreover have "fst (score_and_severity ?ts scoring_config_default) \<le> 100"
    using score_le_max [of scoring_config_default ?ts] by (simp add: scoring_config_default_def)
  ultimately show ?thesis
    by (auto simp: Let_def is_flagged_def severity_None_iff severity_Some severity_of_score_def
          scoring_config_default_def split: if_splits)
qed

text \<open>
  A capped sum of small whole weights is exact: below the cap no rounding happens, and a partial
  sum that has reached the cap never falls back under it.
\<close>

lemma capped_above: "100 \<le> a \<Longrightarrow> 100 \<le> foldl f64_add a (map of_nat ns)"
proof (induction ns arbitrary: a)
  case (Cons n ns)
  have "rn64 100 \<le> rn64 (a + of_nat n)" using Cons.prems by (intro rn64_mono) simp_all
  moreover have "rn64 100 = 100" using rn64_int [of 100] by simp
  ultimately show ?case using Cons.IH [of "rn64 (a + of_nat n)"] by (simp add: f64_add_def)
qed simp

lemma capped_exact:
  "list_all (\<lambda>n. n \<le> 40) ns \<Longrightarrow> a \<le> 140 \<Longrightarrow>
   min (foldl f64_add (of_nat a) (map of_nat ns)) 100 = min (of_nat (a + sum_list ns)) 100"
proof (induction ns arbitrary: a)
  case (Cons n ns)
  show ?case
  proof (cases "100 \<le> a")
    case True
    then have "(100::rat) \<le> of_nat a" by simp
    then have "100 \<le> foldl f64_add (of_nat a) (map of_nat (n # ns))" by (rule capped_above)
    moreover have "(100::rat) \<le> of_nat (a + sum_list (n # ns))" using True by simp
    ultimately show ?thesis by (simp only: min_absorb2)
  next
    case False
    then have "f64_add (of_nat a) (of_nat n) = of_nat (a + n)"
      using Cons.prems rn64_nat [of "a + n"] by (simp add: f64_add_def)
    then show ?thesis using Cons.IH [of "a + n"] Cons.prems False by (simp add: add.assoc)
  qed
qed simp

lemma score_capped:
  fixes X ctx
  defines "ts \<equiv> evaluate_all (with_built_ins X) ctx"
  shows "fst (score_and_severity ts scoring_config_default) = min (of_nat (\<Sum>t \<leftarrow> ts. weight_of (rt_rule_id t))) 100"
proof -
  let ?ns = "map (\<lambda>t. weight_of (rt_rule_id t)) ts"
  have ws: "map rt_weight ts = map of_nat ?ns" by (simp add: built_in_weight ts_def)
  have "min (f64_sum (map rt_weight ts)) 100 = min (of_nat (sum_list ?ns)) 100"
    unfolding f64_sum_def ws using capped_exact [of ?ns 0] by (simp add: list_all_iff weight_of_le)
  moreover have "fst (score_and_severity ts scoring_config_default) = min (f64_sum (map rt_weight ts)) 100"
    by (cases "ts = []") (simp_all add: score_and_severity_def Let_def scoring_config_default_def f64_sum_def)
  ultimately show ?thesis by simp
qed

text \<open>
  C17: The score of the built-in rules is exactly the sum of the whole-number weights of the rules
  that fired, capped at 100, in spite of floating-point addition and for any number of triggers.
\<close>
theorem score_exact:
  "er_score (evaluate (with_built_ins X) ctx scoring_config_default) =
     min (of_nat (\<Sum>t \<leftarrow> er_triggers (evaluate (with_built_ins X) ctx scoring_config_default).
                   weight_of (rt_rule_id t))) 100"
  by (simp add: score_capped)

section \<open>Extending the registry\<close>

lemma evaluate_all_register: "evaluate_all (register rs r) ctx = evaluate_all rs ctx @ rule_evaluate r ctx"
  by (simp add: evaluate_all_def register_def)

lemma f64_foldl_grows: "0 \<le> a \<Longrightarrow> rn64 a = a \<Longrightarrow> list_all (\<lambda>x. 0 \<le> x) xs \<Longrightarrow> a \<le> foldl f64_add a xs"
proof (induction xs arbitrary: a)
  case (Cons x xs)
  have "a \<le> f64_add a x" using rn64_mono [of a "a + x"] Cons.prems by (simp add: f64_add_def)
  moreover have "rn64 (f64_add a x) = f64_add a x" using Cons.prems by (simp add: f64_add_def rn64_idem)
  moreover have "0 \<le> f64_add a x" using calculation(1) Cons.prems(1) by linarith
  ultimately have "f64_add a x \<le> foldl f64_add (f64_add a x) xs" using Cons.IH [of "f64_add a x"] Cons.prems by simp
  then show ?case using \<open>a \<le> f64_add a x\<close> by simp
qed simp

lemma f64_sum_idem: "list_all (\<lambda>x. 0 \<le> x) xs \<Longrightarrow> rn64 (f64_sum xs) = f64_sum xs"
proof (induction xs rule: rev_induct)
  case (snoc x xs)
  then have "0 \<le> f64_sum xs + x" using f64_sum_nonneg [of xs] by (simp add: list_all_append)
  then show ?case by (simp add: f64_sum_def f64_add_def rn64_idem)
qed (simp add: f64_sum_def)

lemma f64_sum_append_mono:
  assumes "list_all (\<lambda>x. 0 \<le> x) xs" "list_all (\<lambda>x. 0 \<le> x) ys"
  shows "f64_sum xs \<le> f64_sum (xs @ ys)"
  using f64_foldl_grows [of "f64_sum xs" ys] f64_sum_nonneg [OF assms(1)] f64_sum_idem [OF assms(1)] assms(2)
  by (simp add: f64_sum_def)

lemma score_append_mono:
  assumes "weights_nonneg ts" "weights_nonneg us" "0 \<le> max_score cfg"
  shows "fst (score_and_severity ts cfg) \<le> fst (score_and_severity (ts @ us) cfg)"
proof (cases "ts = []")
  case True
  with score_nonneg [of us cfg] assms show ?thesis by (simp add: score_and_severity_def)
next
  case False
  have "f64_sum (map rt_weight ts) \<le> f64_sum (map rt_weight ts @ map rt_weight us)"
    using assms by (intro f64_sum_append_mono) (simp_all add: weights_nonneg_def list_all_iff)
  with False show ?thesis by (simp add: score_and_severity_def Let_def min_le_iff_disj)
qed

text \<open>
  Registering a further rule only adds: the triggers of the rules already registered come
  first and unchanged, and as long as weights are not negative neither the score nor the severity
  goes down.
\<close>
theorem register_extends:
  assumes "weights_nonneg (evaluate_all rs ctx)" and "weights_nonneg (rule_evaluate r ctx)"
    and "0 \<le> max_score cfg"
  shows "er_triggers (evaluate (register rs r) ctx cfg) = er_triggers (evaluate rs ctx cfg) @ rule_evaluate r ctx
    \<and> er_score (evaluate rs ctx cfg) \<le> er_score (evaluate (register rs r) ctx cfg)
    \<and> (\<forall>s. er_severity (evaluate rs ctx cfg) = Some s \<longrightarrow>
           (\<exists>s'. er_severity (evaluate (register rs r) ctx cfg) = Some s' \<and> s \<le> s'))"
  using score_append_mono [OF assms]
  by (auto simp: evaluate_all_register severity_Some severity_of_score_mono)

definition empty_history :: account_history where
  "empty_history =
     \<lparr>ah_account = [], ah_recent_transactions = [], ah_baseline_tx_per_hour = 0,
      ah_baseline_observations = 0, ah_known_assets = {}\<rparr>"

definition sample_context :: evaluation_context where
  "sample_context =
     \<lparr>ec_tx = sample_tx, ec_source_history = empty_history, ec_flagged_accounts = {''GBOB''},
      ec_config = rules_config_default, ec_now = seconds 1000\<rparr>"

theorem register_extends_witness:
  "er_triggers (evaluate (register (with_built_ins sample_crates) velocity_rule) sample_context scoring_config_default) =
     er_triggers (evaluate (with_built_ins sample_crates) sample_context scoring_config_default)
       @ rule_evaluate velocity_rule sample_context"
proof -
  have "weights_nonneg (rule_evaluate velocity_rule sample_context)"
    by (simp add: weights_nonneg_def velocity_rule_def velocity_eval_def count_in_window_def sample_context_def
          empty_history_def rules_config_default_def)
  then show ?thesis
    using register_extends [of "with_built_ins sample_crates" sample_context velocity_rule scoring_config_default]
    by (simp add: built_in_weights_nonneg scoring_config_default_def)
qed

end
