(* ===== verification/ReviewProps.thy ===== *)
theory ReviewProps
  imports SqlAlerts
begin

text \<open>
  The review workflow on the production wiring (the alert service over the two SQLite stores), and
  the append-only log on both stores: the facts of \<open>Review\<close> read off at the interpretations, with
  a concrete database for the witnesses.
\<close>

definition sqlite_service :: "crates \<Rightarrow> 'a db_scheme alert_service" where
  "sqlite_service X = alert_service_new (sqlite_alert_ops X) (sqlite_audit_ops X)"

definition empty_db :: "'a db_scheme \<Rightarrow> 'a db_scheme" where
  "empty_db s = s\<lparr>db_investigators := [], db_flagged := [], db_transactions := [], db_alerts := [],
                  db_decisions := [], db_audit := [], db_dead_letters := [], db_cursors := []\<rparr>"

lemma sqlite_inv_empty: "codecs_ok X \<Longrightarrow> sqlite_inv X (empty_db s)"
  by (simp add: sqlite_inv_def sql_audit_inv_def sql_alert_inv_def empty_db_def sql_log_def numbered_def)

text \<open>A database for the witnesses: no fault before the \<open>n\<close>th statement, every statement after fails.\<close>

definition sample_db :: "nat \<Rightarrow> db" where
  "sample_db n =
     \<lparr>env_clock = (\<lambda>i. int i), env_ticks = 0, env_uuid_src = (\<lambda>i. of_nat i), env_uuids = 0,
      env_faults = (\<lambda>i. if i < n then None else Some ''disk I/O error''), env_calls = 0,
      env_http = (\<lambda>_ _. Inl ''offline''), env_sent = [], env_slept = [],
      db_investigators = [], db_flagged = [], db_transactions = [], db_alerts = [],
      db_decisions = [], db_audit = [], db_dead_letters = [], db_cursors = []\<rparr>"

lemma sample_db_inv: "sqlite_inv sample_crates (sample_db n)"
proof -
  have "empty_db (sample_db n) = sample_db n" by (simp add: empty_db_def sample_db_def)
  then show ?thesis using sqlite_inv_empty [OF sample_codecs_ok, of "sample_db n"] by simp
qed

section \<open>The log\<close>

text \<open>
  C10: The SQLite log is append-only: whatever sequence of calls goes through the \<open>AuditStore\<close>
  trait, with whatever database faults in between, the entries there before are still there, first
  and unchanged, and whenever \<open>verify_chain\<close> answers, it answers that the whole log is valid.
\<close>
theorem sqlite_log_append_only:
  assumes "sqlite_inv X s"
  shows "prefix (sql_log X s) (sql_log X (audit_calls_effect (sqlite_audit_ops X) calls s))
    \<and> (case sqlite_verify_chain X (audit_calls_effect (sqlite_audit_ops X) calls s) of
         (Inl e, t) \<Rightarrow> True
       | (Inr v, t) \<Rightarrow> v = \<lparr>cv_valid = True,
            cv_records_checked = length (sql_log X (audit_calls_effect (sqlite_audit_ops X) calls s)),
            cv_broken_at_sequence = None, cv_detail = None\<rparr>)"
proof -
  let ?t = "audit_calls_effect (sqlite_audit_ops X) calls s"
  have "sql_audit_inv X s" using assms by (simp add: sqlite_inv_def)
  then have t: "sql_audit_inv X ?t" "prefix (sql_log X s) (sql_log X ?t)"
    using sqlite_audit.calls_prefix [of X s calls] by simp_all
  then show ?thesis using sqlite_audit.verify_ok [OF t(1)] by (auto split: prod.split sum.split)
qed

definition sample_events :: "audit_call list" where
  "sample_events = [CallAppend (new_event (AiAdvisoryUnavailable ''offline'')), CallVerify, CallListAll 10]"

theorem sqlite_log_append_only_witness:
  "prefix (sql_log sample_crates (sample_db 3))
     (sql_log sample_crates (audit_calls_effect (sqlite_audit_ops sample_crates) sample_events (sample_db 3)))"
  using sqlite_log_append_only [OF sample_db_inv] by simp

text \<open>
  The in-memory log numbers its records from 0 without gaps and chains them: a successful
  append adds exactly one record for the event, with the next number and the hash of its
  predecessor, and a failed one (the event cannot be serialised) adds none.
\<close>
theorem mem_append_extends:
  assumes "mem_audit_inv X s"
  shows "case mem_append X ev s of
     (Inl e, t) \<Rightarrow> am_records t = am_records s
   | (Inr r, t) \<Rightarrow> am_records t = am_records s @ [r] \<and> mem_audit_inv X t
        \<and> ar_alert_id r = ne_alert_id ev \<and> ar_tx_id r = ne_tx_id ev \<and> ar_event r = ne_event ev
        \<and> ar_sequence r = int (length (am_records s))
        \<and> ar_prev_hash r = (if am_records s = [] then genesis_hash else ar_hash (last (am_records s)))"
proof (cases "mem_append X ev s")
  case (Pair res t)
  show ?thesis
  proof (cases res)
    case (Inl e)
    with Pair mem_append_Inl [of X ev s e t] show ?thesis by simp
  next
    case (Inr r)
    have "mem_audit_inv X t" using mem.append_ok [of X s ev r t] Pair Inr assms by simp
    with Pair Inr mem_append_Inr [of X ev s r t] show ?thesis
      by (auto simp: records_event_def last_hash_def mem_log_def last_map)
  qed
qed

definition sample_memory :: memory where
  "sample_memory =
     \<lparr>env_clock = (\<lambda>i. int i), env_ticks = 0, env_uuid_src = (\<lambda>i. of_nat i), env_uuids = 0,
      env_faults = (\<lambda>i. None), env_calls = 0, env_http = (\<lambda>_ _. Inl ''offline''), env_sent = [], env_slept = [],
      am_records = [], mm_alerts = [], mm_decisions = []\<rparr>"

theorem mem_append_extends_witness:
  "case mem_append sample_crates (new_event (AiAdvisoryUnavailable ''offline'')) sample_memory of
     (Inl e, t) \<Rightarrow> am_records t = []
   | (Inr r, t) \<Rightarrow> am_records t = [r] \<and> ar_prev_hash r = genesis_hash"
proof -
  have "mem_audit_inv sample_crates sample_memory"
    by (simp add: mem_audit_inv_def mem_log_def sample_memory_def numbered_def)
  from mem_append_extends [OF this, of "new_event (AiAdvisoryUnavailable ''offline'')"]
  show ?thesis by (auto simp: sample_memory_def split: prod.splits sum.splits)
qed

section \<open>Alerts and advisories\<close>

text \<open>
  Creating an alert. On success the alert carries the given evidence, starts \<open>Open\<close> with a
  pending advisory and a fresh identifier, can be read back with the same review fields, leaves
  every other alert and all decisions alone, and is followed by one \<open>AlertCreated\<close> entry in the log.
  On failure no existing alert changes and nothing is logged.
\<close>
theorem create_alert_effect:
  assumes "sqlite_inv X s"
  shows "case create_alert (sqlite_service X) na s of
     (Inl e, t) \<Rightarrow> sql_log X t = sql_log X s \<and> sql_decs X t = sql_decs X s \<and> sql_amap X s \<subseteq>\<^sub>m sql_amap X t
   | (Inr a, t) \<Rightarrow>
       al_status a = Open \<and> al_ai_status a = Pending \<and> al_tx_id a = na_tx_id na
       \<and> al_triggered_rules a = na_triggered_rules na \<and> al_score a = na_score na \<and> al_severity a = na_severity na
       \<and> sql_amap X s (al_id a) = None \<and> sql_decs X t = sql_decs X s
       \<and> sql_amap X t = (sql_amap X s)(al_id a \<mapsto> stored_alert X a) \<and> same_review_fields (stored_alert X a) a
       \<and> (\<exists>r. sql_log X t = sql_log X s @ [entry_of r]
            \<and> records_event X (alert_event (alert_created_event a) (al_id a) (al_tx_id a)) r)"
proof -
  obtain r t where c: "create_alert (sqlite_service X) na s = (r, t)" by (cases "create_alert (sqlite_service X) na s")
  let ?a = "drawn_alert s na"
  have fresh: "sql_amap X s (al_id ?a) = None" if "sqlite_insert X ?a (drawn s) = (Inr u, v)" for u v
    using sqlite_review.insert_fresh [of X "drawn s" ?a u v] that assms by simp
  have same: "same_review_fields (stored_alert X ?a) ?a" by (rule sqlite_review.canon_fields)
  have fields: "al_tx_id ?a = na_tx_id na" "al_triggered_rules ?a = na_triggered_rules na" "al_score ?a = na_score na"
      "al_severity ?a = na_severity na"
    by (simp_all add: drawn_alert_def opened_alert_def)
  from assms c [unfolded sqlite_service_def] show ?thesis
  proof (cases rule: sqlite_review.create_alert_cases)
    case (not_stored e)
    with c show ?thesis by simp
  next
    case (not_logged e u v)
    with c fresh [of u v] show ?thesis by (auto simp: map_le_def)
  next
    case (created q u v)
    with c fresh [of u v] same fields show ?thesis by (auto simp: created_event_def)
  qed
qed

definition sample_new_alert :: new_alert where
  "sample_new_alert = \<lparr>na_tx_id = ''tx-1'', na_accounts = [''GALICE''], na_assets = [asset_native],
     na_triggered_rules = [], na_score = 35, na_severity = Medium\<rparr>"

theorem create_alert_effect_witness:
  "case create_alert (sqlite_service sample_crates) sample_new_alert (sample_db 9) of
     (Inl e, t) \<Rightarrow> sql_log sample_crates t = sql_log sample_crates (sample_db 9)
   | (Inr a, t) \<Rightarrow> al_status a = Open \<and> al_score a = 35 \<and> sql_amap sample_crates t (al_id a) = Some (stored_alert sample_crates a)"
  using create_alert_effect [OF sample_db_inv, of 9 sample_new_alert]
  by (auto simp: sample_new_alert_def split: prod.splits sum.splits)

text \<open>
  C20: The advisory operations never decide. Recording that an advisory was requested, received or
  unavailable leaves every alert's status and the list of decisions as they are, on success and on
  every failure; on success one entry is logged, on failure none.
\<close>
theorem advisory_never_decides:
  assumes "sqlite_inv X s"
    and "op \<in> {record_ai_advisory_requested (sqlite_service X) i x payload,
               record_ai_advisory (sqlite_service X) i x adv,
               record_ai_unavailable (sqlite_service X) i x reason}"
  shows "case op s of (r, t) \<Rightarrow>
     (\<forall>j. map_option al_status (sql_amap X t j) = map_option al_status (sql_amap X s j))
     \<and> sql_decs X t = sql_decs X s
     \<and> (case r of Inl e \<Rightarrow> sql_log X t = sql_log X s | Inr u \<Rightarrow> \<exists>e. sql_log X t = sql_log X s @ [e])"
proof -
  obtain r t where op: "op s = (r, t)" by (cases "op s")
  have "same_statuses (sql_amap X s) (sql_amap X t) \<and> sql_decs X t = sql_decs X s
    \<and> (case r of Inl e \<Rightarrow> sql_log X t = sql_log X s | Inr u \<Rightarrow> \<exists>e. sql_log X t = sql_log X s @ [e])"
  proof -
    consider "record_ai_advisory_requested (sqlite_service X) i x payload s = (r, t)"
      | "record_ai_advisory (sqlite_service X) i x adv s = (r, t)"
      | "record_ai_unavailable (sqlite_service X) i x reason s = (r, t)"
      using assms(2) op by blast
    then show ?thesis
    proof cases
      case 1
      from sqlite_review.requested_step [OF assms(1) this [unfolded sqlite_service_def]]
      show ?thesis by (cases r) auto
    next
      case 2
      from sqlite_review.advisory_step [OF assms(1) this [unfolded sqlite_service_def]]
      show ?thesis by (cases r) auto
    next
      case 3
      from sqlite_review.unavailable_step [OF assms(1) this [unfolded sqlite_service_def]]
      show ?thesis by (cases r) auto
    qed
  qed
  then show ?thesis by (simp add: op same_statuses_def)
qed

text \<open>An advisory that has the same text everywhere.\<close>

definition sample_advisory :: "string \<Rightarrow> ai_advisory" where
  "sample_advisory text =
     \<lparr>adv_alert_id = 77, adv_generated_at = 0, adv_summary = text, adv_suspicious_signals = [text],
      adv_relevant_history = text, adv_risk_assessment = \<lparr>ra_level = ''high'', ra_rationale = text\<rparr>,
      adv_recommended_next_steps = [], adv_confidence = 1 / 2, adv_explanation = text, adv_model = ''m'',
      adv_disclaimer = ai_advisory_disclaimer\<rparr>"

theorem advisory_never_decides_witness:
  "case record_ai_unavailable (sqlite_service sample_crates) 1 ''tx-1'' ''offline'' (sample_db 9) of
     (r, t) \<Rightarrow> sql_decs sample_crates t = sql_decs sample_crates (sample_db 9)"
proof -
  have "record_ai_unavailable (sqlite_service sample_crates) 1 ''tx-1'' ''offline'' \<in>
    {record_ai_advisory_requested (sqlite_service sample_crates) 1 ''tx-1'' JNull,
     record_ai_advisory (sqlite_service sample_crates) 1 ''tx-1'' (sample_advisory ''fine''),
     record_ai_unavailable (sqlite_service sample_crates) 1 ''tx-1'' ''offline''}" by simp
  from advisory_never_decides [OF sample_db_inv this, of 9] show ?thesis by (auto split: prod.splits)
qed

section \<open>Decisions\<close>

text \<open>
  C12: Every way \<open>submit_decision\<close> can end. For an unknown alert: not found, nothing changes. On
  success: the alert existed, its status is the one of the decision and no other alert changes,
  exactly one decision is appended, by the given investigator, and exactly one entry with the
  status before the decision is logged. On failure nothing is logged, and either nothing changed or
  the decision and the status are in place although an error is reported.
\<close>
theorem submit_decision_outcomes:
  assumes "sqlite_inv X s"
  shows "case submit_decision X (sqlite_service X) i who d rationale s of
     (Inr rec, t) \<Rightarrow>
       (\<exists>a q. sql_amap X s i = Some a
          \<and> sql_amap X t = update_alert i (\<lambda>a. a\<lparr>al_status := status_of_decision d\<rparr>) (sql_amap X s)
          \<and> sql_decs X t = sql_decs X s @ [rec] \<and> decides rec i who d rationale
          \<and> sql_log X t = sql_log X s @ [entry_of q]
          \<and> records_event X (alert_event (InvestigatorDecision who d rationale (al_status a)) i (al_tx_id a)) q)
   | (Inl e, t) \<Rightarrow>
       sql_log X t = sql_log X s
       \<and> (sql_amap X s i = None \<longrightarrow> sql_amap X t = sql_amap X s \<and> sql_decs X t = sql_decs X s)
       \<and> (sql_amap X t = sql_amap X s \<and> sql_decs X t = sql_decs X s
          \<or> (\<exists>rec. sql_amap X t = update_alert i (\<lambda>a. a\<lparr>al_status := status_of_decision d\<rparr>) (sql_amap X s)
               \<and> sql_decs X t = sql_decs X s @ [rec] \<and> decides rec i who d rationale))"
proof -
  obtain r t where c: "submit_decision X (sqlite_service X) i who d rationale s = (r, t)"
    by (cases "submit_decision X (sqlite_service X) i who d rationale s")
  from assms c [unfolded sqlite_service_def] show ?thesis
  proof (cases rule: sqlite_review.submit_decision_cases)
    case (not_logged e a rec)
    with c show ?thesis by auto
  next
    case (decided a rec q)
    with c show ?thesis by auto
  qed (simp_all add: c)
qed

text \<open>A database with one open alert.\<close>

definition sample_alert :: alert where
  "sample_alert = opened_alert 77 0 sample_new_alert"

definition sample_alert_row :: alert_row where
  "sample_alert_row = projr (alert_row_of sample_crates sample_alert)"

definition sample_alert_db :: "nat \<Rightarrow> db" where
  "sample_alert_db n = sample_db n\<lparr>db_alerts := [sample_alert_row]\<rparr>"

lemma sample_alert_row: "alert_row_of sample_crates sample_alert = Inr sample_alert_row"
  by (simp add: sample_alert_row_def alert_row_of_def sample_crates_def strings_codec_def rows_codec_def const_codec_def)

lemma sample_alert_db_inv: "sqlite_inv sample_crates (sample_alert_db n)"
  using written_alert_row(1) [OF sample_codecs_ok sample_alert_row] sample_db_inv [of n]
  by (simp add: sqlite_inv_def sql_audit_inv_def sql_alert_inv_def sql_log_def sample_alert_db_def sample_db_def)

lemma sample_alert_present: "sql_amap sample_crates (sample_alert_db n) 77 = Some (stored_alert sample_crates sample_alert)"
  using written_alert_row(2,3) [OF sample_codecs_ok sample_alert_row]
  by (simp add: sql_amap_def sample_alert_db_def sample_alert_def opened_alert_def)

lemma sample_alert_db_empty:
  "sql_log sample_crates (sample_alert_db n) = []" "sql_decs sample_crates (sample_alert_db n) = []"
  by (simp_all add: sql_log_def sql_decs_def sample_alert_db_def sample_db_def)

theorem submit_decision_outcomes_witness:
  "case submit_decision sample_crates (sqlite_service sample_crates) 77 ''inv-1'' decision.Escalated ''reason'' (sample_alert_db 9) of
     (Inr rec, t) \<Rightarrow> sql_decs sample_crates t = [rec]
   | (Inl e, t) \<Rightarrow> sql_log sample_crates t = []"
  using submit_decision_outcomes [OF sample_alert_db_inv [of 9], where i = 77 and who = "''inv-1''" and d = decision.Escalated
      and rationale = "''reason''"]
  by (auto simp: sample_alert_db_empty split: prod.splits sum.splits)


text \<open>
  C11: In every state that the service's operations can reach, in any order and with any database
  faults, from a database with no alerts and no decisions: the status of an alert is \<open>Open\<close> if no
  decision was recorded for it and otherwise the one of its last decision, every decision belongs
  to an existing alert, and the log verifies and only ever grew.
\<close>
theorem status_is_projection:
  assumes "sqlite_inv X s" "db_alerts s = []" "db_decisions s = []"
    and "(review_step X (sqlite_service X))\<^sup>*\<^sup>* s t"
  shows "(\<forall>i a. sql_amap X t i = Some a \<longrightarrow> al_status a = status_after (decisions_for i (sql_decs X t)))
    \<and> (\<forall>d \<in> set (sql_decs X t). sql_amap X t (dr_alert_id d) \<noteq> None)
    \<and> linked X (sql_log X t) \<and> prefix (sql_log X s) (sql_log X t)"
proof -
  have "status_projected (sql_amap X s) (sql_decs X s)"
    using assms(2,3) by (simp add: status_projected_def sql_amap_def sql_decs_def)
  from sqlite_review.reachable_review [OF assms(4) [unfolded sqlite_service_def] assms(1) this]
  show ?thesis using sqlite_review.log_linked [of X t] by (simp add: status_projected_def)
qed

theorem status_is_projection_witness:
  "linked sample_crates (sql_log sample_crates (snd (create_alert (sqlite_service sample_crates) sample_new_alert (sample_db 9))))"
proof -
  have "(review_step sample_crates (sqlite_service sample_crates))\<^sup>*\<^sup>* (sample_db 9)
      (snd (create_alert (sqlite_service sample_crates) sample_new_alert (sample_db 9)))"
    by (intro r_into_rtranclp quiet step_create) (rule surjective_pairing)
  from status_is_projection [OF sample_db_inv _ _ this] show ?thesis by (simp add: sample_db_def)
qed

text \<open>
  Only \<open>submit_decision\<close> changes the status of an alert: every other operation of the service,
  with any outcome, keeps the status of every existing alert and every recorded decision; the only
  new alerts are open ones.
\<close>
theorem only_decisions_change_status:
  assumes "sqlite_inv X s" and "quiet_step (sqlite_service X) s t"
  shows "sql_decs X t = sql_decs X s
    \<and> (\<forall>i. case sql_amap X s i of
          Some a \<Rightarrow> (\<exists>b. sql_amap X t i = Some b \<and> al_status b = al_status a)
        | None \<Rightarrow> (\<forall>b. sql_amap X t i = Some b \<longrightarrow> al_status b = Open))"
proof -
  have q: "sql_decs X t = sql_decs X s" "statuses_extend (sql_amap X s) (sql_amap X t)"
    using sqlite_review.quiet_step_effect [OF assms(1) assms(2) [unfolded sqlite_service_def]] by simp_all
  moreover have "case sql_amap X s i of
          Some a \<Rightarrow> (\<exists>b. sql_amap X t i = Some b \<and> al_status b = al_status a)
        | None \<Rightarrow> (\<forall>b. sql_amap X t i = Some b \<longrightarrow> al_status b = Open)" for i
    using q(2) by (auto simp: statuses_extend_def split: option.split dest: spec [of _ i])
  ultimately show ?thesis by blast
qed

theorem only_decisions_change_status_witness:
  "sql_decs sample_crates (snd (create_alert (sqlite_service sample_crates) sample_new_alert (sample_db 1))) =
   sql_decs sample_crates (sample_db 1)"
proof -
  have "quiet_step (sqlite_service sample_crates) (sample_db 1)
      (snd (create_alert (sqlite_service sample_crates) sample_new_alert (sample_db 1)))"
    by (intro step_create) (rule surjective_pairing)
  from only_decisions_change_status [OF sample_db_inv this] show ?thesis by simp
qed

end
