(* ===== verification/RepoProps.thy ===== *)
theory RepoProps
  imports Repos ReviewProps
begin

text \<open>
  What the repositories promise: a saved transaction is read back exactly, the account history is
  the one of the stored transactions in its two windows, flagged accounts, cursors, dead letters
  and investigators are found again.
\<close>

definition tx_row_ok :: "crates \<Rightarrow> tx_row \<Rightarrow> bool" where
  "tx_row_ok X r \<longleftrightarrow> (\<exists>t. row_to_tx X r = Inr t \<and> txr_created_at r = cr_rfc3339 X (tx_created_at t))"

definition read_tx :: "crates \<Rightarrow> tx_row \<Rightarrow> normalized_transaction" where
  "read_tx X r = projr (row_to_tx X r)"

text \<open>The stored transactions, and when the table is sound.\<close>

definition sql_txs :: "crates \<Rightarrow> 'a db_scheme \<Rightarrow> normalized_transaction list" where
  "sql_txs X s = map (read_tx X) (db_transactions s)"

definition sql_tx_inv :: "crates \<Rightarrow> 'a db_scheme \<Rightarrow> bool" where
  "sql_tx_inv X s \<longleftrightarrow> codecs_ok X \<and> list_all (tx_row_ok X) (db_transactions s)"

lemma row_to_tx_ok: "tx_row_ok X r \<Longrightarrow> row_to_tx X r = Inr (read_tx X r)"
  by (auto simp: tx_row_ok_def read_tx_def)

lemma row_to_tx_fields:
  "row_to_tx X r = Inr t \<Longrightarrow> tx_id t = txr_tx_id r \<and> tx_source_account t = txr_source_account r"
  by (auto simp: row_to_tx_def res_bind_Inr_iff)

lemma read_tx_fields:
  assumes "tx_row_ok X r"
  shows "tx_id (read_tx X r) = txr_tx_id r" "tx_source_account (read_tx X r) = txr_source_account r"
    "txr_created_at r = cr_rfc3339 X (tx_created_at (read_tx X r))"
  using assms row_to_tx_fields [OF row_to_tx_ok [OF assms]] by (auto simp: tx_row_ok_def read_tx_def)

lemma written_tx_row:
  assumes "codecs_ok X" "tx_row_of X t = Inr row"
  shows "tx_row_ok X (row now)" "read_tx X (row now) = t" "txr_tx_id (row now) = tx_id t"
proof -
  have e: "codec_exact (cr_movements X)" "codec_exact (cr_strings X)" using assms(1) by (simp_all add: codecs_ok_def)
  obtain t1 where t1: "to_text (cr_movements X) (tx_movements t) = Inr t1" "of_text (cr_movements X) t1 = Inr (tx_movements t)"
    using codec_exactE [OF e(1)] by blast
  obtain t2 where t2: "to_text (cr_strings X) (tx_contract_ids t) = Inr t2" "of_text (cr_strings X) t2 = Inr (tx_contract_ids t)"
    using codec_exactE [OF e(2)] by blast
  have "row_to_tx X (row now) = Inr t" and c: "txr_created_at (row now) = cr_rfc3339 X (tx_created_at t)"
    using assms t1 t2 by (auto simp: tx_row_of_def row_to_tx_def codecs_time)
  then show "tx_row_ok X (row now)" "read_tx X (row now) = t" by (auto simp: tx_row_ok_def read_tx_def)
  show "txr_tx_id (row now) = tx_id t" using assms(2) by (auto simp: tx_row_of_def res_bind_Inr_iff)
qed

lemma find_map_read:
  "list_all (tx_row_ok X) rows \<Longrightarrow>
   map_option (read_tx X) (find (\<lambda>r. txr_tx_id r = i) rows) = find (\<lambda>t. tx_id t = i) (map (read_tx X) rows)"
  by (induction rows) (auto simp: read_tx_fields)

lemma tx_get_result:
  assumes "sql_tx_inv X s" "tx_get X i s = (r, t)"
  shows "only_env_changed s t" "r = Inr found \<Longrightarrow> found = find (\<lambda>t. tx_id t = i) (sql_txs X s)"
proof -
  note q = read_effect [OF assms(2) [unfolded tx_get_def]]
  show "only_env_changed s t" by (rule q(1))
  have db: "db_transactions t = db_transactions s" using q(1) only_env_tables by blast
  show "found = find (\<lambda>t. tx_id t = i) (sql_txs X s)" if "r = Inr found"
  proof (cases "find (\<lambda>r. txr_tx_id r = i) (db_transactions s)")
    case None
    then show ?thesis using q(2) [OF that] db find_map_read [of X "db_transactions s" i] assms(1)
      by (simp add: sql_txs_def sql_tx_inv_def)
  next
    case (Some row)
    then have "tx_row_ok X row" using assms(1) find_ok [of "tx_row_ok X"] by (auto simp: sql_tx_inv_def)
    with Some show ?thesis using q(2) [OF that] db find_map_read [of X "db_transactions s" i] assms(1) row_to_tx_ok
      by (simp add: sql_txs_def sql_tx_inv_def)
  qed
qed

lemma tx_save_result:
  assumes "sql_tx_inv X s" "tx_save X x s = (r, t)"
  shows "sql_tx_inv X t \<and> (case r of Inl e \<Rightarrow> only_env_changed s t
    | Inr u \<Rightarrow> sql_txs X t = (if tx_id x \<in> tx_id ` set (sql_txs X s) then sql_txs X s else sql_txs X s @ [x]))"
proof -
  have c: "codecs_ok X" using assms(1) by (simp add: sql_tx_inv_def)
  have ids: "txr_tx_id ` set (db_transactions s) = tx_id ` set (sql_txs X s)"
    using assms(1) by (force simp: sql_txs_def sql_tx_inv_def list_all_iff read_tx_fields image_image)
  consider (bad) e where "r = Inl e" "only_env_changed s t"
    | (good) row where "r = Inr ()" "tx_row_of X x = Inr row"
        "insert_tx_row (row (cr_rfc3339 X (env_clock s (env_ticks s))))
           (s\<lparr>env_ticks := Suc (env_ticks s), env_calls := Suc (env_calls s)\<rparr>) = Inr t"
    using assms(2) unfolding tx_save_def
    by (auto simp: only_env_changed_def utc_now_def elim!: and_then_cases map_err_act_cases execute_cases)
  then show ?thesis
  proof cases
    case bad
    then show ?thesis using assms(1) only_env_tables [of s t] by (simp add: sql_tx_inv_def)
  next
    case good
    let ?now = "cr_rfc3339 X (env_clock s (env_ticks s))"
    let ?u = "s\<lparr>env_ticks := Suc (env_ticks s), env_calls := Suc (env_calls s)\<rparr>"
    note w = written_tx_row [OF c good(2), of ?now]
    show ?thesis
    proof (cases "tx_id x \<in> tx_id ` set (sql_txs X s)")
      case True
      then have "t = ?u" using good(3) w(3) ids by (simp add: insert_tx_row_def)
      with True good(1) assms(1) show ?thesis by (simp add: sql_tx_inv_def sql_txs_def)
    next
      case False
      then have "t = ?u\<lparr>db_transactions := db_transactions s @ [row ?now]\<rparr>"
        using good(3) w(3) ids by (simp add: insert_tx_row_def)
      with False good(1) w assms(1) show ?thesis by (simp add: sql_tx_inv_def sql_txs_def)
    qed
  qed
qed

text \<open>
  C33: A transaction is stored once and read back exactly, with its 32-bit counters, amounts and
  timestamp: after a successful \<open>save\<close>, \<open>get\<close> returns the transaction itself, or the earlier one
  stored under the same identifier, which is never overwritten.
\<close>
theorem tx_save_get:
  assumes "sql_tx_inv X s" and "tx_save X x s = (Inr u, t)" and "tx_get X (tx_id x) t = (Inr found, v)"
  shows "found = Some (case find (\<lambda>y. tx_id y = tx_id x) (sql_txs X s) of Some old \<Rightarrow> old | None \<Rightarrow> x)"
proof -
  have "sql_tx_inv X t" and t: "sql_txs X t = (if tx_id x \<in> tx_id ` set (sql_txs X s) then sql_txs X s else sql_txs X s @ [x])"
    using tx_save_result [OF assms(1,2)] by simp_all
  then have "found = find (\<lambda>y. tx_id y = tx_id x) (sql_txs X t)" using tx_get_result(2) [OF _ assms(3) refl] by blast
  moreover have "find (\<lambda>y. tx_id y = tx_id x) (sql_txs X s) = None \<longleftrightarrow> tx_id x \<notin> tx_id ` set (sql_txs X s)"
    by (force simp: find_None_iff image_iff)
  ultimately show ?thesis by (auto simp: t find_snoc split: option.split)
qed

lemma sample_tx_inv: "sql_tx_inv sample_crates (sample_db n)"
  using sample_codecs_ok by (simp add: sql_tx_inv_def sample_db_def)

lemma sample_saved: "\<exists>u. tx_save sample_crates sample_tx (sample_db 9) = (Inr (), u)"
  by (simp add: tx_save_def tx_row_of_def sample_crates_def strings_codec_def rows_codec_def execute_def
      and_then_def map_err_act_def utc_now_def sql_call_def sample_db_def insert_tx_row_def)

theorem tx_save_get_witness:
  "\<exists>t (v :: db). tx_get sample_crates ''tx-1'' t = (Inr (Some sample_tx), v)"
proof -
  obtain t where t: "tx_save sample_crates sample_tx (sample_db 9) = (Inr (), t)" using sample_saved by blast
  have n: "tx_id sample_tx = ''tx-1''" by (simp add: sample_tx_def)
  have "env_faults t (env_calls t) = None"
    using t by (auto simp: tx_save_def tx_row_of_def sample_crates_def strings_codec_def rows_codec_def execute_def
      and_then_def map_err_act_def utc_now_def sql_call_def sample_db_def insert_tx_row_def)
  moreover have "sql_tx_inv sample_crates t" using tx_save_result [OF sample_tx_inv t] by simp
  ultimately obtain found v where g: "tx_get sample_crates ''tx-1'' t = (Inr found, v)"
    using find_ok [of "tx_row_ok sample_crates" "db_transactions t"] row_to_tx_ok
    by (cases "find (\<lambda>r. txr_tx_id r = ''tx-1'') (db_transactions t)")
      (auto simp: tx_get_def query_def sql_call_def and_then_def map_err_act_def transpose_opt_def sql_tx_inv_def)
  have "found = Some sample_tx"
    using tx_save_get [OF sample_tx_inv t, unfolded n, OF g] by (simp add: sql_txs_def sample_db_def)
  with g show ?thesis by blast
qed

section \<open>Account history\<close>

text \<open>The stored transactions of an account between two instants.\<close>

definition window_txs ::
  "account_id \<Rightarrow> datetime \<Rightarrow> datetime \<Rightarrow> normalized_transaction list \<Rightarrow> normalized_transaction list" where
  "window_txs account lo hi txs =
     filter (\<lambda>t. tx_source_account t = account \<and> lo \<le> tx_created_at t \<and> tx_created_at t \<le> hi) txs"

lemma recent_loop_ok:
  "list_all (tx_row_ok X) rows \<Longrightarrow>
   recent_loop X account rows recent known =
     Inr (recent @ concat (map (recent_of_tx account) (map (read_tx X) rows)),
          known \<union> \<Union> (asset_keys_of_tx ` set (map (read_tx X) rows)))"
  by (induction rows arbitrary: recent known) (auto simp: row_to_tx_ok)

lemma known_loop_ok:
  "list_all (tx_row_ok X) rows \<Longrightarrow>
   known_loop X rows known = Inr (known \<union> \<Union> (asset_keys_of_tx ` set (map (read_tx X) rows)))"
  by (induction rows arbitrary: known) (auto simp: row_to_tx_ok)

text \<open>Every instant involved has a four-digit year, so that text order is time order.\<close>

definition times_ok :: "crates \<Rightarrow> 'a db_scheme \<Rightarrow> datetime list \<Rightarrow> bool" where
  "times_ok X s ts \<longleftrightarrow>
     rfc3339_ordered X \<and> list_all four_digit_year ts \<and> list_all (\<lambda>t. four_digit_year (tx_created_at t)) (sql_txs X s)"

lemma select_window_txs:
  assumes "sql_tx_inv X s" "times_ok X s [lo, hi]"
  shows "map (read_tx X) (select_window account (cr_rfc3339 X lo) (cr_rfc3339 X hi) (db_transactions s)) =
    window_txs account lo hi (sql_txs X s)"
proof -
  have "filter (\<lambda>r. txr_source_account r = account \<and> cr_rfc3339 X lo \<le> txr_created_at r \<and> txr_created_at r \<le> cr_rfc3339 X hi) (db_transactions s)
    = filter (\<lambda>r. tx_source_account (read_tx X r) = account \<and> lo \<le> tx_created_at (read_tx X r) \<and> tx_created_at (read_tx X r) \<le> hi) (db_transactions s)"
  proof (rule filter_cong [OF refl])
    fix r assume "r \<in> set (db_transactions s)"
    then have r: "tx_row_ok X r" "four_digit_year (tx_created_at (read_tx X r))"
      using assms by (auto simp: sql_tx_inv_def times_ok_def sql_txs_def list_all_iff)
    moreover have "four_digit_year lo" "four_digit_year hi" "rfc3339_ordered X" using assms(2) by (simp_all add: times_ok_def)
    ultimately show "(txr_source_account r = account \<and> cr_rfc3339 X lo \<le> txr_created_at r \<and> txr_created_at r \<le> cr_rfc3339 X hi)
      = (tx_source_account (read_tx X r) = account \<and> lo \<le> tx_created_at (read_tx X r) \<and> tx_created_at (read_tx X r) \<le> hi)"
      by (simp add: read_tx_fields rfc3339_ordered_def)
  qed
  then show ?thesis by (simp add: select_window_def window_txs_def sql_txs_def filter_map o_def)
qed

lemma select_window_ok: "sql_tx_inv X s \<Longrightarrow> list_all (tx_row_ok X) (select_window account lo hi (db_transactions s))"
  by (auto simp: sql_tx_inv_def select_window_def list_all_iff)

lemma set_desc_ok: "list_all P rows \<Longrightarrow> list_all P (sort_desc_key f rows)"
  by (simp add: list_all_iff)

lemma build_account_history_result:
  assumes "sql_tx_inv X s" "build_account_history X account as_of lookback window s = (r, t)"
  defines "rec_rows \<equiv> sort_desc_key txr_created_at
      (select_window account (cr_rfc3339 X (as_of - lookback)) (cr_rfc3339 X as_of) (db_transactions s))"
    and "base_rows \<equiv> select_window account (cr_rfc3339 X (as_of - window)) (cr_rfc3339 X as_of) (db_transactions s)"
  shows "only_env_changed s t \<and> (case r of Inl e \<Rightarrow> \<exists>m. e = DomStorage m
    | Inr h \<Rightarrow> h = \<lparr>ah_account = account, ah_recent_transactions = concat (map (recent_of_tx account) (map (read_tx X) rec_rows)),
        ah_baseline_tx_per_hour = baseline_rate (length base_rows) window, ah_baseline_observations = length base_rows,
        ah_known_assets = \<Union> (asset_keys_of_tx ` set (map (read_tx X) rec_rows)) \<union> \<Union> (asset_keys_of_tx ` set (map (read_tx X) base_rows))\<rparr>)"
proof -
  have ok: "list_all (tx_row_ok X) rec_rows" "list_all (tx_row_ok X) base_rows"
    unfolding rec_rows_def base_rows_def using select_window_ok [OF assms(1)] set_desc_ok by blast+
  show ?thesis
    using assms(2) recent_loop_ok [OF ok(1), of account "[]" "{}"] known_loop_ok [OF ok(2)]
    unfolding build_account_history_def Let_def rec_rows_def base_rows_def
    by (auto simp: only_env_calls map_sqlx_def elim!: and_then_cases map_err_act_cases query_cases)
qed

text \<open>
  C28: The history handed to the rules is the one of the stored transactions of the account up to
  the given instant: one recent entry per movement of each transaction in the lookback window, the
  number of transactions in the baseline window and the rate derived from it, and the assets of
  both windows. Building it changes nothing, and the only error is a failing database.
\<close>
theorem account_history_exact:
  assumes "sql_tx_inv X s" and "times_ok X s [as_of - lookback, as_of - window, as_of]"
  shows "case build_account_history X account as_of lookback window s of
     (r, t) \<Rightarrow> only_env_changed s t \<and>
     (case r of Inl e \<Rightarrow> \<exists>m. e = DomStorage m
      | Inr h \<Rightarrow>
         let recent = window_txs account (as_of - lookback) as_of (sql_txs X s);
             base = window_txs account (as_of - window) as_of (sql_txs X s) in
         ah_account h = account
         \<and> mset (ah_recent_transactions h) = mset (concat (map (recent_of_tx account) recent))
         \<and> ah_baseline_observations h = length base
         \<and> ah_baseline_tx_per_hour h = baseline_rate (length base) window
         \<and> ah_known_assets h = \<Union> (asset_keys_of_tx ` (set recent \<union> set base)))"
proof -
  obtain r t where b: "build_account_history X account as_of lookback window s = (r, t)"
    by (cases "build_account_history X account as_of lookback window s")
  let ?w = "\<lambda>d. select_window account (cr_rfc3339 X (as_of - d)) (cr_rfc3339 X as_of) (db_transactions s)"
  have w: "map (read_tx X) (?w lookback) = window_txs account (as_of - lookback) as_of (sql_txs X s)"
    "map (read_tx X) (?w window) = window_txs account (as_of - window) as_of (sql_txs X s)"
    using assms by (auto simp: times_ok_def intro!: select_window_txs)
  have m: "mset (concat (map g (map (read_tx X) (sort_desc_key txr_created_at rows)))) = mset (concat (map g (map (read_tx X) rows)))"
    for rows and g :: "normalized_transaction \<Rightarrow> recent_transaction list"
    by (simp add: mset_concat sort_desc_key_def mset_map flip: sum_mset_sum_list)
  have len: "length (?w window) = length (window_txs account (as_of - window) as_of (sql_txs X s))"
    using w(2) by (metis length_map)
  have sets: "set (map (read_tx X) (sort_desc_key txr_created_at (?w lookback))) = set (window_txs account (as_of - lookback) as_of (sql_txs X s))"
    using w(1) by (metis set_sort_desc_key set_map)
  from build_account_history_result [OF assms(1) b] show ?thesis
    by (cases r) (simp_all only: b prod.case sum.case Let_def m w len sets account_history.simps image_Un Union_Un_distrib simp_thms)
qed

definition sample_tx_db :: db where
  "sample_tx_db = snd (tx_save sample_crates sample_tx (sample_db 9))"

lemma sample_tx_db: "sql_tx_inv sample_crates sample_tx_db" "sql_txs sample_crates sample_tx_db = [sample_tx]"
proof -
  obtain t where t: "tx_save sample_crates sample_tx (sample_db 9) = (Inr (), t)" using sample_saved by blast
  then show "sql_tx_inv sample_crates sample_tx_db" "sql_txs sample_crates sample_tx_db = [sample_tx]"
    using tx_save_result [OF sample_tx_inv t] by (simp_all add: sample_tx_db_def sql_txs_def sample_db_def)
qed

theorem account_history_exact_witness:
  "case build_account_history sample_crates ''GALICE'' (seconds 1060) (seconds 60) (seconds 600) sample_tx_db of
     (r, t) \<Rightarrow> only_env_changed sample_tx_db t \<and>
     (case r of Inl e \<Rightarrow> \<exists>m. e = DomStorage m
      | Inr h \<Rightarrow> ah_baseline_observations h = 1 \<and> ah_known_assets h = {''native''})"
proof -
  have "times_ok sample_crates sample_tx_db [seconds 1060 - seconds 60, seconds 1060 - seconds 600, seconds 1060]"
    using sample_rfc3339_ordered
    by (simp add: times_ok_def sample_tx_db four_digit_year_def seconds_def sample_tx_def)
  from account_history_exact [OF sample_tx_db(1) this, of "''GALICE''"] show ?thesis
    by (auto simp: Let_def sample_tx_db window_txs_def sample_tx_def sample_movement_def asset_keys_of_tx_def
        asset_key_def asset_native_def seconds_def split: prod.splits sum.splits)
qed

section \<open>Flagged accounts, cursors, dead letters, investigators\<close>

lemma upsert_flagged_accounts:
  "upsert_flagged row s = Inr t \<Longrightarrow>
   flr_account_id ` set (db_flagged t) = insert (flr_account_id row) (flr_account_id ` set (db_flagged s))"
proof -
  have "set (map flr_account_id (update_where P (\<lambda>r. r\<lparr>flr_reason := x\<rparr>) rows)) = set (map flr_account_id rows)" for P x rows
    by (subst map_update_where) simp_all
  then have k: "flr_account_id ` set (update_where P (\<lambda>r. r\<lparr>flr_reason := x\<rparr>) rows) = flr_account_id ` set rows" for P x rows
    by simp
  assume u: "upsert_flagged row s = Inr t"
  show ?thesis
  proof (cases "flr_account_id row \<in> flr_account_id ` set (db_flagged s)")
    case True
    then have "t = s\<lparr>db_flagged := update_where (\<lambda>r. flr_account_id r = flr_account_id row)
        (\<lambda>r. r\<lparr>flr_reason := flr_reason row\<rparr>) (db_flagged s)\<rparr>"
      using u by (simp add: upsert_flagged_def)
    with True show ?thesis by (simp add: k insert_absorb)
  next
    case False
    then have "t = s\<lparr>db_flagged := db_flagged s @ [row]\<rparr>" using u by (simp add: upsert_flagged_def)
    then show ?thesis by simp
  qed
qed

lemma flagged_all_result:
  "flagged_all s = (r, t) \<Longrightarrow> only_env_changed s t \<and> (\<forall>as. r = Inr as \<longrightarrow> as = flr_account_id ` set (db_flagged s))"
  unfolding flagged_all_def by (auto simp: only_env_calls elim!: map_err_act_cases query_cases)

text \<open>
  Flagging accounts. After a successful \<open>add\<close> the set of flagged accounts is the old one and
  the new account, whether or not it was flagged before (then only the reason is replaced); a
  failed \<open>add\<close> changes nothing.
\<close>
theorem flagged_add_all:
  "case flagged_add X account reason added_by s of
     (Inl e, t) \<Rightarrow> only_env_changed s t
   | (Inr u, t) \<Rightarrow>
       (case flagged_all t of (Inl e, v) \<Rightarrow> True
        | (Inr accounts, v) \<Rightarrow> accounts = insert account (flr_account_id ` set (db_flagged s)))"
proof -
  obtain r t where a: "flagged_add X account reason added_by s = (r, t)" by (cases "flagged_add X account reason added_by s")
  let ?s = "s\<lparr>env_ticks := Suc (env_ticks s), env_calls := Suc (env_calls s)\<rparr>"
  let ?row = "\<lparr>flr_account_id = account, flr_reason = reason, flr_added_by = added_by,
      flr_created_at = cr_rfc3339 X (env_clock s (env_ticks s))\<rparr>"
  consider (bad) e where "r = Inl e" "only_env_changed s t" | (good) "r = Inr ()" "upsert_flagged ?row ?s = Inr t"
    using a unfolding flagged_add_def
    by (auto simp: only_env_changed_def elim!: map_err_act_cases execute_cases)
  then show ?thesis
  proof cases
    case good
    then show ?thesis using upsert_flagged_accounts [OF good(2)] flagged_all_result [of t]
      by (auto simp: a split: prod.split sum.split)
  qed (simp add: a)
qed

lemma find_update_where_same:
  "\<exists>r \<in> set rows. k r = i \<Longrightarrow> (\<And>r. k (f r) = k r) \<Longrightarrow>
   \<exists>r. find (\<lambda>r. k r = i) (update_where (\<lambda>r. k r = i) f rows) = Some (f r)"
  by (induction rows) (auto simp: update_where_def)

lemma set_cursor_result:
  assumes "set_cursor X source cursor s = (Inr u, t)"
  shows "map_option cur_cursor (find (\<lambda>r. cur_source r = src) (db_cursors t)) =
    (if src = source then Some cursor else map_option cur_cursor (find (\<lambda>r. cur_source r = src) (db_cursors s)))"
proof -
  let ?row = "\<lparr>cur_source = source, cur_cursor = cursor, cur_updated_at = cr_rfc3339 X (env_clock s (env_ticks s))\<rparr>"
  have up: "upsert_cursor ?row (s\<lparr>env_ticks := Suc (env_ticks s), env_calls := Suc (env_calls s)\<rparr>) = Inr t"
    using assms unfolding set_cursor_def by (auto elim!: map_err_act_cases execute_cases)
  let ?f = "\<lambda>r. r\<lparr>cur_cursor := cursor, cur_updated_at := cur_updated_at ?row\<rparr>"
  show ?thesis
  proof (cases "source \<in> cur_source ` set (db_cursors s)")
    case True
    then have t: "db_cursors t = update_where (\<lambda>r. cur_source r = source) ?f (db_cursors s)"
      using up by (auto simp: upsert_cursor_def)
    have fw: "find (\<lambda>r. cur_source r = src) (db_cursors t) =
        map_option (\<lambda>r. if cur_source r = source then ?f r else r) (find (\<lambda>r. cur_source r = src) (db_cursors s))"
      unfolding t by (rule find_update_where) simp
    show ?thesis
    proof (cases "src = source")
      case True
      then obtain r where "find (\<lambda>r. cur_source r = src) (db_cursors s) = Some r" "cur_source r = source"
        using \<open>source \<in> cur_source ` set (db_cursors s)\<close>
        by (cases "find (\<lambda>r. cur_source r = src) (db_cursors s)") (auto simp: find_None_iff find_Some_iff)
      with fw True show ?thesis by simp
    next
      case False
      show ?thesis
      proof (cases "find (\<lambda>r. cur_source r = src) (db_cursors s)")
        case (Some r)
        then have "cur_source r = src" by (auto simp: find_Some_iff)
        with Some fw False show ?thesis by simp
      qed (use fw False in simp)
    qed
  next
    case False
    then have t: "db_cursors t = db_cursors s @ [?row]" using up by (auto simp: upsert_cursor_def)
    have "find (\<lambda>r. cur_source r = source) (db_cursors s) = None" using False by (auto simp: find_None_iff)
    then show ?thesis by (auto simp: t find_snoc split: option.split)
  qed
qed

text \<open>
  Cursors are kept per source: after a successful \<open>set_cursor\<close>, \<open>get_cursor\<close> returns the new
  cursor for that source and for every other source what it returned before.
\<close>
theorem cursor_per_source:
  assumes "set_cursor X source cursor s = (Inr u, t)" and "get_cursor src t = (Inr c, v)"
  shows "c = (if src = source then Some cursor else map_option cur_cursor (find (\<lambda>r. cur_source r = src) (db_cursors s)))"
  using set_cursor_result [OF assms(1), of src] assms(2)
  by (auto simp: get_cursor_def elim!: map_err_act_cases query_cases)

theorem cursor_per_source_witness:
  "case set_cursor sample_crates ''mock'' ''10'' (sample_db 9) of
     (r, t) \<Rightarrow> r = Inr () \<and> fst (get_cursor ''mock'' t) = Inr (Some ''10'')"
proof -
  obtain t where t: "set_cursor sample_crates ''mock'' ''10'' (sample_db 9) = (Inr (), t)"
    and f: "env_faults t (env_calls t) = None"
    by (simp add: set_cursor_def execute_def utc_now_def and_then_def map_err_act_def sql_call_def sample_db_def upsert_cursor_def)
  from f obtain c v where g: "get_cursor ''mock'' t = (Inr c, v)"
    by (simp add: get_cursor_def query_def and_then_def map_err_act_def sql_call_def)
  show ?thesis using cursor_per_source [OF t g] t g by simp
qed

text \<open>The one query each of \<open>create\<close> and \<open>find_by_username\<close> runs.\<close>

lemma investigator_create_result:
  assumes "investigator_create X name hash role s = (r, t)"
  shows "case r of
      Inl e \<Rightarrow> only_env_changed s t
    | Inr i \<Rightarrow> (\<exists>row. db_investigators t = db_investigators s @ [row] \<and> name \<notin> inr_username ` set (db_investigators s)
        \<and> row_to_investigator row = Inr \<lparr>iw_investigator = i, iw_password_hash = hash\<rparr> \<and> inr_username row = name)
        \<and> inv_username i = name \<and> inv_role i = role"
  using assms unfolding investigator_create_def
  by (auto simp: only_env_changed_def insert_investigator_def row_to_investigator_def split: if_splits
      elim!: and_then_cases map_err_act_cases execute_cases)

text \<open>
  An investigator can only be created under a name that is not taken, and is then found under
  that name with the role and password hash it was created with; other names are found as before.
\<close>
theorem investigator_create_find:
  assumes "investigator_create X name hash role s = (Inr i, t)" and "find_by_username other t = (Inr found, v)"
  shows "name \<notin> inr_username ` set (db_investigators s) \<and> inv_username i = name \<and> inv_role i = role
    \<and> (if other = name then found = Some \<lparr>iw_investigator = i, iw_password_hash = hash\<rparr>
       else transpose_opt row_to_investigator (find (\<lambda>r. inr_username r = other) (db_investigators s)) = Inr found)"
proof -
  obtain row where row: "db_investigators t = db_investigators s @ [row]" "name \<notin> inr_username ` set (db_investigators s)"
      "row_to_investigator row = Inr \<lparr>iw_investigator = i, iw_password_hash = hash\<rparr>" "inr_username row = name"
    and i: "inv_username i = name" "inv_role i = role"
    using investigator_create_result [OF assms(1)] by auto
  note f = read_effect [OF assms(2) [unfolded find_by_username_def]]
  have "db_investigators v = db_investigators t" using only_env_tables [OF f(1)] by simp
  then have q: "transpose_opt row_to_investigator (find (\<lambda>r. inr_username r = other) (db_investigators s @ [row])) = Inr found"
    using f(2) [OF refl] row(1) by simp
  have "find (\<lambda>r. inr_username r = name) (db_investigators s) = None" using row(2) by (auto simp: find_None_iff)
  then show ?thesis using q row(2-4) i
    by (cases "find (\<lambda>r. inr_username r = other) (db_investigators s)") (auto simp: find_snoc split: if_splits)
qed

theorem investigator_create_find_witness:
  "case investigator_create sample_crates ''ana'' ''hash'' Admin (sample_db 9) of
     (Inl e, t) \<Rightarrow> False
   | (Inr i, t) \<Rightarrow> fst (find_by_username ''ana'' t) = Inr (Some \<lparr>iw_investigator = i, iw_password_hash = ''hash''\<rparr>)"
proof -
  obtain i t where t: "investigator_create sample_crates ''ana'' ''hash'' Admin (sample_db 9) = (Inr i, t)"
    and f: "env_faults t (env_calls t) = None"
    by (simp add: investigator_create_def execute_def and_then_def map_err_act_def sql_call_def sample_db_def
        utc_now_def new_uuid_def
        insert_investigator_def)
  have "\<exists>found v. find_by_username ''ana'' t = (Inr found, v)"
    using investigator_create_result [OF t] f
    by (auto simp: find_by_username_def query_def and_then_def map_err_act_def sql_call_def transpose_opt_def
        find_snoc sample_db_def split: option.splits sum.splits)
  then obtain found v where g: "find_by_username ''ana'' t = (Inr found, v)" by blast
  show ?thesis using investigator_create_find [OF t g] t g by simp
qed

end
