(* ===== verification/Effects.thy ===== *)
theory Effects
  imports AiAdvisor Anchor ReviewProps RepoProps
begin

text \<open>
  What the operations on the SQLite stores leave alone, as preorders on the state that compose along
  the control flow (\<open>preserves\<close>, \<open>state_preorder\<close>): the review, the dead letters, everything but
  the AI status of one alert. The locale \<open>outside_call\<close> is what the server relies on about the AI
  provider and the anchoring tool.
\<close>

section \<open>What operations leave alone\<close>

text \<open>The review is untouched: decisions stay, statuses stay, new alerts are open, the log grows.\<close>

definition quiet_effect :: "crates \<Rightarrow> 'a db_scheme \<Rightarrow> 'a db_scheme \<Rightarrow> bool" where
  "quiet_effect X s t \<longleftrightarrow> (sqlite_inv X s \<longrightarrow>
     sqlite_inv X t \<and> sql_decs X t = sql_decs X s \<and> statuses_extend (sql_amap X s) (sql_amap X t)
     \<and> prefix (sql_log X s) (sql_log X t))"

text \<open>Nothing that dead letters depend on changes. Time goes on along the same clock, identifiers are drawn from the same source.\<close>

definition same_oracles :: "'a db_scheme \<Rightarrow> 'a db_scheme \<Rightarrow> bool" where
  "same_oracles s t \<longleftrightarrow>
     env_faults t = env_faults s \<and> env_uuid_src t = env_uuid_src s \<and> env_clock t = env_clock s
     \<and> env_uuids s \<le> env_uuids t \<and> env_ticks s \<le> env_ticks t"

definition letters_kept :: "'a db_scheme \<Rightarrow> 'a db_scheme \<Rightarrow> bool" where
  "letters_kept s t \<longleftrightarrow> same_oracles s t \<and> db_dead_letters t = db_dead_letters s"

text \<open>A call out of the process: the AI provider, the command-line tool. It reaches no table.\<close>

definition outside_db :: "'a db_scheme \<Rightarrow> 'a db_scheme \<Rightarrow> bool" where
  "outside_db s t \<longleftrightarrow> same_oracles s t
     \<and> db_audit t = db_audit s \<and> db_alerts t = db_alerts s \<and> db_decisions t = db_decisions s
     \<and> db_transactions t = db_transactions s \<and> db_flagged t = db_flagged s \<and> db_cursors t = db_cursors s
     \<and> db_dead_letters t = db_dead_letters s \<and> db_investigators t = db_investigators s"

lemma statuses_extend_trans: "statuses_extend m m' \<Longrightarrow> statuses_extend m' m'' \<Longrightarrow> statuses_extend m m''"
  unfolding statuses_extend_def by (metis map_option_is_None option.distinct(1))

text \<open>The three tables of the review are as they were.\<close>

definition review_kept :: "'a db_scheme \<Rightarrow> 'a db_scheme \<Rightarrow> bool" where
  "review_kept s t \<longleftrightarrow> db_audit t = db_audit s \<and> db_alerts t = db_alerts s \<and> db_decisions t = db_decisions s"

lemma review_kept_same:
  "review_kept s t \<Longrightarrow> sqlite_inv X t = sqlite_inv X s \<and> sql_log X t = sql_log X s
     \<and> sql_amap X t = sql_amap X s \<and> sql_decs X t = sql_decs X s"
  using sql_log_same [of t s X] sql_alert_same [of t s X] by (simp add: review_kept_def sqlite_inv_def)

lemma quiet_same_tables: "review_kept s t \<Longrightarrow> quiet_effect X s t"
  using review_kept_same [of s t X] by (simp add: quiet_effect_def statuses_extend_same)

interpretation quiet: state_preorder "quiet_effect X" for X
  by unfold_locales
    (auto simp: quiet_effect_def statuses_extend_same intro: statuses_extend_trans prefix_order.order_trans)

interpretation kept: state_preorder review_kept
  by unfold_locales (auto simp: review_kept_def)

interpretation letters: state_preorder letters_kept
  by unfold_locales (auto simp: letters_kept_def same_oracles_def)

lemma outside_keeps: "outside_db s t \<Longrightarrow> letters_kept s t" "outside_db s t \<Longrightarrow> quiet_effect X s t"
  by (auto simp: outside_db_def letters_kept_def review_kept_def intro: quiet_same_tables)

text \<open>The primitive calls.\<close>

lemma letters_env [preserve_rules]:
  "preserves letters_kept utc_now" "preserves letters_kept new_uuid" "preserves letters_kept (query g)"
  by (auto simp: preserves_def letters_kept_def same_oracles_def utc_now_def new_uuid_def elim!: query_cases)

lemma kept_env [preserve_rules]:
  "preserves review_kept utc_now" "preserves review_kept new_uuid" "preserves review_kept (query g)"
  by (auto simp: preserves_def review_kept_def utc_now_def new_uuid_def elim!: query_cases)

lemma letters_execute:
  assumes "\<And>s t. f s = Inr t \<Longrightarrow> letters_kept s t"
  shows "preserves letters_kept (execute f)"
  using assms by (fastforce simp: preserves_def letters_kept_def same_oracles_def elim!: execute_cases)

lemma kept_execute:
  assumes "\<And>s t. f s = Inr t \<Longrightarrow> review_kept s t"
  shows "preserves review_kept (execute f)"
  using assms by (fastforce simp: preserves_def review_kept_def elim!: execute_cases)

text \<open>The statements that write.\<close>

lemma letters_writes [preserve_rules]:
  "preserves letters_kept (execute (insert_tx_row row))"
  "preserves letters_kept (execute (insert_alert_row X arow))"
  "preserves letters_kept (execute (insert_audit_row X urow))"
  "preserves letters_kept (execute (update_ai_status X i json))"
  by (rule letters_execute; auto simp: insert_tx_row_def insert_alert_row_def insert_audit_row_def update_ai_status_def
      letters_kept_def same_oracles_def split: if_splits)+

lemma kept_writes [preserve_rules]:
  "preserves review_kept (execute (insert_tx_row row))"
  "preserves review_kept (execute (upsert_flagged frow))"
  "preserves review_kept (execute (upsert_cursor crow))"
  "preserves review_kept (execute (insert_dead_letter X drow))"
  "preserves review_kept (execute (insert_investigator X irow))"
  by (rule kept_execute; auto simp: insert_tx_row_def upsert_flagged_def upsert_cursor_def insert_dead_letter_def
      insert_investigator_def review_kept_def split: if_splits)+

text \<open>The repositories.\<close>

lemma kept_repos [preserve_rules]:
  "preserves review_kept (tx_save X tx)"
  "preserves review_kept (tx_get X i)"
  "preserves review_kept (tx_list_recent X n)"
  "preserves review_kept (build_account_history X acct as_of lb bw)"
  "preserves review_kept flagged_all"
  "preserves review_kept (flagged_add X acct reason by')"
  "preserves review_kept (get_cursor src)"
  "preserves review_kept (set_cursor X src c)"
  "preserves review_kept (add_dead_letter X src raw e)"
  "preserves review_kept (find_by_username name)"
  "preserves review_kept investigator_count"
  "preserves review_kept (investigator_create X name hash role)"
  unfolding tx_save_def tx_get_def tx_list_recent_def build_account_history_def flagged_all_def flagged_add_def
    get_cursor_def set_cursor_def add_dead_letter_def find_by_username_def investigator_count_def
    investigator_create_def Let_def
  by (intro preserve_rules allI; simp add: case_prod_unfold preserve_rules)+

lemmas quiet_repos [preserve_rules] = kept_repos [THEN preserves_mono, OF quiet_same_tables]

lemma letters_repos [preserve_rules]:
  "preserves letters_kept (tx_save X tx)"
  "preserves letters_kept (build_account_history X acct as_of lb bw)"
  "preserves letters_kept flagged_all"
  unfolding tx_save_def build_account_history_def flagged_all_def Let_def
  by (intro preserve_rules allI; simp add: case_prod_unfold preserve_rules)+

text \<open>The service on the SQLite stores.\<close>

lemma quiet_service_step: "quiet_step (sqlite_service X) s t \<Longrightarrow> quiet_effect X s t"
  using sqlite_review.quiet_step_effect [of X s t] by (simp add: quiet_effect_def sqlite_service_def)

lemma quiet_service [preserve_rules]:
  "preserves (quiet_effect X) (create_alert (sqlite_service X) na)"
  "preserves (quiet_effect X) (get_alert (sqlite_service X) i)"
  "preserves (quiet_effect X) (list_alerts (sqlite_service X) f)"
  "preserves (quiet_effect X) (record_ai_advisory_requested (sqlite_service X) i x p)"
  "preserves (quiet_effect X) (record_ai_advisory (sqlite_service X) i x adv)"
  "preserves (quiet_effect X) (record_ai_unavailable (sqlite_service X) i x reason)"
  "preserves (quiet_effect X) (decision_history (sqlite_service X) i)"
  "preserves (quiet_effect X) (audit_history (sqlite_service X) i)"
  by (rule preservesI, rule quiet_service_step, erule quiet_step.intros)+

lemma letters_stores [preserve_rules]:
  "preserves letters_kept (sqlite_insert X a)"
  "preserves letters_kept (sqlite_set_ai_status X i st)"
  "preserves letters_kept (sqlite_append X ev)"
  unfolding sqlite_insert_def sqlite_set_ai_status_def sqlite_append_def Let_def
  by (intro preserve_rules allI; simp add: preserve_rules)+

lemma letters_service [preserve_rules]:
  "preserves letters_kept (create_alert (sqlite_service X) na)"
  "preserves letters_kept (record_ai_advisory_requested (sqlite_service X) i x p)"
  "preserves letters_kept (record_ai_advisory (sqlite_service X) i x adv)"
  "preserves letters_kept (record_ai_unavailable (sqlite_service X) i x reason)"
  unfolding create_alert_def record_ai_advisory_requested_def record_ai_advisory_def record_ai_unavailable_def
    log_event_def sqlite_service_def Let_def
  by (simp_all, (intro preserve_rules allI; simp add: preserve_rules)+)

section \<open>Calls out of the process\<close>

text \<open>What the pipeline and the decision handlers rely on about an advisor or an anchor.\<close>

locale outside_call =
  fixes run :: "'q \<Rightarrow> ('a db_scheme, 'e, 'r) action"
  assumes outside: "run q s = (r, t) \<Longrightarrow> outside_db s t"
begin

lemma quiet_run: "preserves (quiet_effect X) (run q)"
  by (rule preservesI) (rule outside_keeps(2) [OF outside])

lemma letters_run: "preserves letters_kept (run q)"
  by (rule preservesI) (rule outside_keeps(1) [OF outside])

end

lemma outside_simps [simp]:
  "outside_db s (s\<lparr>env_ticks := n\<rparr>) \<longleftrightarrow> env_ticks s \<le> n" "outside_db s (s\<lparr>env_sent := rqs\<rparr>)"
  "outside_db s (s\<lparr>env_sent := rqs, env_ticks := n\<rparr>) \<longleftrightarrow> env_ticks s \<le> n"
  "outside_db s (s\<lparr>env_ticks := n, env_sent := rqs\<rparr>) \<longleftrightarrow> env_ticks s \<le> n" "outside_db s s"
  by (simp_all add: outside_db_def same_oracles_def)

interpretation null_outside: outside_call null_advisor
  by unfold_locales (simp add: null_advisor_def)

interpretation anthropic_outside: outside_call "anthropic_investigate X parse_raw a" for X parse_raw a
  by unfold_locales
    (auto simp: anthropic_investigate_def http_send_def utc_now_def elim!: and_then_cases map_err_act_cases)

interpretation noop_outside: outside_call "case_prod noop_anchor"
  by unfold_locales (auto simp: noop_anchor_def)

interpretation cli_outside: outside_call "case_prod (cli_anchor_decision X c)" for X c
  by unfold_locales
    (auto simp: cli_anchor_decision_def Let_def run_process_def outside_db_def same_oracles_def
      elim!: and_then_cases map_err_act_cases split: if_splits)

section \<open>The AI status of one alert\<close>

text \<open>At most the AI status of one alert changes.\<close>

definition ai_touch :: "crates \<Rightarrow> uuid \<Rightarrow> 'a db_scheme \<Rightarrow> 'a db_scheme \<Rightarrow> bool" where
  "ai_touch X i s t \<longleftrightarrow> (sqlite_inv X s \<longrightarrow> sqlite_inv X t
     \<and> (\<exists>st. sql_amap X t = update_alert i (\<lambda>a. a\<lparr>al_ai_status := st a\<rparr>) (sql_amap X s)))"

lemma ai_touch_same:
  assumes "sqlite_inv X s \<Longrightarrow> sqlite_inv X t \<and> sql_amap X t = sql_amap X s"
  shows "ai_touch X i s t"
proof -
  have "update_alert i (\<lambda>a. a\<lparr>al_ai_status := al_ai_status a\<rparr>) (sql_amap X s) = sql_amap X s"
    by (simp add: update_alert_def option.map_ident)
  then show ?thesis using assms unfolding ai_touch_def by metis
qed

interpretation ai: state_preorder "ai_touch X i" for X i
proof
  show "ai_touch X i s s" for s by (rule ai_touch_same) simp
  show "ai_touch X i s u" if st: "ai_touch X i s t" and tu: "ai_touch X i t u" for s t u
    unfolding ai_touch_def
  proof (intro impI)
    assume "sqlite_inv X s"
    then obtain f where f: "sqlite_inv X t" "sql_amap X t = update_alert i (\<lambda>a. a\<lparr>al_ai_status := f a\<rparr>) (sql_amap X s)"
      using st by (auto simp: ai_touch_def)
    then obtain g where g: "sqlite_inv X u" "sql_amap X u = update_alert i (\<lambda>a. a\<lparr>al_ai_status := g a\<rparr>) (sql_amap X t)"
      using tu by (auto simp: ai_touch_def)
    have "sql_amap X u = update_alert i (\<lambda>a. a\<lparr>al_ai_status := g (a\<lparr>al_ai_status := f a\<rparr>)\<rparr>) (sql_amap X s)"
      by (simp add: f g update_alert_def option.map_comp o_def)
    with g(1) show "sqlite_inv X u \<and> (\<exists>st. sql_amap X u = update_alert i (\<lambda>a. a\<lparr>al_ai_status := st a\<rparr>) (sql_amap X s))"
      by (intro conjI exI)
  qed
qed

lemma outside_ai_touch: "outside_db s t \<Longrightarrow> ai_touch X i s t"
  using review_kept_same [of s t X]
  by (intro ai_touch_same) (simp add: outside_db_def review_kept_def)

lemma set_ai_touch:
  assumes "and_then (ao_set_ai_status (sqlite_alert_ops X) i st) (\<lambda>_. and_then (log_event (sqlite_service X) ev) (\<lambda>_. ok ())) s = (r, t)"
  shows "ai_touch X i s t"
proof (cases "sqlite_inv X s")
  case True
  note step = sqlite_review.set_ai_then_log [OF True assms [unfolded sqlite_service_def]]
  then consider "sql_amap X t = sql_amap X s"
    | "sql_amap X t = update_alert i (\<lambda>a. a\<lparr>al_ai_status := stored_ai X st\<rparr>) (sql_amap X s)" by blast
  then show ?thesis
  proof cases
    case 1
    with step show ?thesis by (intro ai_touch_same) simp
  next
    case 2
    with step show ?thesis unfolding ai_touch_def by (intro impI conjI exI [of _ "\<lambda>_. stored_ai X st"]) simp_all
  qed
qed (simp add: ai_touch_def)

lemma ai_touch_requested [preserve_rules]:
  "preserves (ai_touch X i) (record_ai_advisory_requested (sqlite_service X) i x p)"
  using sqlite_review.requested_step [of X]
  by (intro preservesI ai_touch_same) (force simp: sqlite_service_def)

lemma service_store: "svc_store (sqlite_service X) = sqlite_alert_ops X"
  by (simp add: sqlite_service_def)

lemma ai_touch_received [preserve_rules]:
  "preserves (ai_touch X i) (record_ai_advisory (sqlite_service X) i x adv)"
  unfolding record_ai_advisory_def service_store by (rule preservesI) (rule set_ai_touch)

lemma ai_touch_unavailable [preserve_rules]:
  "preserves (ai_touch X i) (record_ai_unavailable (sqlite_service X) i x reason)"
proof (rule preservesI)
  fix s t r
  assume "record_ai_unavailable (sqlite_service X) i x reason s = (r, t)"
  note run = this [unfolded record_ai_unavailable_def service_store utc_now_then]
  have "ai_touch X i s (s\<lparr>env_ticks := Suc (env_ticks s)\<rparr>)" by (rule outside_ai_touch) simp
  from ai.trans [OF this set_ai_touch [OF run]] show "ai_touch X i s t" .
qed

end
