(* ===== verification/Frames.thy ===== *)
theory Frames
  imports Pipeline Effects
begin

text \<open>
  What the pipeline keeps, proved once for every relation: a locale per part of the pipeline names
  the few operations that the part rests on, and a relation that those keep is kept by the whole
  part. The relations of \<open>Effects\<close> are interpreted at the end.
\<close>

section \<open>Reading\<close>

interpretation reads: state_preorder outside_db
  by unfold_locales (auto simp: outside_db_def same_oracles_def)

lemma reads_env [preserve_rules]:
  "preserves outside_db utc_now" "preserves outside_db new_uuid" "preserves outside_db (query g)"
  by (auto simp: preserves_def outside_db_def same_oracles_def utc_now_def new_uuid_def elim!: query_cases)

lemma reads_repos [preserve_rules]:
  "preserves outside_db (tx_get X i)"
  "preserves outside_db (tx_list_recent X n)"
  "preserves outside_db (build_account_history X acct as_of lb bw)"
  "preserves outside_db flagged_all"
  "preserves outside_db (find_by_username name)"
  unfolding tx_get_def tx_list_recent_def build_account_history_def flagged_all_def find_by_username_def Let_def
  by (intro preserve_rules allI; simp add: case_prod_unfold preserve_rules)+

section \<open>The advisory of one alert\<close>

locale advisory_frame = state_preorder R
  for R :: "'a db_scheme \<Rightarrow> 'a db_scheme \<Rightarrow> bool" +
  fixes X :: crates and i :: uuid
  assumes outside_kept: "outside_db s t \<Longrightarrow> R s t"
    and requested_kept: "preserves R (record_ai_advisory_requested (sqlite_service X) i x p)"
    and received_kept: "preserves R (record_ai_advisory (sqlite_service X) i x adv)"
    and unavailable_kept: "preserves R (record_ai_unavailable (sqlite_service X) i x reason)"
begin

lemma request_ai:
  assumes "app_alerts st = sqlite_service X" "outside_call (app_advisor st)" "al_id a = i"
  shows "R s (request_ai_advisory X st a tx h s)"
proof -
  let ?q = "advisory_request_of X a tx h" and ?svc = "sqlite_service X"
  define s1 where "s1 = snd (record_ai_advisory_requested ?svc i (tx_id tx) (to_payload X ?q) s)"
  obtain ans s2 where ans: "app_advisor st ?q s1 = (ans, s2)" by fastforce
  have run: "request_ai_advisory X st a tx h s =
     (case ans of Inr adv \<Rightarrow> snd (record_ai_advisory ?svc i (tx_id tx) adv s2)
      | Inl e \<Rightarrow> snd (record_ai_unavailable ?svc i (tx_id tx) (advisor_error_text e) s2))"
    using ans by (cases ans) (simp_all add: request_ai_advisory_def assms(1,3) s1_def Let_def)
  have "R s s1" unfolding s1_def by (rule preserves_snd [OF requested_kept])
  moreover have "R s1 s2" by (rule outside_kept [OF outside_call.outside [OF assms(2) ans]])
  moreover have "R s2 (request_ai_advisory X st a tx h s)"
    unfolding run using preserves_snd [OF received_kept] preserves_snd [OF unavailable_kept] by (cases ans) simp_all
  ultimately show ?thesis using trans by blast
qed

end

section \<open>One transaction\<close>

locale process_frame = state_preorder R
  for R :: "'a db_scheme \<Rightarrow> 'a db_scheme \<Rightarrow> bool" +
  fixes X :: crates
  assumes advisory: "advisory_frame R X i"
    and create_kept: "preserves R (create_alert (sqlite_service X) na)"
    and save_kept: "preserves R (tx_save X tx)"
begin

lemma outside_frame: "outside_db s t \<Longrightarrow> R s t"
  by (rule advisory_frame.outside_kept [OF advisory])

lemma reads_frame: "preserves outside_db m \<Longrightarrow> preserves R m"
  by (erule preserves_mono) (rule outside_frame)

lemma assess: "preserves R (assess_transaction X st tx)"
  unfolding assess_transaction_def display_err_def
  by (intro keeps_and_then keeps_pure preserves_map_err save_kept reads_frame reads_repos)

lemma process:
  assumes "app_alerts st = sqlite_service X" "outside_call (app_advisor st)"
  shows "preserves R (process_transaction X st tx)"
proof -
  have c: "preserves R (\<lambda>s. (Inr v, request_ai_advisory X st a tx h s))" for v :: "uuid option" and a h
    using advisory_frame.request_ai [OF advisory assms HOL.refl] by (simp add: preserves_def)
  show ?thesis
    unfolding process_transaction_def assms(1) display_err_def
    by (rule keeps_and_then [OF assess])
      (auto split: option.split intro!: keeps_and_then keeps_pure preserves_map_err create_kept c)
qed

end

section \<open>Batches and turns of the loop\<close>

locale batch_frame = process_frame R X
  for R :: "'a db_scheme \<Rightarrow> 'a db_scheme \<Rightarrow> bool" and X +
  assumes letter_kept: "preserves R (add_dead_letter X src raw e)"
    and cursor_kept: "preserves R (set_cursor X src c)"
begin

lemma batch_all:
  assumes "app_alerts st = sqlite_service X" "outside_call (app_advisor st)"
  shows "R s (process_all X st src txs s)"
proof (induction txs arbitrary: s)
  case (Cons tx txs)
  obtain r t where p: "process_transaction X st tx s = (r, t)" by fastforce
  have "R s (case r of Inr _ \<Rightarrow> t | Inl e \<Rightarrow> snd (add_dead_letter X src (raw_payload X tx) e t))"
    using preservesD [OF process [OF assms] p] trans preserves_snd [OF letter_kept] by (cases r) auto
  from trans [OF this Cons.IH] show ?case using p by (cases r) simp_all
qed (simp add: refl)

lemma batch_failures: "R s (record_failures X src fs s)"
proof (induction fs arbitrary: s)
  case (Cons f fs)
  from trans [OF preserves_snd [OF letter_kept] Cons.IH] show ?case by simp
qed (simp add: refl)

lemma batch:
  assumes "app_alerts st = sqlite_service X" "outside_call (app_advisor st)"
  shows "R s (process_batch X st src b s)"
  unfolding process_batch_def by (rule trans [OF batch_all [OF assms] batch_failures])

lemma turn:
  assumes "app_alerts st = sqlite_service X" "outside_call (app_advisor st)" "outside_call (src_poll src)"
    and "source_turn X st src name ms (c, s) = (c', t)"
  shows "R s t"
proof -
  obtain polled u where poll: "src_poll src c s = (polled, u)" by fastforce
  have u: "R s u" by (rule outside_frame [OF outside_call.outside [OF assms(3) poll]])
  have sleep: "R v (sleep_ms ms v)" for v
    by (rule outside_frame) (simp add: sleep_ms_def outside_db_def same_oracles_def)
  consider (none) e where "polled = Inl e" "t = sleep_ms ms u"
    | (kept) b where "polled = Inr b" "t = sleep_ms ms (process_batch X st name b u)"
    | (moved) b k where "polled = Inr b" "t = sleep_ms ms (snd (set_cursor X name k (process_batch X st name b u)))"
    using assms(4) poll by (cases polled) (auto simp: source_turn_def Let_def split: option.splits)
  then show ?thesis
  proof cases
    case none
    show ?thesis unfolding none(2) by (rule trans [OF u sleep])
  next
    case (kept b)
    show ?thesis unfolding kept(2) by (rule trans [OF trans [OF u batch [OF assms(1,2)]] sleep])
  next
    case (moved b k)
    show ?thesis unfolding moved(2)
      by (rule trans [OF trans [OF trans [OF u batch [OF assms(1,2)]] preserves_snd [OF cursor_kept]] sleep])
  qed
qed

end

section \<open>The relations of the library\<close>

interpretation oracles: state_preorder same_oracles
  by unfold_locales (auto simp: same_oracles_def)

lemma letters_oracles: "letters_kept s t \<Longrightarrow> same_oracles s t"
  by (simp add: letters_kept_def)

lemma oracles_execute:
  assumes "\<And>s t. f s = Inr t \<Longrightarrow> same_oracles s t"
  shows "preserves same_oracles (execute f)"
  using assms by (fastforce simp: preserves_def same_oracles_def elim!: execute_cases)

lemma oracles_writes:
  "preserves same_oracles (add_dead_letter X src raw e)" "preserves same_oracles (set_cursor X src c)"
  unfolding add_dead_letter_def set_cursor_def
  by (intro oracles.keeps_and_then oracles.keeps_pure preserves_map_err
      letters_env [THEN preserves_mono, OF letters_oracles] oracles_execute;
      auto simp: insert_dead_letter_def upsert_cursor_def same_oracles_def split: if_splits)+

interpretation ai_frame: advisory_frame "ai_touch X i" X i for X i
  by unfold_locales (auto intro: outside_ai_touch ai_touch_requested ai_touch_received ai_touch_unavailable)

interpretation letters_frame: process_frame letters_kept X for X
  by unfold_locales (simp_all add: preserve_rules outside_keeps)

interpretation quiet_frame: batch_frame "quiet_effect X" X for X
  by unfold_locales (simp_all add: preserve_rules outside_keeps)

interpretation oracles_frame: batch_frame same_oracles X for X
  by unfold_locales (auto intro: oracles_writes letters_oracles outside_keeps(1)
      intro!: letters_service [THEN preserves_mono, OF letters_oracles] letters_repos [THEN preserves_mono, OF letters_oracles])

end
