(* ===== verification/PipelineProps.thy ===== *)
theory PipelineProps
  imports RulesProps Frames
begin

text \<open>
  Properties of the pipeline on the SQLite stores: when it opens an alert, that the AI advisor cannot
  influence its outcome, that the unusual-asset rule cannot fire in it, and that no transaction of a
  batch is lost.
\<close>

section \<open>A database that never fails\<close>

definition healthy :: "'a env_scheme \<Rightarrow> bool" where
  "healthy s \<longleftrightarrow> env_faults s = (\<lambda>_. None)"

lemma healthy_query: "healthy s \<Longrightarrow> map_err_act f (query g) s = (Inr (g (s\<lparr>env_calls := Suc (env_calls s)\<rparr>)), s\<lparr>env_calls := Suc (env_calls s)\<rparr>)"
  by (simp add: healthy_def query_def sql_call_def and_then_def map_err_act_def)

lemma healthy_calls [simp]: "healthy (s\<lparr>env_calls := n\<rparr>) = healthy s" "healthy (s\<lparr>env_ticks := n\<rparr>) = healthy s"
  by (simp_all add: healthy_def)

text \<open>No identifier is drawn, and neither the tables of the review nor the flagged accounts change.\<close>

definition undrawn :: "'a db_scheme \<Rightarrow> 'a db_scheme \<Rightarrow> bool" where
  "undrawn s t \<longleftrightarrow> env_faults t = env_faults s \<and> env_uuid_src t = env_uuid_src s \<and> env_uuids t = env_uuids s
     \<and> review_kept s t \<and> db_flagged t = db_flagged s"

lemma undrawn_trans: "undrawn s t \<Longrightarrow> undrawn t u \<Longrightarrow> undrawn s u"
  by (simp add: undrawn_def review_kept_def)

lemma undrawn_healthy: "undrawn s t \<Longrightarrow> healthy s \<Longrightarrow> healthy t"
  by (simp add: undrawn_def healthy_def)

lemma undrawn_calls: "undrawn s (s\<lparr>env_calls := n\<rparr>)"
  by (simp add: undrawn_def review_kept_def)

lemma save_undrawn:
  assumes "codecs_ok X" "healthy s"
  shows "\<exists>t. tx_save X tx s = (Inr (), t) \<and> undrawn s t"
proof -
  have e: "codec_exact (cr_movements X)" "codec_exact (cr_strings X)" using assms(1) by (simp_all add: codecs_ok_def)
  obtain t1 t2 where "to_text (cr_movements X) (tx_movements tx) = Inr t1" "to_text (cr_strings X) (tx_contract_ids tx) = Inr t2"
    using codec_exactE [OF e(1)] codec_exactE [OF e(2)] by metis
  then show ?thesis using assms(2)
    by (simp add: tx_save_def tx_row_of_def and_then_def utc_now_def map_err_act_def execute_def sql_call_def
        healthy_def insert_tx_row_def undrawn_def review_kept_def)
qed

lemma history_undrawn:
  assumes "sql_tx_inv X s" "healthy s"
  shows "\<exists>h t. build_account_history X acct as_of lb bw s = (Inr h, t) \<and> undrawn s t"
proof -
  have ok: "list_all (tx_row_ok X) (sort_desc_key txr_created_at (select_window acct lo hi (db_transactions s)))"
    "list_all (tx_row_ok X) (select_window acct lo hi (db_transactions s))" for lo hi
    using select_window_ok [OF assms(1)] set_desc_ok by blast+
  show ?thesis
    by (simp add: build_account_history_def Let_def and_then_Inr [OF healthy_query] assms(2)
        recent_loop_ok [OF ok(1)] known_loop_ok [OF ok(2)] undrawn_def review_kept_def)
qed

lemma assess_undrawn:
  assumes "sql_tx_inv X s" "healthy s"
  defines "flagged \<equiv> set (map flr_account_id (db_flagged s))"
  shows "\<exists>h t. assess_transaction X st tx s =
      (Inr (h, evaluate (app_registry st) (evaluation_ctx st tx h flagged) (app_scoring st)), t) \<and> undrawn s t"
proof -
  have c: "codecs_ok X" using assms(1) by (simp add: sql_tx_inv_def)
  obtain u where u: "tx_save X tx s = (Inr (), u)" "undrawn s u" using save_undrawn [OF c assms(2)] by blast
  then have "sql_tx_inv X u" using tx_save_result [OF assms(1)] by blast
  from history_undrawn [OF this undrawn_healthy [OF u(2) assms(2)]] obtain h v where
    v: "build_account_history X (tx_source_account tx) (tx_created_at tx) (app_lookback st) (app_baseline st) u = (Inr h, v)"
    and uv: "undrawn u v" by blast
  have sv: "undrawn s v" by (rule undrawn_trans [OF u(2) uv])
  have "flagged_all v = (Inr flagged, v\<lparr>env_calls := Suc (env_calls v)\<rparr>)"
    using sv undrawn_healthy [OF sv assms(2)] by (simp add: flagged_all_def healthy_query flagged_def undrawn_def)
  then show ?thesis
    using u(1) v undrawn_trans [OF sv undrawn_calls]
    by (auto simp: assess_transaction_def display_err_def and_then_def map_err_act_Inr)
qed

lemma assess_healthy: "sql_tx_inv X s \<Longrightarrow> healthy s \<Longrightarrow> \<exists>h ev t. assess_transaction X st tx s = (Inr (h, ev), t)"
  using assess_undrawn by blast

text \<open>A server for the witnesses, without AI credentials and without anchoring.\<close>

definition sample_app :: "'a db_scheme app_state" where
  "sample_app =
     \<lparr>app_alerts = sqlite_service sample_crates, app_audit = sqlite_audit_ops sample_crates, app_advisor = null_advisor,
      app_anchor = noop_anchor, app_registry = with_built_ins sample_crates, app_rules = rules_config_default,
      app_scoring = scoring_config_default, app_jwt_secret = ''key'', app_lookback = minutes 10, app_baseline = hours 24\<rparr>"

definition healthy_db :: db where
  "healthy_db = (sample_db 0)\<lparr>env_faults := (\<lambda>_. None)\<rparr>"

lemma healthy_db: "healthy healthy_db" "sql_tx_inv sample_crates healthy_db" "sqlite_inv sample_crates healthy_db"
  "sql_txs sample_crates healthy_db = []"
proof -
  show "healthy healthy_db" by (simp add: healthy_def healthy_db_def)
  show "sql_tx_inv sample_crates healthy_db" using sample_tx_inv [of 0] by (simp add: sql_tx_inv_def healthy_db_def)
  show "sql_txs sample_crates healthy_db = []" by (simp add: sql_txs_def healthy_db_def sample_db_def)
  have "review_kept (sample_db 0) healthy_db" by (simp add: review_kept_def healthy_db_def)
  from review_kept_same [OF this, of sample_crates] sample_db_inv
  show "sqlite_inv sample_crates healthy_db" by simp
qed

section \<open>When a transaction opens an alert\<close>

lemma kept_assess: "preserves review_kept (assess_transaction X st tx)"
  unfolding assess_transaction_def display_err_def by (intro preserve_rules)

lemma process_outcome:
  assumes "app_alerts st = sqlite_service X" and "outside_call (app_advisor st)" and "sqlite_inv X s"
  shows "case process_transaction X st tx s of
     (Inl e, t) \<Rightarrow> sqlite_inv X t \<and> sql_decs X t = sql_decs X s
   | (Inr None, t) \<Rightarrow>
       \<exists>h ev. fst (assess_transaction X st tx s) = Inr (h, ev) \<and> er_triggers ev = []
         \<and> sql_amap X t = sql_amap X s \<and> sql_log X t = sql_log X s
   | (Inr (Some i), t) \<Rightarrow>
       \<exists>h ev a q. fst (assess_transaction X st tx s) = Inr (h, ev) \<and> er_triggers ev \<noteq> []
         \<and> sql_amap X s i = None \<and> sql_amap X t i = Some a
         \<and> al_status a = Open \<and> al_tx_id a = tx_id tx
         \<and> al_score a = er_score ev \<and> er_severity ev = Some (al_severity a)
         \<and> (al_accounts a, al_assets a) = accounts_and_assets (tx_source_account tx) (tx_movements tx)
         \<and> prefix (sql_log X s @ [q]) (sql_log X t) \<and> ae_alert_id q = Some i
         \<and> to_text (cr_event X) (AlertCreated (tx_id tx) (map rt_rule_id (er_triggers ev)) (al_severity a) (al_score a))
             = Inr (ae_event_json q)
         \<and> restrict_map (sql_amap X t) (- {i}) = restrict_map (sql_amap X s) (- {i})"
proof -
  obtain r u where assess: "assess_transaction X st tx s = (r, u)" by fastforce
  note same = review_kept_same [OF preservesD [OF kept_assess assess], of X]
  have u: "sqlite_inv X u" using same assms(3) by simp
  show ?thesis
  proof (cases r)
    case (Inl e)
    then show ?thesis using assess same u by (simp add: process_transaction_def and_then_def)
  next
    case (Inr hev)
    obtain h ev where hev: "hev = (h, ev)" by fastforce
    have no_rule: "er_severity ev = None \<longleftrightarrow> er_triggers ev = []"
      using assess Inr hev by (auto simp: assess_transaction_def severity_None_iff elim!: and_then_InrE)
    show ?thesis
    proof (cases "er_severity ev")
      case None
      then show ?thesis using assess same Inr hev no_rule by (simp add: process_transaction_def and_then_def)
    next
      case (Some sev)
      let ?na = "new_alert_of tx ev sev"
      obtain c v where create: "create_alert (sqlite_service X) ?na u = (c, v)" by fastforce
      from u create [unfolded sqlite_service_def] show ?thesis
      proof (cases rule: sqlite_review.create_alert_cases)
        case (created q w x)
        let ?a = "drawn_alert u ?na"
        let ?t = "request_ai_advisory X st ?a tx h v"
        have run: "process_transaction X st tx s = (Inr (Some (al_id ?a)), ?t)"
          using assess Inr hev Some create created(1) assms(1)
          by (simp add: process_transaction_def and_then_def display_err_def map_err_act_def)
        obtain f where ai: "sql_amap X ?t = update_alert (al_id ?a) (\<lambda>a. a\<lparr>al_ai_status := f a\<rparr>) (sql_amap X v)"
          using ai_frame.request_ai [OF assms(1,2) refl, where a = ?a and s = v and tx = tx and h = h] created(3) by (auto simp: ai_touch_def)
        have log: "prefix (sql_log X v) (sql_log X ?t)"
          using advisory_frame.request_ai [OF quiet_frame.advisory assms(1,2) refl, where a = ?a and s = v and tx = tx and h = h] created(3) by (simp add: quiet_effect_def)
        have fresh: "sql_amap X u (al_id ?a) = None"
          using sqlite_review.insert_fresh [OF _ created(2)] u by simp
        let ?b = "(stored_alert X ?a)\<lparr>al_ai_status := f (stored_alert X ?a)\<rparr>"
        have b: "sql_amap X ?t (al_id ?a) = Some ?b" by (simp add: ai created(4) update_alert_def)
        have fields: "al_status ?b = Open" "al_tx_id ?b = tx_id tx" "al_score ?b = er_score ev" "al_severity ?b = sev"
          "(al_accounts ?b, al_assets ?b) = accounts_and_assets (tx_source_account tx) (tx_movements tx)"
          using sqlite_review.canon_fields [of X ?a]
          by (simp_all add: same_review_fields_def drawn_alert_def opened_alert_def new_alert_of_def split: prod.split)
        have q: "ae_alert_id (entry_of q) = Some (al_id ?a)"
          "to_text (cr_event X) (AlertCreated (tx_id tx) (map rt_rule_id (er_triggers ev)) sev (er_score ev)) = Inr (ae_event_json (entry_of q))"
          using created(7)
          by (simp_all add: records_event_def created_event_def alert_event_def new_event_def for_alert_def for_tx_def
              alert_created_event_def drawn_alert_def opened_alert_def new_alert_of_def split: prod.splits)
        have others: "restrict_map (sql_amap X ?t) (- {al_id ?a}) = restrict_map (sql_amap X s) (- {al_id ?a})"
          using same by (auto simp: ai created(4) update_alert_def restrict_map_def)
        show ?thesis unfolding run prod.case sum.case option.case
          using assess Inr hev no_rule Some fresh same b fields q others log created(6)
          by (intro exI [of _ h] exI [of _ ev] exI [of _ ?b] exI [of _ "entry_of q"]) simp
      qed (use assess Inr hev Some create assms(1) same in
          \<open>simp_all add: process_transaction_def and_then_def display_err_def map_err_act_def\<close>)
    qed
  qed
qed

text \<open>
  C15: A transaction opens an alert exactly when a rule fires. When processing it succeeds without an
  alert, no rule fired and no alert and no log entry changed; when it reports an alert, that alert is
  new, open, for this transaction, with the score and the severity of the evaluation and the accounts
  and assets of the movements, its creation is logged, and no other alert changed.
\<close>
theorem process_transaction_outcome:
  assumes "app_alerts st = sqlite_service X" and "outside_call (app_advisor st)" and "sqlite_inv X s"
  shows "case process_transaction X st tx s of
     (Inl e, t) \<Rightarrow> sqlite_inv X t \<and> sql_decs X t = sql_decs X s
   | (Inr None, t) \<Rightarrow>
       \<exists>h ev. fst (assess_transaction X st tx s) = Inr (h, ev) \<and> er_triggers ev = []
         \<and> sql_amap X t = sql_amap X s \<and> sql_log X t = sql_log X s
   | (Inr (Some i), t) \<Rightarrow>
       \<exists>h ev a q. fst (assess_transaction X st tx s) = Inr (h, ev) \<and> er_triggers ev \<noteq> []
         \<and> sql_amap X s i = None \<and> sql_amap X t i = Some a
         \<and> al_status a = Open \<and> al_tx_id a = tx_id tx
         \<and> al_score a = er_score ev \<and> er_severity ev = Some (al_severity a)
         \<and> (al_accounts a, al_assets a) = accounts_and_assets (tx_source_account tx) (tx_movements tx)
         \<and> prefix (sql_log X s @ [q]) (sql_log X t) \<and> ae_alert_id q = Some i
         \<and> to_text (cr_event X) (AlertCreated (tx_id tx) (map rt_rule_id (er_triggers ev)) (al_severity a) (al_score a))
             = Inr (ae_event_json q)
         \<and> restrict_map (sql_amap X t) (- {i}) = restrict_map (sql_amap X s) (- {i})"
  by (rule process_outcome [OF assms])

text \<open>The transfer of 50000 exceeds the default threshold, so an alert is opened.\<close>

theorem process_transaction_outcome_witness:
  "case process_transaction sample_crates sample_app sample_tx healthy_db of
     (Inl e, t) \<Rightarrow> sql_decs sample_crates t = []
   | (Inr None, t) \<Rightarrow> sql_amap sample_crates t = Map.empty
   | (Inr (Some i), t) \<Rightarrow> map_option al_tx_id (sql_amap sample_crates t i) = Some ''tx-1''"
proof -
  have "outside_call (app_advisor (sample_app :: db app_state))"
    by (simp add: sample_app_def null_outside.outside_call_axioms)
  from process_transaction_outcome [OF _ this healthy_db(3), of sample_tx] show ?thesis
    by (auto simp: sample_app_def sql_amap_def [abs_def] sql_decs_def healthy_db_def sample_db_def sample_tx_def
        split: prod.splits sum.splits option.splits)
qed

text \<open>
  C29: The AI advisor cannot influence the outcome. Whatever an advisor answers, refuses or does,
  processing a transaction reports the same alert, the same absence of one, or the same error.
\<close>
theorem advisor_cannot_influence:
  "fst (process_transaction X (st\<lparr>app_advisor := f\<rparr>) tx s) = fst (process_transaction X (st\<lparr>app_advisor := g\<rparr>) tx s)"
proof -
  have a: "assess_transaction X (st\<lparr>app_advisor := h\<rparr>) tx = assess_transaction X st tx" for h
    by (simp add: assess_transaction_def evaluation_ctx_def)
  show ?thesis
    by (auto simp: process_transaction_def a and_then_def split: prod.split sum.split option.split)
qed

section \<open>The transaction is part of its own history\<close>

lemma history_counts_own:
  assumes "ah_recent_transactions h = us @ xs @ vs" "\<forall>r \<in> set xs. rc_created_at r = tx_created_at tx" "0 \<le> window"
  shows "1 + length xs \<le> count_in_window (evaluation_ctx st tx h flagged) window"
proof -
  have "filter (\<lambda>rt. rc_created_at rt \<le> tx_created_at tx \<and> tx_created_at tx - rc_created_at rt \<le> window) xs = xs"
    using assms(2,3) by (simp add: filter_id_conv)
  then show ?thesis by (simp add: count_in_window_def evaluation_ctx_def assms(1))
qed

text \<open>
  The history a new transaction is evaluated on: the rows of the lookback window, the new
  transaction among them.
\<close>

lemma assessed_rows:
  assumes "sql_tx_inv X s" "times_ok X s [tx_created_at tx - app_lookback st, tx_created_at tx]"
    and "tx_id tx \<notin> tx_id ` set (sql_txs X s)" "assess_transaction X st tx s = (Inr (h, ev), t)"
  obtains flagged rows where "ev = evaluate (app_registry st) (evaluation_ctx st tx h flagged) (app_scoring st)"
    and "ah_recent_transactions h = concat (map (recent_of_tx (tx_source_account tx)) rows)"
    and "\<Union> (asset_keys_of_tx ` set rows) \<subseteq> ah_known_assets h"
    and "mset rows = mset (window_txs (tx_source_account tx) (tx_created_at tx - app_lookback st) (tx_created_at tx) (sql_txs X s @ [tx]))"
proof -
  let ?now = "tx_created_at tx" and ?acct = "tx_source_account tx"
  obtain u v flagged where save: "tx_save X tx s = (Inr (), u)"
    and hist: "build_account_history X ?acct ?now (app_lookback st) (app_baseline st) u = (Inr h, v)"
    and ev: "ev = evaluate (app_registry st) (evaluation_ctx st tx h flagged) (app_scoring st)"
    using assms(4) unfolding assess_transaction_def display_err_def
    by (auto elim!: and_then_InrE map_err_act_cases)
  have inv: "sql_tx_inv X u" and txs: "sql_txs X u = sql_txs X s @ [tx]"
    using tx_save_result [OF assms(1) save] assms(3) by auto
  have times: "times_ok X u [?now - app_lookback st, ?now]"
    using assms(2) by (auto simp: times_ok_def txs)
  let ?win = "select_window ?acct (cr_rfc3339 X (?now - app_lookback st)) (cr_rfc3339 X ?now) (db_transactions u)"
  let ?rows = "map (read_tx X) (sort_desc_key txr_created_at ?win)"
  have "mset ?rows = mset (map (read_tx X) ?win)" by (simp add: sort_desc_key_def)
  then have "mset ?rows = mset (window_txs ?acct (?now - app_lookback st) ?now (sql_txs X s @ [tx]))"
    unfolding select_window_txs [OF inv times] txs .
  with ev show thesis
    using build_account_history_result [OF inv hist] by (intro that [of flagged ?rows]) auto
qed

lemma assessed_history:
  assumes "sql_tx_inv X s" "times_ok X s [tx_created_at tx - app_lookback st, tx_created_at tx]"
    and "0 \<le> app_lookback st" "tx_id tx \<notin> tx_id ` set (sql_txs X s)"
    and "assess_transaction X st tx s = (Inr (h, ev), t)"
  shows "\<exists>us vs flagged. ah_recent_transactions h = us @ recent_of_tx (tx_source_account tx) tx @ vs
    \<and> asset_keys_of_tx tx \<subseteq> ah_known_assets h
    \<and> ev = evaluate (app_registry st) (evaluation_ctx st tx h flagged) (app_scoring st)"
proof -
  obtain flagged rows where ev: "ev = evaluate (app_registry st) (evaluation_ctx st tx h flagged) (app_scoring st)"
    and h: "ah_recent_transactions h = concat (map (recent_of_tx (tx_source_account tx)) rows)"
      "\<Union> (asset_keys_of_tx ` set rows) \<subseteq> ah_known_assets h"
    and rows: "mset rows = mset (window_txs (tx_source_account tx) (tx_created_at tx - app_lookback st) (tx_created_at tx) (sql_txs X s @ [tx]))"
    by (rule assessed_rows [OF assms(1,2,4,5)])
  have "tx \<in> set rows" using assms(3) mset_eq_setD [OF rows] by (simp add: window_txs_def)
  moreover from this obtain us vs where "rows = us @ tx # vs" by (meson split_list)
  ultimately show ?thesis using ev h by auto
qed

text \<open>
  C30: In the pipeline a transaction is evaluated against a history that already contains it: it is
  saved before its history is read. So the unusual-asset rule never fires for a new transaction,
  whatever assets it moves, and the count of the velocity and frequency rules is at least one plus
  the number of its own movements, also for an account that never sent anything before.
\<close>
theorem unusual_asset_never_fires:
  assumes "sql_tx_inv X s" and "times_ok X s [tx_created_at tx - app_lookback st, tx_created_at tx]"
    and "0 \<le> app_lookback st" and "0 \<le> window" and "tx_id tx \<notin> tx_id ` set (sql_txs X s)"
    and "app_registry st = with_built_ins X"
    and "assess_transaction X st tx s = (Inr (h, ev), t)"
  shows "filter (\<lambda>tr. rt_rule_id tr = ''unusual_asset_movement'') (er_triggers ev) = []
    \<and> 1 + length (tx_movements tx) \<le> count_in_window (evaluation_ctx st tx h flagged) window"
proof -
  obtain us vs fl where h: "ah_recent_transactions h = us @ recent_of_tx (tx_source_account tx) tx @ vs"
    "asset_keys_of_tx tx \<subseteq> ah_known_assets h"
    and ev: "ev = evaluate (app_registry st) (evaluation_ctx st tx h fl) (app_scoring st)"
    using assessed_history [OF assms(1-3,5,7)] by blast
  let ?ctx = "evaluation_ctx st tx h fl"
  have "unusual_asset_eval ?ctx = []"
    using h(2) by (auto simp: unusual_asset_eval_def evaluation_ctx_def asset_keys_of_tx_def image_image
        intro!: unusual_filter_none)
  moreover have "rt_rule_id tr \<noteq> ''unusual_asset_movement''"
    if "r \<in> set (built_in_rules X)" "r \<noteq> unusual_asset_rule" "tr \<in> set (rule_evaluate r ?ctx)" for r tr
    using built_in_trigger_ok [OF that(1,3)] that(1,2)
    by (auto simp: trigger_ok_def built_in_rules_def large_transfer_rule_def velocity_rule_def abnormal_frequency_rule_def
        flagged_account_rule_def operation_count_rule_def)
  ultimately have "filter (\<lambda>tr. rt_rule_id tr = ''unusual_asset_movement'') (er_triggers ev) = []"
    by (fastforce simp: ev assms(6) with_built_ins_def evaluate_all_def filter_empty_conv unusual_asset_rule_def)
  moreover have "1 + length (recent_of_tx (tx_source_account tx) tx) \<le> count_in_window (evaluation_ctx st tx h flagged) window"
    by (rule history_counts_own [OF h(1) _ assms(4)]) (auto simp: recent_of_tx_def)
  ultimately show ?thesis by (simp add: recent_of_tx_def)
qed

theorem unusual_asset_never_fires_witness:
  "\<exists>h ev t. assess_transaction sample_crates sample_app sample_tx healthy_db = (Inr (h, ev), t)
     \<and> filter (\<lambda>tr. rt_rule_id tr = ''unusual_asset_movement'') (er_triggers ev) = []"
proof -
  obtain h ev t where a: "assess_transaction sample_crates sample_app sample_tx healthy_db = (Inr (h, ev), t)"
    using assess_healthy [OF healthy_db(2,1)] by blast
  have times: "times_ok sample_crates healthy_db [tx_created_at sample_tx - app_lookback (sample_app :: db app_state), tx_created_at sample_tx]"
    using sample_rfc3339_ordered
    by (simp add: times_ok_def healthy_db(4) sample_app_def sample_tx_def four_digit_year_def minutes_def seconds_def)
  have app: "0 \<le> app_lookback (sample_app :: db app_state)" "app_registry (sample_app :: db app_state) = with_built_ins sample_crates"
    by (simp_all add: sample_app_def minutes_def seconds_def)
  show ?thesis
    using unusual_asset_never_fires [OF healthy_db(2) times app(1) _ _ app(2) a, of 0] a healthy_db(4) by auto
qed

section \<open>No transaction of a batch is lost\<close>

text \<open>What processing each transaction of a batch gave, in order.\<close>

fun batch_outcomes ::
  "crates \<Rightarrow> 'a db_scheme app_state \<Rightarrow> string \<Rightarrow> normalized_transaction list \<Rightarrow> 'a db_scheme \<Rightarrow>
   (normalized_transaction \<times> (string + uuid option)) list" where
  "batch_outcomes X st source [] s = []"
| "batch_outcomes X st source (tx # txs) s =
     (case process_transaction X st tx s of
        (Inr v, t) \<Rightarrow> (tx, Inr v) # batch_outcomes X st source txs t
      | (Inl e, t) \<Rightarrow>
          (tx, Inl e) # batch_outcomes X st source txs (snd (add_dead_letter X source (raw_payload X tx) e t)))"

definition letters_of_outcomes ::
  "crates \<Rightarrow> string \<Rightarrow> (normalized_transaction \<times> (string + uuid option)) list \<Rightarrow> (string \<times> string \<times> string) list" where
  "letters_of_outcomes X source outs =
     concat (map (\<lambda>(tx, r). case r of Inl e \<Rightarrow> [(source, raw_payload X tx, e)] | Inr _ \<Rightarrow> []) outs)"

definition letters_of_failures :: "string \<Rightarrow> fetch_failure list \<Rightarrow> (string \<times> string \<times> string) list" where
  "letters_of_failures source fs = map (\<lambda>f. (source, ff_raw_id f, ff_error f)) fs"

definition letters :: "'a db_scheme \<Rightarrow> (string \<times> string \<times> string) list" where
  "letters s = map (\<lambda>r. (dlr_source r, dlr_raw_payload r, dlr_error r)) (db_dead_letters s)"

text \<open>The identifiers drawn before the \<open>m\<close>th one are different from each other and from those in use.\<close>

definition fresh_ids :: "crates \<Rightarrow> nat \<Rightarrow> 'a db_scheme \<Rightarrow> bool" where
  "fresh_ids X m s \<longleftrightarrow>
     inj_on (\<lambda>n. cr_uuid_text X (env_uuid_src s n)) {env_uuids s..<m}
     \<and> (\<forall>n \<in> {env_uuids s..<m}. cr_uuid_text X (env_uuid_src s n) \<notin> dlr_id ` set (db_dead_letters s))"

lemma fresh_kept:
  "letters_kept s t \<Longrightarrow> fresh_ids X m s \<Longrightarrow> healthy s \<Longrightarrow> fresh_ids X m t \<and> healthy t \<and> letters t = letters s"
  by (auto simp: letters_kept_def same_oracles_def fresh_ids_def healthy_def letters_def intro: inj_on_subset)

lemma letter_added:
  assumes "fresh_ids X m s" "healthy s" "env_uuids (snd (add_dead_letter X source raw e s)) \<le> m"
    and "t = snd (add_dead_letter X source raw e s)"
  shows "fresh_ids X m t \<and> healthy t \<and> letters t = letters s @ [(source, raw, e)]"
proof -
  let ?id = "\<lambda>n. cr_uuid_text X (env_uuid_src s n)" and ?k = "env_uuids s"
  have k: "?k < m" using assms(2,3)
    by (auto simp: add_dead_letter_def and_then_def utc_now_def new_uuid_def map_err_act_def execute_def
        sql_call_def healthy_def insert_dead_letter_def split: if_splits)
  have new: "?id ?k \<notin> dlr_id ` set (db_dead_letters s)" using assms(1) k by (simp add: fresh_ids_def)
  have later: "?id n \<noteq> ?id ?k" if "?k < n" "n < m" for n
    using assms(1) that k unfolding fresh_ids_def by (auto dest: inj_onD)
  have inj: "inj_on ?id {Suc ?k..<m}"
    by (rule inj_on_subset [of _ "{?k..<m}"]) (use assms(1) in \<open>auto simp: fresh_ids_def\<close>)
  have t: "env_uuids t = Suc ?k" "env_uuid_src t = env_uuid_src s" "env_faults t = env_faults s"
    "\<exists>row. db_dead_letters t = db_dead_letters s @ [row] \<and> dlr_id row = ?id ?k \<and> dlr_source row = source
      \<and> dlr_raw_payload row = raw \<and> dlr_error row = e"
    using assms(2) new
    by (simp_all add: assms(4) add_dead_letter_def and_then_def utc_now_def new_uuid_def map_err_act_def execute_def
        sql_call_def healthy_def insert_dead_letter_def)
  then obtain row where row: "db_dead_letters t = db_dead_letters s @ [row]" "dlr_id row = ?id ?k" "dlr_source row = source"
    "dlr_raw_payload row = raw" "dlr_error row = e" by blast
  have "fresh_ids X m t" using assms(1) inj later t(1,2) row(1,2) by (auto simp: fresh_ids_def)
  then show ?thesis using assms(2) t(3) row by (simp add: healthy_def letters_def)
qed

lemma process_all_letters:
  assumes "app_alerts st = sqlite_service X" "outside_call (app_advisor st)"
  shows "fresh_ids X m s \<Longrightarrow> healthy s \<Longrightarrow> env_uuids (process_all X st source txs s) \<le> m \<Longrightarrow>
    fresh_ids X m (process_all X st source txs s) \<and> healthy (process_all X st source txs s)
    \<and> letters (process_all X st source txs s) = letters s @ letters_of_outcomes X source (batch_outcomes X st source txs s)"
proof (induction txs arbitrary: s)
  case Nil
  then show ?case by (simp add: letters_of_outcomes_def)
next
  case (Cons tx txs)
  obtain r t where p: "process_transaction X st tx s = (r, t)" by fastforce
  note t = fresh_kept [OF preservesD [OF letters_frame.process [OF assms] p] Cons.prems(1,2)]
  show ?case
  proof (cases r)
    case (Inl e)
    let ?u = "snd (add_dead_letter X source (raw_payload X tx) e t)"
    have "env_uuids ?u \<le> env_uuids (process_all X st source txs ?u)"
      using oracles_frame.batch_all [OF assms, of ?u] by (simp add: same_oracles_def)
    then have "env_uuids ?u \<le> m" using Cons.prems(3) p Inl by simp
    from letter_added [OF _ _ this refl] t
    have "fresh_ids X m ?u \<and> healthy ?u \<and> letters ?u = letters t @ [(source, raw_payload X tx, e)]" by blast
    then show ?thesis using Cons.IH [of ?u] Cons.prems(3) t p Inl by (simp add: letters_of_outcomes_def)
  next
    case (Inr v)
    then show ?thesis using Cons.IH [of t] Cons.prems(3) t p by (simp add: letters_of_outcomes_def)
  qed
qed

lemma record_failures_letters:
  "fresh_ids X m s \<Longrightarrow> healthy s \<Longrightarrow> env_uuids (record_failures X source fs s) \<le> m \<Longrightarrow>
   letters (record_failures X source fs s) = letters s @ letters_of_failures source fs"
proof (induction fs arbitrary: s)
  case (Cons f fs)
  let ?u = "snd (add_dead_letter X source (ff_raw_id f) (ff_error f) s)"
  have "env_uuids ?u \<le> env_uuids (record_failures X source fs ?u)"
    using oracles_frame.batch_failures [of ?u] by (simp add: same_oracles_def)
  then have "env_uuids ?u \<le> m" using Cons.prems(3) by simp
  from letter_added [OF Cons.prems(1,2) this refl] Cons.IH [of ?u] Cons.prems(3) show ?case
    by (simp add: letters_of_failures_def)
qed (simp add: letters_of_failures_def)

text \<open>
  C16: No transaction of a batch is lost. As long as the database works, every transaction of a
  polled batch has an outcome, in order, and the dead letters grow by exactly one letter, with the
  transaction and the error, for each one that failed, followed by one for each record that the
  source could not fetch. A failure never stops the rest of the batch.
\<close>
theorem batch_accounts_for_all:
  assumes "app_alerts st = sqlite_service X" and "outside_call (app_advisor st)"
    and "healthy s" and "fresh_ids X (env_uuids (process_batch X st source b s)) s"
  shows "map fst (batch_outcomes X st source (fb_transactions b) s) = fb_transactions b
    \<and> letters (process_batch X st source b s) =
        letters s @ letters_of_outcomes X source (batch_outcomes X st source (fb_transactions b) s)
          @ letters_of_failures source (fb_failures b)"
proof -
  have "map fst (batch_outcomes X st source txs s) = txs" for txs s
    by (induction txs arbitrary: s) (auto split: prod.split sum.split)
  moreover have "env_uuids (process_all X st source (fb_transactions b) s) \<le> env_uuids (process_batch X st source b s)"
    using oracles_frame.batch_failures [of "process_all X st source (fb_transactions b) s" X source "fb_failures b"]
    by (simp add: process_batch_def same_oracles_def)
  ultimately show ?thesis
    using process_all_letters [OF assms(1,2,4,3), of source "fb_transactions b"]
      record_failures_letters [of X "env_uuids (process_batch X st source b s)" "process_all X st source (fb_transactions b) s" source "fb_failures b"]
    by (simp add: process_batch_def)
qed

text \<open>A batch of one transaction that cannot be serialised and one record that could not be fetched.\<close>

definition failing_crates :: crates where
  "failing_crates = sample_crates\<lparr>cr_movements := \<lparr>to_text = (\<lambda>_. Inl ''bad number''), of_text = (\<lambda>_. Inl ''bad number'')\<rparr>\<rparr>"

definition failing_app :: "db app_state" where
  "failing_app = sample_app\<lparr>app_alerts := sqlite_service failing_crates\<rparr>"

definition sample_batch :: fetched_batch where
  "sample_batch = \<lparr>fb_transactions = [sample_tx], fb_failures = [\<lparr>ff_raw_id = ''tx-9'', ff_error = ''timeout''\<rparr>],
                   fb_next_cursor = Some ''17''\<rparr>"

lemma failing_transaction:
  "process_transaction failing_crates failing_app sample_tx s =
     (Inl ''internal error: json (de)serialization failed: bad number'', s)"
  by (simp add: process_transaction_def assess_transaction_def display_err_def tx_save_def tx_row_of_def
      failing_crates_def and_then_def map_err_act_def map_json_def domain_error_text_def lift_res_def)

theorem batch_accounts_for_all_witness:
  "letters (process_batch failing_crates failing_app ''horizon'' sample_batch healthy_db) =
     [(''horizon'', raw_payload failing_crates sample_tx, ''internal error: json (de)serialization failed: bad number''),
      (''horizon'', ''tx-9'', ''timeout'')]"
proof -
  let ?t = "process_batch failing_crates failing_app ''horizon'' sample_batch healthy_db"
  have "env_uuids ?t \<le> 2"
    by (simp add: process_batch_def sample_batch_def failing_transaction add_dead_letter_def and_then_def utc_now_def
        new_uuid_def map_err_act_def execute_def sql_call_def insert_dead_letter_def healthy_db_def sample_db_def)
  moreover have "inj_on (\<lambda>n. cr_uuid_text failing_crates (env_uuid_src healthy_db n)) {0..<2}"
    by (auto simp: inj_on_def failing_crates_def sample_crates_def healthy_db_def sample_db_def less_2_cases_iff)
  ultimately have "fresh_ids failing_crates (env_uuids ?t) healthy_db"
    by (auto simp: fresh_ids_def healthy_db_def sample_db_def intro: inj_on_subset)
  moreover have "app_alerts failing_app = sqlite_service failing_crates" "outside_call (app_advisor failing_app)"
    by (simp_all add: failing_app_def sample_app_def null_outside.outside_call_axioms)
  ultimately show ?thesis
    using batch_accounts_for_all [of failing_app failing_crates healthy_db "''horizon''" sample_batch] healthy_db(1)
    by (simp add: sample_batch_def failing_transaction letters_of_outcomes_def letters_of_failures_def letters_def
        healthy_db_def sample_db_def)
qed

end
