(* ===== verification/AuthProps.thy ===== *)
theory AuthProps
  imports Auth RepoProps
begin

text \<open>
  Properties of authentication: which requests are authenticated and as whom, and that a login is
  good for the twelve hours its token is signed for.
\<close>

section \<open>Who is authenticated\<close>

lemma role_from_str_iff: "role_from_str t = Inr r \<longleftrightarrow> t = role_str r"
  using role_roundtrip by (auto simp: role_from_str_def role_str_def split: if_splits role.splits)


section \<open>Credentials as text\<close>

lemma utf8_chars_single: "list_all (\<lambda>c. \<not> is_cont_byte c) s \<Longrightarrow> utf8_chars s = map (\<lambda>c. [c]) s"
proof (induction s)
  case (Cons c s)
  then have "takeWhile is_cont_byte s = [] \<and> dropWhile is_cont_byte s = s" by (cases s) simp_all
  with Cons show ?case by simp
qed simp

text \<open>Visible ASCII without spaces and semicolons.\<close>

definition token_char :: "char \<Rightarrow> bool" where
  "token_char c \<longleftrightarrow> 33 \<le> (of_char c :: nat) \<and> (of_char c :: nat) < 127 \<and> c \<noteq> CHR '';''"

lemma token_char_single: "token_char c \<Longrightarrow> \<not> is_cont_byte c" "token_char c \<Longrightarrow> \<not> char_is_whitespace [c]"
  by (auto simp: token_char_def is_cont_byte_def char_is_whitespace_def bytes_of_def)

lemma trim_token: 
  assumes "list_all token_char s"
  shows "trim s = s"
proof -
  have u: "utf8_chars s = map (\<lambda>c. [c]) s"
    using assms token_char_single(1) by (intro utf8_chars_single) (auto simp: list_all_iff)
  have d: "dropWhile char_is_whitespace (map (\<lambda>c. [c]) xs) = map (\<lambda>c. [c]) xs" if "list_all token_char xs" for xs
    using that token_char_single(2) by (cases xs) auto
  have "concat (map (\<lambda>c. [c]) s) = s" by (induction s) simp_all
  then show ?thesis using d [of s] d [of "rev s"] assms by (simp add: trim_def u rev_map [symmetric])
qed

lemma split_char_id: "c \<notin> set s \<Longrightarrow> split_char c s = [s]"
  by (induction s) auto

lemma cookie_token_session:
  assumes "list_all token_char token"
  shows "cookie_token (auth_cookie_name @ ''='' @ token) = Some token"
proof -
  have a: "list_all token_char (auth_cookie_name @ ''='' @ token)"
    using assms by (simp add: auth_cookie_name_def token_char_def)
  then have "CHR '';'' \<notin> set (auth_cookie_name @ ''='' @ token)"
    by (auto simp: list_all_iff token_char_def)
  note sp = split_char_id [OF this]
  show ?thesis using trim_token [OF a] unfolding cookie_token_def sp
    by (simp add: strip_prefix_def starts_with_def)
qed

section \<open>A login is good for twelve hours\<close>

text \<open>
  What is relied on about the libraries. A token is base64url text with dots; decoding a token
  under the secret it was signed with gives its claims back, before the expiry second; a header
  value of visible ASCII reads as itself.
\<close>

definition tokens_ok :: "auth_crates \<Rightarrow> bool" where
  "tokens_ok A \<longleftrightarrow>
     (\<forall>c secret token. ac_encode A c secret = Inr token \<longrightarrow>
        list_all token_char token
        \<and> (\<forall>now. 0 \<le> now \<and> now div 1000000000 < uint (clm_exp c) \<longrightarrow> ac_decode A token secret now = Inr c))
     \<and> (\<forall>v. list_all (\<lambda>c. 32 \<le> (of_char c :: nat) \<and> (of_char c :: nat) < 127) v \<longrightarrow> ac_header_str A v = Some v)"

text \<open>The two ways in which a client presents its token.\<close>

definition presents :: "parts \<Rightarrow> string \<Rightarrow> bool" where
  "presents p token \<longleftrightarrow>
     pt_authorization p = Some (''Bearer '' @ token)
     \<or> pt_authorization p = None \<and> pt_cookie p = Some (auth_cookie_name @ ''='' @ token)"

lemma presents_token:
  assumes "tokens_ok A" "list_all token_char token" "presents p token"
  shows "token_from_parts A p = Some token"
proof -
  have v: "list_all (\<lambda>c. 32 \<le> (of_char c :: nat) \<and> (of_char c :: nat) < 127) token"
    using assms(2) by (rule list.pred_mono_strong) (simp add: token_char_def)
  have header: "ac_header_str A x = Some x" if "list_all (\<lambda>c. 32 \<le> (of_char c :: nat) \<and> (of_char c :: nat) < 127) x" for x
    using assms(1) that unfolding tokens_ok_def by blast
  have b: "ac_header_str A (''Bearer '' @ token) = Some (''Bearer '' @ token)"
    by (rule header) (use v in simp)
  have c: "ac_header_str A (auth_cookie_name @ ''='' @ token) = Some (auth_cookie_name @ ''='' @ token)"
    by (rule header) (use v in \<open>simp add: auth_cookie_name_def\<close>)
  from assms(3) show ?thesis unfolding presents_def
  proof
    assume "pt_authorization p = Some (''Bearer '' @ token)"
    then have "bearer_token A p = Some token"
      unfolding bearer_token_def using b by (simp add: strip_prefix_def starts_with_def)
    then show ?thesis by (simp add: token_from_parts_def)
  next
    assume h: "pt_authorization p = None \<and> pt_cookie p = Some (auth_cookie_name @ ''='' @ token)"
    then have "bearer_token A p = None" by (simp add: bearer_token_def)
    then show ?thesis unfolding token_from_parts_def using h c cookie_token_session [OF assms(2)] by simp
  qed
qed

lemma expiry_uint:
  "0 \<le> now \<Longrightarrow> now < 2 ^ 63 \<Longrightarrow> uint (expiry now) = (now + hours token_ttl_hours) div 1000000000"
proof -
  assume "0 \<le> now" "now < 2 ^ 63"
  then have "0 \<le> (now + hours token_ttl_hours) div 1000000000" "(now + hours token_ttl_hours) div 1000000000 < 2 ^ 64"
    unfolding hours_def seconds_def token_ttl_hours_def by auto
  then have "take_bit 64 ((now + hours token_ttl_hours) div 1000000000) = (now + hours token_ttl_hours) div 1000000000"
    by (rule take_bit_int_eq_self)
  then show ?thesis unfolding expiry_def uint_word_of_int_eq by simp
qed

text \<open>A token authenticates its investigator until the second in which it expires.\<close>

lemma issued_token_user:
  assumes "tokens_ok A" and "presents p token"
    and "ac_encode A \<lparr>clm_sub = inv_id who, clm_username = inv_username who, clm_role = role_str (inv_role who),
      clm_exp = expiry now\<rparr> secret = Inr token"
    and "0 \<le> now" and "now < 2 ^ 63" and "0 \<le> env_clock u (env_ticks u)"
    and "env_clock u (env_ticks u) div 1000000000 < (now + hours 12) div 1000000000"
  shows "auth_user A secret p u = (Inr who, u\<lparr>env_ticks := Suc (env_ticks u)\<rparr>)"
proof -
  have "list_all token_char token"
    "ac_decode A token secret (env_clock u (env_ticks u)) = Inr \<lparr>clm_sub = inv_id who, clm_username = inv_username who,
      clm_role = role_str (inv_role who), clm_exp = expiry now\<rparr>"
    using assms(1,3,6,7) expiry_uint [OF assms(4,5)] unfolding tokens_ok_def by (auto simp: token_ttl_hours_def)
  then show ?thesis using presents_token [OF assms(1) _ assms(2)]
    by (simp add: auth_user_def decode_token_def and_then_def utc_now_def)
qed

text \<open>
  C26: A login is good for twelve hours. A login with the right password gives a token with which
  requests, as bearer header or as session cookie, are authenticated as the investigator that was
  found in the database, with the role it had there, until the second in which the token expires.
\<close>
theorem session_roundtrip:
  assumes "tokens_ok A" and "checked_login A secret req s = (Inr (who, token), t)" and "presents p token"
    and "0 \<le> env_clock s (env_ticks s)" and "env_clock s (env_ticks s) < 2 ^ 63"
    and "0 \<le> env_clock u (env_ticks u)"
    and "env_clock u (env_ticks u) div 1000000000 < (env_clock s (env_ticks s) + hours 12) div 1000000000"
  shows "auth_user A secret p u = (Inr who, u\<lparr>env_ticks := Suc (env_ticks u)\<rparr>)"
proof -
  obtain found v where f: "find_by_username (lg_username req) s = (Inr (Some found), v)"
    and who: "who = iw_investigator found" and tok: "issue_token A who secret v = (Inr token, t)"
    using assms(2) unfolding checked_login_def
    by (auto elim!: and_then_InrE map_err_act_cases simp: ok_or_def split: option.splits if_splits)
  have "v = s\<lparr>env_calls := Suc (env_calls s)\<rparr>"
    using f unfolding find_by_username_def by (auto elim!: and_then_InrE map_err_act_cases query_cases)
  then have "ac_encode A \<lparr>clm_sub = inv_id who, clm_username = inv_username who, clm_role = role_str (inv_role who),
      clm_exp = expiry (env_clock s (env_ticks s))\<rparr> secret = Inr token"
    using tok by (simp add: issue_token_def)
  from issued_token_user [OF assms(1,3) this assms(4-7)] show ?thesis .
qed

text \<open>An instance of the libraries that signs one set of claims.\<close>

definition sample_claims :: claims where
  "sample_claims = \<lparr>clm_sub = ''inv-1'', clm_username = ''ana'', clm_role = ''investigator'', clm_exp = 43200\<rparr>"

definition sample_auth :: auth_crates where
  "sample_auth =
     \<lparr>ac_hash_password = (\<lambda>salt p. Inr (salt @ p)),
      ac_verify_password = (\<lambda>p h. Some (p = h)),
      ac_encode = (\<lambda>c k. if c = sample_claims then Inr ''head.body.sig'' else Inl ''unsupported''),
      ac_decode = (\<lambda>t k now. if t = ''head.body.sig'' \<and> now div 1000000000 < 43200 then Inr sample_claims else Inl ''invalid''),
      ac_header_str = (\<lambda>v. Some v)\<rparr>"

lemma sample_tokens_ok: "tokens_ok sample_auth"
  by (simp add: tokens_ok_def sample_auth_def sample_claims_def token_char_def)

definition sample_login_db :: db where
  "sample_login_db = (sample_db 9)
     \<lparr>db_investigators := [\<lparr>inr_id = ''inv-1'', inr_username = ''ana'', inr_password_hash = ''secret'',
                            inr_role = ''investigator'', inr_created_at = []\<rparr>]\<rparr>"

definition sample_who :: investigator where
  "sample_who = \<lparr>inv_id = ''inv-1'', inv_username = ''ana'', inv_role = Investigator\<rparr>"

definition sample_cookie :: parts where
  "sample_cookie = \<lparr>pt_authorization = None, pt_cookie = Some ''stellarrisk_token=head.body.sig''\<rparr>"

lemma sample_login:
  "\<exists>t. checked_login sample_auth ''key'' \<lparr>lg_username = ''ana'', lg_password = ''secret''\<rparr> sample_login_db
     = (Inr (sample_who, ''head.body.sig''), t)"
  by (simp add: checked_login_def find_by_username_def query_def sql_call_def and_then_def map_err_act_def
      sample_login_db_def sample_db_def row_to_investigator_def role_from_str_def verify_password_def issue_token_def
      utc_now_def sample_auth_def sample_claims_def expiry_def hours_def seconds_def token_ttl_hours_def role_str_def
      sample_who_def transpose_opt_def)

theorem session_roundtrip_witness:
  "auth_user sample_auth ''key'' sample_cookie ((sample_db 9)\<lparr>env_clock := (\<lambda>_. seconds 43199)\<rparr>)
     = (Inr sample_who, (sample_db 9)\<lparr>env_clock := (\<lambda>_. seconds 43199), env_ticks := 1\<rparr>)"
proof -
  obtain t where l: "checked_login sample_auth ''key'' \<lparr>lg_username = ''ana'', lg_password = ''secret''\<rparr> sample_login_db
     = (Inr (sample_who, ''head.body.sig''), t)" using sample_login by blast
  have p: "presents sample_cookie ''head.body.sig''"
    by (simp add: presents_def sample_cookie_def auth_cookie_name_def)
  show ?thesis
    using session_roundtrip [OF sample_tokens_ok l p, of "(sample_db 9)\<lparr>env_clock := (\<lambda>_. seconds 43199)\<rparr>"]
    by (simp add: sample_login_db_def sample_db_def seconds_def hours_def)
qed

end
