(* ===== verification/ServerProps.thy ===== *)
theory ServerProps
  imports Server PipelineProps AuthProps
begin

text \<open>
  Properties of the whole server: what a request may change and who may send it, runs of requests and
  turns of the ingestion loop, and the locale \<open>server_frame\<close>, which carries a relation that the few
  writing operations keep over any such run.
\<close>

section \<open>Requests that only read\<close>

lemma reads_stores [preserve_rules]:
  "preserves outside_db (sqlite_get X i)"
  "preserves outside_db (sqlite_list X f)"
  "preserves outside_db (sqlite_decision_history X i)"
  "preserves outside_db (sqlite_list_for_alert X i)"
  "preserves outside_db (sqlite_verify_chain X)"
  unfolding sqlite_get_def sqlite_list_def sqlite_decision_history_def sqlite_list_for_alert_def sqlite_verify_chain_def
    select_records_def Let_def
  by (intro preserve_rules allI; simp add: preserve_rules)+

lemma reads_service [preserve_rules]:
  "preserves outside_db (get_alert (sqlite_service X) i)"
  "preserves outside_db (list_alerts (sqlite_service X) f)"
  "preserves outside_db (decision_history (sqlite_service X) i)"
  "preserves outside_db (audit_history (sqlite_service X) i)"
  by (simp_all add: get_alert_def list_alerts_def decision_history_def audit_history_def sqlite_service_def preserve_rules)

lemma reads_auth [preserve_rules]:
  "preserves outside_db (auth_user A secret p)"
  "preserves outside_db (authenticated A st p)"
  unfolding auth_user_def authenticated_def decode_token_def by (intro preserve_rules)+

lemma reads_optional [preserve_rules]: "preserves outside_db (optional_auth_user A secret p)"
  using reads_auth(1) [of A secret p]
  by (auto simp: preserves_def optional_auth_user_def split: prod.splits sum.splits)

lemma reads_login [preserve_rules]: "preserves outside_db (checked_login A secret req)"
  unfolding checked_login_def issue_token_def by (intro preserve_rules)

lemma reads_wrappers [preserve_rules]:
  "preserves outside_db m \<Longrightarrow> preserves outside_db (domain_call m)"
  "preserves outside_db (checked r)" "preserves outside_db (found_or msg x)" "preserves outside_db (page_or_panic pg)"
  "preserves outside_db n \<Longrightarrow> preserves outside_db (answer f n)"
  unfolding domain_call_def checked_def found_or_def page_or_panic_def answer_def by (intro preserve_rules; assumption)+

section \<open>What a request may change\<close>

text \<open>
  The wiring of \<open>bootstrap\<close>: the service over the SQLite stores, an advisor and an anchor that reach
  no table.
\<close>

definition wired :: "crates \<Rightarrow> 'a db_scheme app_state \<Rightarrow> bool" where
  "wired X st \<longleftrightarrow> app_alerts st = sqlite_service X \<and> app_audit st = sqlite_audit_ops X
     \<and> outside_call (app_advisor st) \<and> outside_call (case_prod (app_anchor st))"

definition may_write :: "request \<Rightarrow> bool" where
  "may_write q = (case q of IngestTransaction _ \<Rightarrow> True | SubmitDecision _ _ \<Rightarrow> True | DashboardDecision _ _ \<Rightarrow> True | _ \<Rightarrow> False)"

lemma reads_signed_in:
  "(\<And>u. preserves outside_db (k u)) \<Longrightarrow> preserves outside_db (signed_in A st p k)"
  unfolding signed_in_def
  by (rule reads.keeps_and_then [OF reads_optional]) (auto split: option.split intro: preserve_rules)

lemma reads_view: "app_alerts st = sqlite_service X \<Longrightarrow> preserves outside_db (alert_view_of X st i)"
  unfolding alert_view_of_def by (simp, intro preserve_rules)

lemma serve_reads:
  assumes "wired X st" "\<not> may_write q"
  shows "preserves outside_db (serve X A st p q)"
proof -
  have w: "app_alerts st = sqlite_service X" "app_audit st = sqlite_audit_ops X" using assms(1) by (simp_all add: wired_def)
  have v: "au_verify_chain (sqlite_audit_ops X) = sqlite_verify_chain X" by (simp add: sqlite_audit_ops_def)
  show ?thesis using assms(2)
    by (cases q)
      (simp_all add: may_write_def w v login_def login_form_def api_list_transactions_def api_get_transaction_def
        api_evaluate_transaction_def api_list_alerts_def api_get_alert_def api_get_alert_ai_def api_decision_history_def
        api_alert_audit_def api_verify_audit_chain_def alerts_list_def alert_detail_def case_prod_unfold Let_def,
       (intro preserve_rules reads_signed_in reads_view w)+)
qed

text \<open>The common body of the two decision endpoints.\<close>

lemma decide_cases:
  assumes "wired X st" "decide X st who i req s = (r, t)"
  obtains (refused) e where "r = Inl (Failed e)" "t = s"
        "\<not> (can_decide (inv_role who) \<and> (\<exists>d. decision_from_str (dq_decision req) = Inr d) \<and> trim (dq_rationale req) \<noteq> [])"
    | (submitted) d res u where "can_decide (inv_role who)" "decision_from_str (dq_decision req) = Inr d"
        "trim (dq_rationale req) \<noteq> []"
        "submit_decision X (sqlite_service X) i (inv_id who) d (dq_rationale req) s = (res, u)" "outside_db u t"
proof (cases "can_decide (inv_role who)")
  case False
  then have "r = Inl (Failed (ApiForbidden ''only investigator or admin roles may record a decision''))" "t = s"
    using assms(2) by (simp_all add: decide_def checked_def require_decision_role_def)
  with False show thesis by (intro refused) simp_all
next
  case role: True
  show thesis
  proof (cases "decision_from_str (dq_decision req)")
    case (Inl m)
    then have "r = Inl (Failed (ApiBadRequest m))" "t = s"
      using assms(2) role by (simp_all add: decide_def checked_def require_decision_role_def)
    with Inl show thesis by (intro refused) simp_all
  next
    case (Inr d)
    show thesis
    proof (cases "trim (dq_rationale req) = []")
      case True
      then have "r = Inl (Failed (ApiBadRequest ''rationale is required''))" "t = s"
        using assms(2) role Inr by (simp_all add: decide_def checked_def require_decision_role_def)
      with True show thesis by (intro refused) simp_all
    next
      case False
      obtain res u where sub: "submit_decision X (sqlite_service X) i (inv_id who) d (dq_rationale req) s = (res, u)"
        by fastforce
      have anchor: "outside_db u (snd (app_anchor st i h u))" for h
        using outside_call.outside [of "case_prod (app_anchor st)" "(i, h)" u] assms(1)
        by (cases "app_anchor st i h u") (simp add: wired_def)
      have "outside_db u t"
        using assms role Inr False sub anchor
        by (auto simp: decide_def checked_def require_decision_role_def domain_call_def wired_def and_then_def map_err_act_def
            split: sum.splits option.splits)
      with role Inr False sub show thesis by (rule submitted)
    qed
  qed
qed

text \<open>The two decision endpoints, and the user that a request authenticates as.\<close>

definition decision_of :: "request \<Rightarrow> (uuid \<times> decision_request) option" where
  "decision_of q = (case q of SubmitDecision i req \<Rightarrow> Some (i, req) | DashboardDecision i req \<Rightarrow> Some (i, req) | _ \<Rightarrow> None)"

definition requester :: "auth_crates \<Rightarrow> 'a env_scheme app_state \<Rightarrow> parts \<Rightarrow> 'a env_scheme \<Rightarrow> api_error + investigator" where
  "requester A st p s = fst (auth_user A (app_jwt_secret st) p s)"

lemma authenticated_cases:
  assumes "and_then (authenticated A st p) k s = (r, t)"
  obtains (anonymous) "outside_db s t"
    | (known) who u where "requester A st p s = Inr who" "outside_db s u" "k who u = (r, t)"
  using assms
proof (cases rule: and_then_cases)
  case (early e)
  then show thesis using preservesD [OF reads_auth(2)] anonymous by blast
next
  case (cont who u)
  then have "requester A st p s = Inr who"
    by (auto simp: authenticated_def requester_def elim: map_err_act_cases)
  then show thesis using preservesD [OF reads_auth(2) cont(1)] cont(2) by (rule known)
qed

lemma serve_decision:
  assumes "decision_of q = Some (i, req)" "serve X A st p q s = (r, t)"
  obtains r' where "and_then (authenticated A st p) (\<lambda>who. decide X st who i req) s = (r', t)"
  using assms by (cases q)
    (auto simp: decision_of_def answer_def api_submit_decision_def submit_decision_form_def and_then_def
      split: prod.splits sum.splits)

lemma serve_ingest:
  assumes "wired X st" "serve X A st p (IngestTransaction tx) s = (r, t)"
  obtains (no) "outside_db s t"
    | (yes) who u r' where "requester A st p s = Inr who" "can_administer (inv_role who)" "outside_db s u"
        "process_transaction X st tx u = (r', t)"
proof -
  obtain r' where run: "api_ingest_transaction X A st p tx s = (r', t)"
    using assms(2) by (auto simp: answer_def elim!: and_then_cases)
  from this [unfolded api_ingest_transaction_def] show thesis
  proof (cases rule: authenticated_cases)
    case anonymous
    then show thesis by (rule no)
  next
    case (known who u)
    show thesis
    proof (cases "can_administer (inv_role who)")
      case False
      with known show thesis using no by (simp add: checked_def require_admin_def)
    next
      case True
      with known obtain r'' where "process_transaction X st tx u = (r'', t)"
        by (auto simp: checked_def require_admin_def elim!: map_err_act_cases)
      with known(1,2) True show thesis by (intro yes)
    qed
  qed
qed

text \<open>All tables are as they were.\<close>

definition same_tables :: "'a db_scheme \<Rightarrow> 'a db_scheme \<Rightarrow> bool" where
  "same_tables s t \<longleftrightarrow>
     db_audit t = db_audit s \<and> db_alerts t = db_alerts s \<and> db_decisions t = db_decisions s
     \<and> db_transactions t = db_transactions s \<and> db_flagged t = db_flagged s \<and> db_cursors t = db_cursors s
     \<and> db_dead_letters t = db_dead_letters s \<and> db_investigators t = db_investigators s"

lemma outside_same: "outside_db s t \<Longrightarrow> same_tables s t"
  by (simp add: outside_db_def same_tables_def)

text \<open>
  C2:
  A request that changes anything in the database, whatever its outcome, was sent by an
  authenticated user and is either an ingestion by an administrator, or a decision by an
  investigator or administrator that names one of the four decisions and gives a rationale that is
  not blank. Every other request, evaluation of a transaction on demand and login included, leaves
  every table as it is.
\<close>

theorem writes_are_authorised:
  assumes "wired X st" and "serve X A st p q s = (r, t)" and "\<not> same_tables s t"
  shows "\<exists>who. requester A st p s = Inr who
     \<and> ((\<exists>tx. q = IngestTransaction tx) \<and> can_administer (inv_role who)
        \<or> (\<exists>i req d. decision_of q = Some (i, req) \<and> can_decide (inv_role who)
              \<and> decision_from_str (dq_decision req) = Inr d \<and> trim (dq_rationale req) \<noteq> []))"
proof -
  have changed: "\<not> outside_db s t" using assms(3) outside_same by blast
  then have "may_write q" using preservesD [OF serve_reads [OF assms(1)] assms(2)] by blast
  then consider tx where "q = IngestTransaction tx" | i req where "decision_of q = Some (i, req)"
    by (cases q) (simp_all add: may_write_def decision_of_def)
  then show ?thesis
  proof cases
    case (1 tx)
    from serve_ingest [OF assms(1) assms(2) [unfolded 1]] changed 1 show ?thesis by blast
  next
    case (2 i req)
    from serve_decision [OF 2 assms(2)] obtain r' where
      "and_then (authenticated A st p) (\<lambda>who. decide X st who i req) s = (r', t)" .
    then show ?thesis
    proof (cases rule: authenticated_cases)
      case (known who u)
      from assms(1) known(3) show ?thesis
        by (cases rule: decide_cases) (use known changed 2 in auto)
    qed (use changed in blast)
  qed
qed

text \<open>A signed-in investigator escalates the sample alert.\<close>

lemma sample_wired: "wired sample_crates (sample_app :: 'a db_scheme app_state)"
  by (simp add: wired_def sample_app_def null_outside.outside_call_axioms noop_outside.outside_call_axioms)

lemma sample_requester:
  "auth_user sample_auth ''key'' sample_cookie (sample_alert_db n) = (Inr sample_who, (sample_alert_db n)\<lparr>env_ticks := 1\<rparr>)"
proof -
  have p: "presents sample_cookie ''head.body.sig''"
    by (simp add: presents_def sample_cookie_def auth_cookie_name_def)
  have "token_from_parts sample_auth sample_cookie = Some ''head.body.sig''"
    by (rule presents_token [OF sample_tokens_ok _ p]) (simp add: token_char_def)
  then show ?thesis
    by (simp add: auth_user_def decode_token_def and_then_def utc_now_def sample_auth_def sample_claims_def
        sample_alert_db_def sample_db_def role_from_str_def sample_who_def)
qed

definition sample_decision :: request where
  "sample_decision = SubmitDecision 77 \<lparr>dq_decision = ''escalated'', dq_rationale = ''structuring''\<rparr>"

lemma sample_submit:
  "\<exists>r t. submit_decision sample_crates (sqlite_service sample_crates) 77 who decision.Escalated why ((sample_alert_db 5)\<lparr>env_ticks := 1\<rparr>)
     = (r, t) \<and> db_decisions t \<noteq> []"
proof -
  let ?X = sample_crates
  have id: "alr_id sample_alert_row = cr_uuid_text ?X 77"
    using written_alert_row(3) [OF sample_codecs_ok sample_alert_row] by (simp add: sample_alert_def opened_alert_def)
  have row: "row_to_alert ?X sample_alert_row = Inr (stored_alert ?X sample_alert)"
    using written_alert_row(1,2) [OF sample_codecs_ok sample_alert_row] row_to_alert_ok by metis
  show ?thesis using id row
    by (simp add: submit_decision_def sqlite_service_def sqlite_get_def query_def sql_call_def sample_alert_db_def
        sample_db_def and_then_def map_err_act_def transpose_opt_def Let_def new_uuid_def utc_now_def
        sqlite_record_decision_def sql_transaction_def execute_def insert_decision_row_def decision_row_of_def
        update_alert_status_def log_event_def sqlite_append_def)
qed

lemma sample_decision_run:
  obtains r t where "serve sample_crates sample_auth sample_app sample_cookie sample_decision (sample_alert_db 5) = (r, t)"
    "db_decisions t \<noteq> []"
proof -
  obtain res u where sub: "submit_decision sample_crates (sqlite_service sample_crates) 77 (inv_id sample_who)
      decision.Escalated ''structuring'' ((sample_alert_db 5)\<lparr>env_ticks := 1\<rparr>) = (res, u)" "db_decisions u \<noteq> []"
    using sample_submit by blast
  obtain r t where run: "serve sample_crates sample_auth sample_app sample_cookie sample_decision (sample_alert_db 5) = (r, t)"
    by fastforce
  obtain r' where dec: "and_then (authenticated sample_auth sample_app sample_cookie)
      (\<lambda>who. decide sample_crates sample_app who 77 \<lparr>dq_decision = ''escalated'', dq_rationale = ''structuring''\<rparr>)
      (sample_alert_db 5) = (r', t)"
    using serve_decision [OF _ run] by (auto simp: sample_decision_def decision_of_def)
  have key: "app_jwt_secret sample_app = ''key''" by (simp add: sample_app_def)
  have "decide sample_crates sample_app sample_who 77 \<lparr>dq_decision = ''escalated'', dq_rationale = ''structuring''\<rparr>
      ((sample_alert_db 5)\<lparr>env_ticks := 1\<rparr>) = (r', t)"
    using dec by (simp add: authenticated_def key and_then_def map_err_act_def sample_requester)
  from sample_wired this have "db_decisions t \<noteq> []"
  proof (cases rule: decide_cases)
    case (refused e)
    moreover have "trim ''structuring'' = ''structuring''" by (rule trim_token) (simp add: token_char_def)
    ultimately show ?thesis by (simp add: sample_who_def can_decide_def decision_from_str_def)
  next
    case (submitted d res' u')
    then show ?thesis using sub by (simp add: decision_from_str_def outside_db_def)
  qed
  with run show thesis by (rule that)
qed

theorem writes_are_authorised_witness:
  "requester sample_auth sample_app sample_cookie (sample_alert_db 5) = Inr sample_who \<and> can_decide (inv_role sample_who)"
proof -
  obtain r t where run: "serve sample_crates sample_auth sample_app sample_cookie sample_decision (sample_alert_db 5) = (r, t)"
    and "db_decisions t \<noteq> []" by (rule sample_decision_run)
  then have "\<not> same_tables (sample_alert_db 5) t" by (simp add: same_tables_def sample_alert_db_def sample_db_def)
  from writes_are_authorised [OF sample_wired run this] show ?thesis
    using sample_requester [of 5] by (auto simp: requester_def sample_app_def sample_who_def sample_decision_def)
qed

section \<open>Only decision requests decide\<close>

lemma submit_effect:
  assumes "sqlite_inv X s" "submit_decision X (sqlite_service X) i who d rationale s = (r, t)"
  shows "sqlite_inv X t \<and> prefix (sql_log X s) (sql_log X t)
    \<and> (sql_amap X t = sql_amap X s \<and> sql_decs X t = sql_decs X s
       \<or> (\<exists>rec. decides rec i who d rationale \<and> sql_amap X s i \<noteq> None \<and> sql_decs X t = sql_decs X s @ [rec]
            \<and> sql_amap X t = update_alert i (\<lambda>a. a\<lparr>al_status := status_of_decision d\<rparr>) (sql_amap X s)))"
  using sqlite_review.submit_decision_cases [OF assms [unfolded sqlite_service_def]]
  by cases auto

lemma statuses_extend_refl: "statuses_extend m m"
  by (simp add: statuses_extend_def)

text \<open>
  C1:
  The review at the level of HTTP. Whatever a request is and however it ends, the log keeps its
  entries and verifies as before, and either no decision is recorded, every alert keeps its status
  and new alerts are open, or the request came through one of the two decision endpoints from an
  authenticated investigator or administrator; then exactly one decision is recorded, with that
  user, the decision and the rationale of the request, for the alert it names, and that alert alone
  gets the status of the decision.
\<close>

theorem only_decision_requests_decide:
  assumes "wired X st" and "sqlite_inv X s" and "serve X A st p q s = (r, t)"
  shows "sqlite_inv X t \<and> prefix (sql_log X s) (sql_log X t)
    \<and> (sql_decs X t = sql_decs X s \<and> statuses_extend (sql_amap X s) (sql_amap X t)
       \<or> (\<exists>who i req d rec. decision_of q = Some (i, req) \<and> requester A st p s = Inr who \<and> can_decide (inv_role who)
            \<and> decision_from_str (dq_decision req) = Inr d \<and> trim (dq_rationale req) \<noteq> []
            \<and> decides rec i (inv_id who) d (dq_rationale req) \<and> sql_decs X t = sql_decs X s @ [rec]
            \<and> sql_amap X s i \<noteq> None
            \<and> sql_amap X t = update_alert i (\<lambda>a. a\<lparr>al_status := status_of_decision d\<rparr>) (sql_amap X s)))"
proof -
  have quiet: ?thesis if "quiet_effect X s t"
    using that assms(2) by (simp add: quiet_effect_def)
  have reads: ?thesis if "outside_db s t"
    using quiet outside_keeps(2) [OF that] by blast
  consider "\<not> may_write q" | tx where "q = IngestTransaction tx" | i req where "decision_of q = Some (i, req)"
    by (cases q) (simp_all add: may_write_def decision_of_def)
  then show ?thesis
  proof cases
    case 1
    show ?thesis by (rule reads) (rule preservesD [OF serve_reads [OF assms(1) 1] assms(3)])
  next
    case (2 tx)
    have w: "app_alerts st = sqlite_service X" "outside_call (app_advisor st)" using assms(1) by (simp_all add: wired_def)
    from assms(1) assms(3) [unfolded 2] show ?thesis
    proof (cases rule: serve_ingest)
      case (yes who u r')
      have "quiet_effect X s t"
        by (rule quiet.trans [OF outside_keeps(2) [OF yes(3)] preservesD [OF quiet_frame.process [OF w] yes(4)]])
      then show ?thesis by (rule quiet)
    qed (rule reads)
  next
    case (3 i req)
    from serve_decision [OF 3 assms(3)] obtain r' where
      "and_then (authenticated A st p) (\<lambda>who. decide X st who i req) s = (r', t)" .
    then show ?thesis
    proof (cases rule: authenticated_cases)
      case (known who u)
      from assms(1) known(3) show ?thesis
      proof (cases rule: decide_cases)
        case refused
        with known(2) show ?thesis using reads by simp
      next
        case (submitted d res v)
        have su: "review_kept s u" "review_kept v t"
          using known(2) submitted(5) by (simp_all add: outside_db_def review_kept_def)
        note same = review_kept_same [OF su(1), of X] review_kept_same [OF su(2), of X]
        from submit_effect [OF _ submitted(4)] same assms(2) show ?thesis
          using 3 known(1) submitted(1,2,3) statuses_extend_refl by auto
      qed
    qed (rule reads)
  qed
qed

theorem only_decision_requests_decide_witness:
  "length (sql_decs sample_crates
     (snd (serve sample_crates sample_auth sample_app sample_cookie sample_decision (sample_alert_db 5)))) \<le> 1"
proof -
  obtain r t where run: "serve sample_crates sample_auth sample_app sample_cookie sample_decision (sample_alert_db 5) = (r, t)"
    by fastforce
  from only_decision_requests_decide [OF sample_wired sample_alert_db_inv run] show ?thesis
    using run by (auto simp: sample_alert_db_empty)
qed

text \<open>Anchoring is best effort: whatever the anchor does, the answer to a decision is the same.\<close>

theorem anchoring_cannot_fail_decision:
  "fst (decide X (st\<lparr>app_anchor := anc\<rparr>) who i req s) = fst (decide X st who i req s)"
  by (simp add: decide_def and_then_def checked_def domain_call_def map_err_act_def split: prod.split sum.split option.split)

section \<open>Requests and the ingestion loop together\<close>

text \<open>
  The server runs handlers and turns of the ingestion loop, each to its end, in any order. The first
  component of a state is the loop's cursor in memory.
\<close>

inductive server_step ::
  "crates \<Rightarrow> auth_crates \<Rightarrow> 'a db_scheme app_state \<Rightarrow> 'a db_scheme transaction_source \<Rightarrow> string \<Rightarrow> nat \<Rightarrow>
   string option \<times> 'a db_scheme \<Rightarrow> string option \<times> 'a db_scheme \<Rightarrow> bool"
  for X A st src name ms where
  step_request: "serve X A st p q s = (r, t) \<Longrightarrow> server_step X A st src name ms (c, s) (c, t)"
| step_ingest: "source_turn X st src name ms cs = cs' \<Longrightarrow> server_step X A st src name ms cs cs'"

inductive_cases server_stepE: "server_step X A st src name ms (c, s) (c', t)"

text \<open>The ingestion loop, turn after turn from its stored cursor, is such a run.\<close>

lemma run_source_steps:
  "(server_step X A st src name ms)\<^sup>*\<^sup>* (start_cursor name s) (run_source X st src name ms turns s)"
  unfolding run_source_def
  by (induction turns) (auto intro: rtranclp.rtrancl_into_rtrancl step_ingest)

text \<open>Both sources reach no table.\<close>

lemma get_json_outside: "preserves outside_db (get_json X h parse url)"
proof (rule preservesI, goal_cases)
  case (1 s r t)
  then have "get_json_loop X parse (hz_max_retries h) url 0 s = (r, t)" by (simp add: get_json_def)
  then obtain rqs ds where "t = s\<lparr>env_sent := rqs, env_slept := ds\<rparr>" using get_json_loop_run by blast
  then show ?case by (simp add: outside_db_def same_oracles_def)
qed

lemma poll_records_outside: "poll_records X C h recs b s = (b', t) \<Longrightarrow> outside_db s t"
proof (induction recs arbitrary: b s)
  case Nil
  then show ?case by (simp add: reads.refl)
next
  case (Cons rec recs)
  obtain ops u where ops: "fetch_operations X C h (ht_hash rec) s = (ops, u)" by fastforce
  then have "outside_db s u" unfolding fetch_operations_def by (rule preservesD [OF get_json_outside])
  moreover have "poll_records X C h recs (add_outcome (record_outcome X rec ops) (ht_paging_token rec) b) u = (b', t)"
    using Cons.prems ops by simp
  ultimately show ?case using Cons.IH reads.trans by blast
qed

interpretation horizon_outside: outside_call "src_poll (horizon_transaction_source X C h)" for X C h
proof (unfold_locales, goal_cases)
  case (1 c s r t)
  then have "horizon_poll X C h c s = (r, t)" by (simp add: horizon_transaction_source_def)
  then show ?case unfolding horizon_poll_def
  proof (cases rule: and_then_cases)
    case (early e)
    then show ?thesis using preservesD [OF get_json_outside] by blast
  next
    case (cont page u)
    then have "outside_db u t" using poll_records_outside by (auto simp: Let_def split: prod.splits)
    then show ?thesis using preservesD [OF get_json_outside cont(1)] reads.trans by blast
  qed
qed

interpretation mock_outside: outside_call "src_poll (mock_transaction_source m)" for m
  by unfold_locales (simp add: mock_transaction_source_def)

section \<open>What every request and every turn keeps\<close>

locale server_frame = batch_frame R X
  for R :: "'a db_scheme \<Rightarrow> 'a db_scheme \<Rightarrow> bool" and X +
  assumes decide_kept: "preserves R (submit_decision X (sqlite_service X) i who d why)"
begin

lemma request_kept:
  assumes "wired X st" "serve X A st p q s = (r, t)"
  shows "R s t"
proof -
  have w: "app_alerts st = sqlite_service X" "outside_call (app_advisor st)" using assms(1) by (simp_all add: wired_def)
  consider "\<not> may_write q" | tx where "q = IngestTransaction tx" | i req where "decision_of q = Some (i, req)"
    by (cases q) (simp_all add: may_write_def decision_of_def)
  then show ?thesis
  proof cases
    case 1
    show ?thesis by (rule outside_frame [OF preservesD [OF serve_reads [OF assms(1) 1] assms(2)]])
  next
    case (2 tx)
    from assms(1) assms(2) [unfolded 2] show ?thesis
    proof (cases rule: serve_ingest)
      case (yes who u r')
      show ?thesis by (rule trans [OF outside_frame [OF yes(3)] preservesD [OF process [OF w] yes(4)]])
    qed (rule outside_frame)
  next
    case (3 i req)
    from serve_decision [OF 3 assms(2)] obtain r' where
      "and_then (authenticated A st p) (\<lambda>who. decide X st who i req) s = (r', t)" .
    then show ?thesis
    proof (cases rule: authenticated_cases)
      case (known who u)
      from assms(1) known(3) show ?thesis
      proof (cases rule: decide_cases)
        case refused
        with known(2) show ?thesis using outside_frame by simp
      next
        case (submitted d res v)
        show ?thesis
          by (rule trans [OF outside_frame [OF known(2)] trans [OF preservesD [OF decide_kept submitted(4)] outside_frame [OF submitted(5)]]])
      qed
    qed (rule outside_frame)
  qed
qed

lemma step_kept:
  assumes "wired X st" "outside_call (src_poll src)" "server_step X A st src name ms (c, s) (c', t)"
  shows "R s t"
  using assms(3)
proof (rule server_stepE)
  show ?thesis if "serve X A st p q s = (r, t)" for p q r by (rule request_kept [OF assms(1) that])
  show ?thesis if "source_turn X st src name ms (c, s) = (c', t)"
    using turn [OF _ _ assms(2) that] assms(1) by (simp add: wired_def)
qed

lemma run_kept:
  assumes "wired X st" "outside_call (src_poll src)" "(server_step X A st src name ms)\<^sup>*\<^sup>* (c, s) (c', t)"
  shows "R s t"
proof -
  have base: "R s s" by (rule refl)
  show ?thesis using assms(3)
  proof (induction rule: rtranclp_induct2)
    case refl
    show ?case by (rule base)
  next
    case (step c1 s1 c2 s2)
    show ?case by (rule trans [OF step(3) step_kept [OF assms(1,2) step(2)]])
  qed
qed

end

text \<open>The review is consistent, and stays so while the log and the decisions only grow.\<close>

definition server_ok :: "crates \<Rightarrow> 'a db_scheme \<Rightarrow> bool" where
  "server_ok X s \<longleftrightarrow> sqlite_inv X s \<and> status_projected (sql_amap X s) (sql_decs X s)"

definition server_grows :: "crates \<Rightarrow> 'a db_scheme \<Rightarrow> 'a db_scheme \<Rightarrow> bool" where
  "server_grows X s t \<longleftrightarrow> (server_ok X s \<longrightarrow>
     server_ok X t \<and> prefix (sql_log X s) (sql_log X t) \<and> prefix (sql_decs X s) (sql_decs X t))"

lemma server_grows_quiet: "quiet_effect X s t \<Longrightarrow> server_grows X s t"
  by (auto simp: quiet_effect_def server_grows_def server_ok_def intro: status_projected_extend)

lemma grows_kept: "preserves (quiet_effect X) m \<Longrightarrow> preserves (server_grows X) m"
  by (erule preserves_mono) (rule server_grows_quiet)

lemma grows_decide: "preserves (server_grows X) (submit_decision X (sqlite_service X) i who d why)"
proof (rule preservesI)
  fix s r t
  assume run: "submit_decision X (sqlite_service X) i who d why s = (r, t)"
  show "server_grows X s t"
    using sqlite_review.decide_effect [OF _ _ run [unfolded sqlite_service_def]]
    by (auto simp: server_grows_def server_ok_def)
qed

lemma grows_preorder: "state_preorder (server_grows X)"
proof
  show "server_grows X s s" for s by (simp add: server_grows_quiet quiet.refl)
  show "server_grows X s t \<Longrightarrow> server_grows X t u \<Longrightarrow> server_grows X s u" for s t u
    by (auto simp: server_grows_def intro: prefix_order.order_trans)
qed

interpretation grows: server_frame "server_grows X" X for X
  using state_preorder.trans [OF grows_preorder, of X]
  by unfold_locales (simp_all add: server_grows_quiet quiet.refl grows_decide grows_kept preserve_rules outside_keeps)

text \<open>A database with an empty review: nothing logged, opened or decided yet.\<close>

definition empty_review :: "'a db_scheme \<Rightarrow> bool" where
  "empty_review s \<longleftrightarrow> db_audit s = [] \<and> db_alerts s = [] \<and> db_decisions s = []"

lemma empty_review_ok: "codecs_ok X \<Longrightarrow> empty_review s \<Longrightarrow> server_ok X s"
  by (simp add: empty_review_def server_ok_def sqlite_inv_def sql_audit_inv_def sql_alert_inv_def sql_log_def numbered_def
      status_projected_def sql_amap_def sql_decs_def)

text \<open>What consistency says about an alert and about the answer of \<open>verify_chain\<close>.\<close>

lemma server_ok_review:
  assumes "server_ok X t"
  shows "case sql_amap X t i of None \<Rightarrow> decisions_for i (sql_decs X t) = []
           | Some a \<Rightarrow> al_status a = status_after (decisions_for i (sql_decs X t))"
    "case sqlite_verify_chain X t of (Inl e, u) \<Rightarrow> True
       | (Inr v, u) \<Rightarrow> cv_valid v \<and> cv_records_checked v = length (sql_log X t)"
proof -
  have p: "status_projected (sql_amap X t) (sql_decs X t)" and "sql_audit_inv X t"
    using assms by (simp_all add: server_ok_def sqlite_inv_def)
  show "case sqlite_verify_chain X t of (Inl e, u) \<Rightarrow> True
       | (Inr v, u) \<Rightarrow> cv_valid v \<and> cv_records_checked v = length (sql_log X t)"
    using sqlite_audit.verify_ok [OF \<open>sql_audit_inv X t\<close>] by (auto split: prod.split sum.split)
  show "case sql_amap X t i of None \<Rightarrow> decisions_for i (sql_decs X t) = []
           | Some a \<Rightarrow> al_status a = status_after (decisions_for i (sql_decs X t))"
    using p no_decisions_for [OF p, of i] by (auto simp: status_projected_def split: option.split)
qed

text \<open>What holds in every state that a server reaches from an empty review.\<close>

lemma server_keeps_review:
  assumes "wired X st" and "outside_call (src_poll src)" and "codecs_ok X" and "empty_review s"
    and "(server_step X A st src name ms)\<^sup>*\<^sup>* (c, s) (c', t)"
  shows "(\<forall>i. case sql_amap X t i of None \<Rightarrow> decisions_for i (sql_decs X t) = []
           | Some a \<Rightarrow> al_status a = status_after (decisions_for i (sql_decs X t)))
    \<and> (case sqlite_verify_chain X t of (Inl e, u) \<Rightarrow> True
       | (Inr v, u) \<Rightarrow> cv_valid v \<and> cv_records_checked v = length (sql_log X t))"
proof -
  have "server_ok X t"
    using grows.run_kept [OF assms(1,2,5)] empty_review_ok [OF assms(3,4)] by (simp add: server_grows_def)
  from server_ok_review [OF this] show ?thesis by blast
qed

end
