(* ===== verification/TableProps.thy ===== *)
theory TableProps
  imports ServerProps
begin

text \<open>
  The tables as a whole: in every state that a server reaches, what it stored can be read back. The
  operations that write to the review leave transactions and investigators alone; with \<open>tx_save\<close>
  the transactions stay readable.
\<close>

section \<open>Transactions and investigators\<close>

definition others_kept :: "'a db_scheme \<Rightarrow> 'a db_scheme \<Rightarrow> bool" where
  "others_kept s t \<longleftrightarrow> db_transactions t = db_transactions s \<and> db_investigators t = db_investigators s"

interpretation others: state_preorder others_kept
  by unfold_locales (simp_all add: others_kept_def)

lemma others_env [preserve_rules]:
  "preserves others_kept utc_now" "preserves others_kept new_uuid" "preserves others_kept (query g)"
  by (auto simp: preserves_def others_kept_def utc_now_def new_uuid_def elim!: query_cases)

lemma others_execute:
  assumes "\<And>s t. f s = Inr t \<Longrightarrow> others_kept s t"
  shows "preserves others_kept (execute f)"
  using assms by (fastforce simp: preserves_def others_kept_def elim!: execute_cases)

lemma others_writes [preserve_rules]:
  "preserves others_kept (execute (insert_alert_row X arow))"
  "preserves others_kept (execute (insert_audit_row X urow))"
  "preserves others_kept (execute (update_ai_status X i json))"
  "preserves others_kept (execute (insert_decision_row X drow))"
  "preserves others_kept (execute (update_alert_status i' st))"
  "preserves others_kept (execute (upsert_cursor crow))"
  "preserves others_kept (execute (insert_dead_letter X lrow))"
  by (rule others_execute; auto simp: insert_alert_row_def insert_audit_row_def update_ai_status_def insert_decision_row_def
      update_alert_status_def upsert_cursor_def insert_dead_letter_def others_kept_def split: if_splits)+

lemma others_transaction [preserve_rules]:
  assumes "preserves others_kept body"
  shows "preserves others_kept (sql_transaction body)"
proof (rule preservesI)
  fix s r t
  assume "sql_transaction body s = (r, t)"
  then show "others_kept s t"
  proof (cases rule: sql_transaction_cases)
    case (failed e)
    then show ?thesis by (simp add: others_kept_def only_env_tables)
  next
    case (committed v)
    from preservesD [OF assms committed(2)] committed(3) show ?thesis by (simp add: others_kept_def)
  qed
qed

lemma others_stores [preserve_rules]:
  "preserves others_kept (sqlite_get X i)"
  "preserves others_kept (sqlite_insert X a)"
  "preserves others_kept (sqlite_set_ai_status X i st)"
  "preserves others_kept (sqlite_record_decision X d st')"
  "preserves others_kept (sqlite_append X ev)"
  "preserves others_kept (set_cursor X src c)"
  "preserves others_kept (add_dead_letter X src raw e)"
  unfolding sqlite_get_def sqlite_insert_def sqlite_set_ai_status_def sqlite_record_decision_def sqlite_append_def
    set_cursor_def add_dead_letter_def Let_def
  by (intro preserve_rules allI; simp add: preserve_rules)+

lemma others_service [preserve_rules]:
  "preserves others_kept (create_alert (sqlite_service X) na)"
  "preserves others_kept (record_ai_advisory_requested (sqlite_service X) i x p)"
  "preserves others_kept (record_ai_advisory (sqlite_service X) i x adv)"
  "preserves others_kept (record_ai_unavailable (sqlite_service X) i x reason)"
  "preserves others_kept (submit_decision X (sqlite_service X) i who d why)"
  unfolding create_alert_def record_ai_advisory_requested_def record_ai_advisory_def record_ai_unavailable_def
    submit_decision_def log_event_def sqlite_service_def Let_def
  by (simp_all, (intro preserve_rules allI; simp add: preserve_rules)+)

text \<open>No request and no turn of the loop changes an investigator or makes a stored transaction unreadable.\<close>

definition rows_kept :: "crates \<Rightarrow> 'a db_scheme \<Rightarrow> 'a db_scheme \<Rightarrow> bool" where
  "rows_kept X s t \<longleftrightarrow> db_investigators t = db_investigators s \<and> (sql_tx_inv X s \<longrightarrow> sql_tx_inv X t)"

lemma rows_others: "others_kept s t \<Longrightarrow> rows_kept X s t"
  by (simp add: rows_kept_def others_kept_def sql_tx_inv_def)

lemma rows_save: "preserves (rows_kept X) (tx_save X tx)"
proof (rule preservesI)
  fix s r t
  assume run: "tx_save X tx s = (r, t)"
  have "db_investigators t = db_investigators s"
    using run unfolding tx_save_def
    by (auto simp: insert_tx_row_def utc_now_def split: if_splits elim!: and_then_cases map_err_act_cases execute_cases)
  then show "rows_kept X s t" using tx_save_result [OF _ run] by (simp add: rows_kept_def)
qed

lemma rows_mono: "preserves others_kept m \<Longrightarrow> preserves (rows_kept X) m"
  by (erule preserves_mono) (rule rows_others)

interpretation rows: server_frame "rows_kept X" X for X
  by unfold_locales
    (simp_all add: rows_kept_def [of X s s for s] rows_save rows_mono preserve_rules,
     auto simp: rows_kept_def outside_db_def sql_tx_inv_def)

section \<open>Well-formed tables\<close>

definition empty_source :: "'s transaction_source" where
  "empty_source = mock_transaction_source (mock_new [])"

lemma empty_source_outside: "outside_call (src_poll empty_source)"
  unfolding empty_source_def by (rule mock_outside.outside_call_axioms)

text \<open>
  The tables are well-formed in every state that a server reaches from empty ones: every row of the
  alerts, the decisions, the log and the transactions decodes to a value, alerts, decisions and log
  entries under the identifier they are stored with; identifiers of alerts are unique; the log is
  numbered from 0 without gaps; and no investigator is added, changed or removed. So the \<open>?\<close> on a row
  that does not decode is never taken for rows that the server itself wrote.
\<close>

theorem server_tables_well_formed:
  assumes "wired X st" and "outside_call (src_poll src)" and "codecs_ok X"
    and "empty_review s" and "db_transactions s = []"
    and "(server_step X A st src name ms)\<^sup>*\<^sup>* (c, s) (c', t)"
  shows "list_all (alert_row_ok X) (db_alerts t) \<and> distinct (map alr_id (db_alerts t))
    \<and> list_all (decision_row_ok X) (db_decisions t)
    \<and> list_all (audit_row_ok X) (db_audit t) \<and> numbered (sql_log X t)
    \<and> list_all (tx_row_ok X) (db_transactions t)
    \<and> db_investigators t = db_investigators s"
proof -
  have "server_ok X t"
    using grows.run_kept [OF assms(1,2,6)] empty_review_ok [OF assms(3,4)] by (simp add: server_grows_def)
  moreover have "rows_kept X s t" by (rule rows.run_kept [OF assms(1,2,6)])
  ultimately show ?thesis using assms(3,5)
    by (simp add: server_ok_def sqlite_inv_def sql_alert_inv_def sql_audit_inv_def rows_kept_def sql_tx_inv_def)
qed

theorem server_tables_well_formed_witness:
  "distinct (map alr_id (db_alerts (snd (serve sample_crates sample_auth sample_app sample_cookie sample_decision (sample_db 9)))))"
proof -
  let ?t = "snd (serve sample_crates sample_auth sample_app sample_cookie sample_decision (sample_db 9))"
  have run: "(server_step sample_crates sample_auth sample_app empty_source ''demo'' 15000)\<^sup>*\<^sup>* (None, sample_db 9) (None, ?t)"
    by (intro r_into_rtranclp step_request) (rule surjective_pairing)
  have "empty_review (sample_db 9)" "db_transactions (sample_db 9) = []"
    by (simp_all add: empty_review_def sample_db_def)
  from server_tables_well_formed [OF sample_wired empty_source_outside sample_codecs_ok this run] show ?thesis
    by simp
qed

end
