(* ===== verification/Bootstrap.thy ===== *)
theory Bootstrap
  imports Server
begin

text \<open>
  \<open>api/config.rs\<close>, \<open>api/demo.rs\<close>, \<open>storage/db.rs\<close>, \<open>bootstrap\<close> of \<open>api/lib.rs\<close> and the start in
  \<open>api/main.rs\<close>: configuration from the process environment, the demo data, opening the database, and
  the wiring of the server. The \<open>sqlx\<close> calls that open a database, the salt of a password hash, the
  parser of the model's answer and the derived decoders of Horizon's pages are arguments.
\<close>

section \<open>Configuration\<close>

record config =
  cf_database_url :: string
  cf_bind_addr :: string
  cf_jwt_secret :: string
  cf_anthropic_api_key :: "string option"
  cf_anthropic_model :: "string option"
  cf_horizon_url :: "string option"
  cf_admin_username :: string
  cf_admin_password :: string
  cf_soroban_contract_id :: "string option"
  cf_soroban_network :: "string option"
  cf_soroban_source_account :: "string option"
  cf_poll_interval_secs :: nat

text \<open>\<open>env::var(key).ok()\<close> is the argument \<open>vars\<close>; \<open>parse::<u64>()\<close> of the interval.\<close>

definition env_or :: "(string \<Rightarrow> string option) \<Rightarrow> string \<Rightarrow> string \<Rightarrow> string" where
  "env_or vars k fallback = (case vars k of None \<Rightarrow> fallback | Some v \<Rightarrow> v)"

definition config_from_env :: "(string \<Rightarrow> string option) \<Rightarrow> config" where
  "config_from_env vars =
     \<lparr>cf_database_url = env_or vars ''DATABASE_URL'' ''sqlite://stellarrisk.db'',
      cf_bind_addr = env_or vars ''BIND_ADDR'' ''127.0.0.1:8080'',
      cf_jwt_secret = env_or vars ''JWT_SECRET'' ''dev-only-insecure-secret-change-me'',
      cf_anthropic_api_key = vars ''ANTHROPIC_API_KEY'',
      cf_anthropic_model = vars ''ANTHROPIC_MODEL'',
      cf_horizon_url = vars ''HORIZON_URL'',
      cf_admin_username = env_or vars ''ADMIN_USERNAME'' ''admin'',
      cf_admin_password = env_or vars ''ADMIN_PASSWORD'' ''change-me-immediately'',
      cf_soroban_contract_id = vars ''SOROBAN_CONTRACT_ID'',
      cf_soroban_network = vars ''SOROBAN_NETWORK'',
      cf_soroban_source_account = vars ''SOROBAN_SOURCE_ACCOUNT'',
      cf_poll_interval_secs =
        (case Option.bind (vars ''POLL_INTERVAL_SECS'') (parse_unsigned 64) of None \<Rightarrow> 15 | Some n \<Rightarrow> n)\<rparr>"

definition demo_mode :: "config \<Rightarrow> bool" where
  "demo_mode c \<longleftrightarrow> cf_horizon_url c = None"

section \<open>Opening the database\<close>

text \<open>
  \<open>sqlx\<close>: reading a URL as connection options, opening a pool of at most so many connections, and
  running the embedded migrations.
\<close>

record connect_options =
  co_target :: string
  co_create_if_missing :: bool
  co_foreign_keys :: bool

record 's sqlx =
  sx_parse :: "string \<Rightarrow> string + connect_options"
  sx_open :: "connect_options \<Rightarrow> nat \<Rightarrow> ('s, string, unit) action"
  sx_migrate :: "('s, string, unit) action"

definition max_connections :: "string \<Rightarrow> nat" where
  "max_connections url = (if str_contains '':memory:'' url then 1 else 5)"

definition connect :: "'s sqlx \<Rightarrow> string \<Rightarrow> ('s, string, unit) action" where
  "connect Q url =
     and_then (lift_res (sx_parse Q url)) (\<lambda>o0.
     let options = o0\<lparr>co_create_if_missing := True, co_foreign_keys := True\<rparr>
     in and_then (sx_open Q options (max_connections url)) (\<lambda>_. sx_migrate Q))"

section \<open>Demo data\<close>

definition mk_tx :: "string \<Rightarrow> datetime \<Rightarrow> string \<Rightarrow> string \<Rightarrow> asset \<Rightarrow> nat \<Rightarrow> normalized_transaction" where
  "mk_tx i created_at source target asset amount =
     \<lparr>tx_id = i, tx_ledger = 1, tx_created_at = created_at, tx_source_account = source, tx_fee_charged = 100,
      tx_memo = None, tx_operation_count = 1, tx_successful = True,
      tx_movements = [\<lparr>mv_asset = asset, mv_from = source, mv_to = target, mv_amount = dec_of_nat amount\<rparr>],
      tx_contract_ids = []\<rparr>"

definition velocity_tx :: "datetime \<Rightarrow> nat \<Rightarrow> normalized_transaction" where
  "velocity_tx now i =
     mk_tx (''demo-tx-velocity-'' @ show_nat i) (now - seconds (50 - int i * 8)) ''GBURSTACCOUNT'' ''GRECIPIENTVARIES''
       asset_native 100"

definition synthetic_transactions :: "datetime \<Rightarrow> normalized_transaction list" where
  "synthetic_transactions now =
     [mk_tx ''demo-tx-normal-1'' (now - hours 2) ''GNORMALALICE'' ''GNORMALBOB'' asset_native 25,
      mk_tx ''demo-tx-large-transfer'' (now - minutes 30) ''GWHALEACCOUNT'' ''GNEWCOUNTERPARTY'' asset_native 50000]
     @ map (velocity_tx now) [0..<6] @
     [mk_tx ''demo-tx-flagged-counterparty'' (now - minutes 5) ''GUNSUSPECTINGUSER'' ''GKNOWNBADACTOR''
        \<lparr>as_code = ''USDC'', as_issuer = Some ''GISSUERUSDC''\<rparr> 1200]"

definition demo_flagged_accounts :: "(string \<times> string) list" where
  "demo_flagged_accounts =
     [(''GKNOWNBADACTOR'', ''Previously confirmed suspicious in a prior investigation (demo seed data)'')]"

section \<open>Wiring\<close>

definition chosen_advisor ::
  "crates \<Rightarrow> (json \<Rightarrow> string + raw_advisory_input) \<Rightarrow> config \<Rightarrow> 'a env_scheme ai_advisor" where
  "chosen_advisor X parse_raw c =
     (case cf_anthropic_api_key c of
        Some secret \<Rightarrow>
          (let advisor = anthropic_new secret;
               advisor = (case cf_anthropic_model c of Some model \<Rightarrow> with_model advisor model | None \<Rightarrow> advisor)
           in anthropic_investigate X parse_raw advisor)
      | None \<Rightarrow> null_advisor)"

definition chosen_anchor :: "crates \<Rightarrow> config \<Rightarrow> 'a node_scheme decision_anchor" where
  "chosen_anchor X c =
     (case (cf_soroban_contract_id c, cf_soroban_network c, cf_soroban_source_account c) of
        (Some contract, Some net, Some src) \<Rightarrow> cli_anchor_decision X (cli_new contract net src)
      | _ \<Rightarrow> noop_anchor)"

text \<open>The first administrator, when there is no investigator yet.\<close>

definition seed_admin :: "crates \<Rightarrow> auth_crates \<Rightarrow> string \<Rightarrow> config \<Rightarrow> ('a db_scheme, string, unit) action" where
  "seed_admin X A salt c =
     and_then (display_err investigator_count) (\<lambda>n.
     if n = 0 then
       and_then (lift_res (map_err api_error_text (hash_password A salt (cf_admin_password c)))) (\<lambda>hash.
       and_then (display_err (investigator_create X (cf_admin_username c) hash Admin)) (\<lambda>_. ok ()))
     else ok ())"

fun seed_flagged :: "crates \<Rightarrow> (string \<times> string) list \<Rightarrow> ('a db_scheme, string, unit) action" where
  "seed_flagged X [] = ok ()"
| "seed_flagged X ((account, reason) # rest) =
     and_then (display_err (flagged_add X account reason None)) (\<lambda>_. seed_flagged X rest)"

definition chosen_source ::
  "crates \<Rightarrow> horizon_codec \<Rightarrow> config \<Rightarrow> ('a db_scheme, string, 'a db_scheme transaction_source \<times> string) action" where
  "chosen_source X C c =
     (case cf_horizon_url c of
        Some url \<Rightarrow> ok (horizon_transaction_source X C (horizon_new url), ''horizon'')
      | None \<Rightarrow>
          and_then (seed_flagged X demo_flagged_accounts) (\<lambda>_.
          and_then utc_now (\<lambda>now.
            ok (mock_transaction_source (mock_new (synthetic_transactions now)), ''demo''))))"

definition new_app_state :: "crates \<Rightarrow> (json \<Rightarrow> string + raw_advisory_input) \<Rightarrow> config \<Rightarrow> 'a node_scheme app_state" where
  "new_app_state X parse_raw c =
     \<lparr>app_alerts = alert_service_new (sqlite_alert_ops X) (sqlite_audit_ops X), app_audit = sqlite_audit_ops X,
      app_advisor = chosen_advisor X parse_raw c, app_anchor = chosen_anchor X c,
      app_registry = with_built_ins X, app_rules = rules_config_default, app_scoring = scoring_config_default,
      app_jwt_secret = cf_jwt_secret c, app_lookback = minutes 10, app_baseline = hours 24\<rparr>"

definition bootstrap ::
  "crates \<Rightarrow> auth_crates \<Rightarrow> (json \<Rightarrow> string + raw_advisory_input) \<Rightarrow> horizon_codec \<Rightarrow>
   'a node_scheme sqlx \<Rightarrow> string \<Rightarrow> config \<Rightarrow>
   ('a node_scheme, string, 'a node_scheme app_state \<times> 'a node_scheme transaction_source \<times> string) action" where
  "bootstrap X A parse_raw C Q salt c =
     and_then (connect Q (cf_database_url c)) (\<lambda>_.
     and_then (seed_admin X A salt c) (\<lambda>_.
     and_then (chosen_source X C c) (\<lambda>(source, name).
       ok (new_app_state X parse_raw c, source, name))))"

text \<open>
  \<open>main\<close>: from the process environment to a wired server, its source and the pause between two
  turns of the ingestion loop, in milliseconds. What follows is \<open>run_source\<close> in a task of its own
  beside the router.
\<close>

definition launch ::
  "crates \<Rightarrow> auth_crates \<Rightarrow> (json \<Rightarrow> string + raw_advisory_input) \<Rightarrow> horizon_codec \<Rightarrow> 'a node_scheme sqlx \<Rightarrow> string \<Rightarrow>
   (string \<Rightarrow> string option) \<Rightarrow>
   ('a node_scheme, string, 'a node_scheme app_state \<times> 'a node_scheme transaction_source \<times> string \<times> nat) action" where
  "launch X A parse_raw C Q salt vars =
     (let c = config_from_env vars
      in and_then (bootstrap X A parse_raw C Q salt c) (\<lambda>(st, source, name).
           ok (st, source, name, 1000 * cf_poll_interval_secs c)))"

end
