(* ===== verification/BootstrapProps.thy ===== *)
theory BootstrapProps
  imports Bootstrap ServerProps
begin

text \<open>
  Properties of the start of the server: what \<open>bootstrap\<close> wires together, that the first start
  creates exactly one administrator who can log in, and that a server started by it keeps the review
  consistent.
\<close>

section \<open>What starting changes\<close>

definition users_kept :: "'a db_scheme \<Rightarrow> 'a db_scheme \<Rightarrow> bool" where
  "users_kept s t \<longleftrightarrow> db_investigators t = db_investigators s"

interpretation users: state_preorder users_kept
  by unfold_locales (simp_all add: users_kept_def)

lemma users_execute:
  assumes "\<And>s t. f s = Inr t \<Longrightarrow> users_kept s t"
  shows "preserves users_kept (execute f)"
  using assms by (fastforce simp: preserves_def users_kept_def elim!: execute_cases)

lemma users_writes [preserve_rules]:
  "preserves users_kept (execute (upsert_flagged frow))" "preserves users_kept utc_now"
  by (rule users_execute, auto simp: upsert_flagged_def users_kept_def split: if_splits)
    (simp add: preserves_def users_kept_def utc_now_def)

lemma seed_flagged_kept [preserve_rules]:
  "preserves users_kept (seed_flagged X fs)" "preserves review_kept (seed_flagged X fs)"
  by (induction X fs rule: seed_flagged.induct)
    (simp_all add: preserve_rules flagged_add_def display_err_def)

lemma chosen_source_kept:
  "preserves users_kept (chosen_source X C c)" "preserves review_kept (chosen_source X C c)"
  unfolding chosen_source_def by (auto split: option.split intro!: preserve_rules)

lemma seed_admin_review: "preserves review_kept (seed_admin X A salt c)"
  unfolding seed_admin_def display_err_def by (intro preserve_rules)

lemma count_result:
  assumes "display_err investigator_count s = (Inr n, t)"
  shows "n = int (length (db_investigators s)) \<and> db_investigators t = db_investigators s"
  using assms unfolding display_err_def investigator_count_def
  by (auto elim!: map_err_act_cases query_cases)

lemma seed_admin_first:
  assumes "seed_admin X A salt c s = (Inr u, t)" "db_investigators s = []"
  shows "\<exists>hash row i. ac_hash_password A salt (cf_admin_password c) = Inr hash \<and> db_investigators t = [row]
    \<and> row_to_investigator row = Inr \<lparr>iw_investigator = i, iw_password_hash = hash\<rparr>
    \<and> inr_username row = cf_admin_username c \<and> inv_username i = cf_admin_username c \<and> inv_role i = Admin"
proof -
  from assms(1) obtain n v where n: "display_err investigator_count s = (Inr n, v)"
    and rest: "(if n = 0 then
       and_then (lift_res (map_err api_error_text (hash_password A salt (cf_admin_password c)))) (\<lambda>hash.
       and_then (display_err (investigator_create X (cf_admin_username c) hash Admin)) (\<lambda>_. ok ()))
     else ok ()) v = (Inr u, t)"
    unfolding seed_admin_def by (rule and_then_InrE)
  have v: "n = 0" "db_investigators v = []" using count_result [OF n] assms(2) by simp_all
  with rest obtain hash i where hash: "map_err api_error_text (hash_password A salt (cf_admin_password c)) = Inr hash"
    and create: "display_err (investigator_create X (cf_admin_username c) hash Admin) v = (Inr i, t)"
    by (auto elim!: and_then_InrE)
  from create have "investigator_create X (cf_admin_username c) hash Admin v = (Inr i, t)"
    unfolding display_err_def by (auto elim: map_err_act_cases)
  from investigator_create_result [OF this] v(2) hash show ?thesis
    by (auto simp: hash_password_def)
qed

lemma seed_admin_later:
  assumes "seed_admin X A salt c s = (r, t)" "db_investigators s \<noteq> []"
  shows "users_kept s t"
proof -
  obtain n u where c: "display_err investigator_count s = (n, u)" by fastforce
  then have "db_investigators u = db_investigators s"
    unfolding display_err_def investigator_count_def by (auto elim!: map_err_act_cases query_cases)
  moreover have "t = u" using assms c count_result [of s "projr n" u]
    by (cases n) (auto simp: seed_admin_def and_then_def split: if_splits)
  ultimately show ?thesis by (simp add: users_kept_def)
qed

lemma bootstrap_cases:
  assumes "bootstrap X A parse_raw C Q salt c s = (Inr (st, src, name), t)"
  obtains u v w where "connect Q (cf_database_url c) s = (Inr u, v)" "seed_admin X A salt c v = (Inr (), w)"
    "chosen_source X C c w = (Inr (src, name), t)" "st = new_app_state X parse_raw c"
  using assms unfolding bootstrap_def by (auto elim!: and_then_InrE)

section \<open>Wiring\<close>

lemma chosen_advisor_outside: "outside_call (chosen_advisor X parse_raw c)"
  by (auto simp: chosen_advisor_def Let_def null_outside.outside_call_axioms anthropic_outside.outside_call_axioms
      split: option.split)

lemma chosen_anchor_outside: "outside_call (case_prod (chosen_anchor X c))"
  by (auto simp: chosen_anchor_def noop_outside.outside_call_axioms cli_outside.outside_call_axioms split: option.split)

lemma chosen_source_outside:
  assumes "chosen_source X C c s = (Inr (src, name), t)"
  shows "outside_call (src_poll src)"
  using assms horizon_outside.outside_call_axioms mock_outside.outside_call_axioms
  by (auto simp: chosen_source_def split: option.splits elim!: and_then_InrE)

lemma bootstrap_wired:
  assumes "bootstrap X A parse_raw C Q salt c s = (Inr (st, src, name), t)"
  shows "wired X st" "outside_call (src_poll src)"
proof -
  from assms obtain u v w where r: "chosen_source X C c w = (Inr (src, name), t)" "st = new_app_state X parse_raw c"
    by (rule bootstrap_cases)
  show "wired X st"
    by (simp add: r(2) wired_def new_app_state_def sqlite_service_def chosen_advisor_outside chosen_anchor_outside)
  show "outside_call (src_poll src)" by (rule chosen_source_outside [OF r(1)])
qed

text \<open>
  What is relied on about \<open>sqlx\<close>: opening a pool and running the migrations, which create the tables
  that are missing, touch no row.
\<close>

definition sqlx_keeps_rows :: "'a db_scheme sqlx \<Rightarrow> bool" where
  "sqlx_keeps_rows Q \<longleftrightarrow>
     (\<forall>options n. preserves same_tables (sx_open Q options n)) \<and> preserves same_tables (sx_migrate Q)"

interpretation tables: state_preorder same_tables
  by unfold_locales (simp_all add: same_tables_def)

lemma connect_keeps_rows:
  assumes "sqlx_keeps_rows Q" "connect Q url s = (r, t)"
  shows "same_tables s t"
proof -
  have "preserves same_tables (connect Q url)"
    using assms(1) by (simp add: sqlx_keeps_rows_def connect_def Let_def tables.keeps_and_then tables.keeps_pure)
  then show ?thesis by (rule preservesD) (rule assms(2))
qed

lemma bootstrap_review:
  assumes "sqlx_keeps_rows Q" "bootstrap X A parse_raw C Q salt c s = (Inr (st, src, name), t)"
  shows "review_kept s t"
proof -
  from assms(2) obtain u v w where r: "connect Q (cf_database_url c) s = (Inr u, v)" "seed_admin X A salt c v = (Inr (), w)"
    "chosen_source X C c w = (Inr (src, name), t)" by (rule bootstrap_cases)
  have "same_tables s v" by (rule connect_keeps_rows [OF assms(1) r(1)])
  then have "review_kept s v" by (simp add: same_tables_def review_kept_def)
  from kept.trans [OF kept.trans [OF this preservesD [OF seed_admin_review r(2)]] preservesD [OF chosen_source_kept(2) r(3)]]
  show ?thesis .
qed

text \<open>
  A server that was launched on a database with an empty review, under any process environment
  (with or without AI credentials, anchoring and a Horizon endpoint), keeps the review consistent
  however requests and turns of the ingestion loop follow each other and whatever fails: the status
  of every alert is the one of its last decision (open without one), every decision belongs to an
  existing alert, and whenever \<open>verify_chain\<close> answers, it answers that the whole log is valid.
\<close>

theorem started_server_keeps_review:
  assumes "launch X A parse_raw C Q salt vars s0 = (Inr (st, src, name, ms), s)"
    and "sqlx_keeps_rows Q" and "codecs_ok X" and "empty_review s0"
    and "(server_step X A st src name ms)\<^sup>*\<^sup>* (k, s) (k', t)"
  shows "(\<forall>i. case sql_amap X t i of None \<Rightarrow> decisions_for i (sql_decs X t) = []
           | Some a \<Rightarrow> al_status a = status_after (decisions_for i (sql_decs X t)))
    \<and> (case sqlite_verify_chain X t of (Inl e, u) \<Rightarrow> True
       | (Inr v, u) \<Rightarrow> cv_valid v \<and> cv_records_checked v = length (sql_log X t))"
proof -
  from assms(1) have boot: "bootstrap X A parse_raw C Q salt (config_from_env vars) s0 = (Inr (st, src, name), s)"
    by (auto simp: launch_def Let_def elim!: and_then_InrE)
  have "empty_review s"
    using bootstrap_review [OF assms(2) boot] assms(4) by (simp add: review_kept_def empty_review_def)
  from server_keeps_review [OF bootstrap_wired [OF boot] assms(3) this assms(5)] show ?thesis .
qed

text \<open>
  C34:
  The first start creates the configured administrator and nobody else, and that account works: a
  login with the configured name and password either succeeds as an administrator with that name or
  fails with an internal error, never as unauthorised. A later start, on a database that has
  investigators, changes none of them.
\<close>

theorem first_admin_can_log_in:
  assumes "bootstrap X A parse_raw C Q salt c s = (Inr (st, src, name), t)" and "sqlx_keeps_rows Q"
    and "\<And>salt p h. ac_hash_password A salt p = Inr h \<Longrightarrow> ac_verify_password A p h = Some True"
  shows "if db_investigators s = [] then
      length (db_investigators t) = 1
      \<and> (case checked_login A secret \<lparr>lg_username = cf_admin_username c, lg_password = cf_admin_password c\<rparr> t of
           (Inr (who, token), u) \<Rightarrow> inv_username who = cf_admin_username c \<and> inv_role who = Admin
         | (Inl e, u) \<Rightarrow> \<exists>m. e = ApiInternal m)
    else db_investigators t = db_investigators s"
proof -
  from assms(1) obtain u v w where r: "connect Q (cf_database_url c) s = (Inr u, v)" "seed_admin X A salt c v = (Inr (), w)"
    "chosen_source X C c w = (Inr (src, name), t)" by (rule bootstrap_cases)
  have "same_tables s v" by (rule connect_keeps_rows [OF assms(2) r(1)])
  then have v: "db_investigators v = db_investigators s" by (simp add: same_tables_def)
  have t: "db_investigators t = db_investigators w"
    using preservesD [OF chosen_source_kept(1) r(3)] by (simp add: users_kept_def)
  show ?thesis
  proof (cases "db_investigators s = []")
    case False
    with seed_admin_later [OF r(2)] v t show ?thesis by (simp add: users_kept_def)
  next
    case True
    with seed_admin_first [OF r(2)] v obtain hash row i where
      hash: "ac_hash_password A salt (cf_admin_password c) = Inr hash" and row: "db_investigators w = [row]"
      "row_to_investigator row = Inr \<lparr>iw_investigator = i, iw_password_hash = hash\<rparr>" "inr_username row = cf_admin_username c"
      and i: "inv_username i = cf_admin_username c" "inv_role i = Admin"
      by auto
    have "verify_password A (cf_admin_password c) hash" using assms(3) [OF hash] by (simp add: verify_password_def)
    with True t row i show ?thesis
      by (simp add: checked_login_def find_by_username_def query_def sql_call_def and_then_def map_err_act_def
          api_error_of_domain_def map_sqlx_def issue_token_def utc_now_def map_err_def split: option.split sum.split)
  qed
qed

section \<open>A demo start\<close>

definition sample_node :: node where
  "sample_node = db.extend healthy_db (node.fields (\<lambda>_ _. Inl SpawnNotFound) [])"

definition plain_auth :: auth_crates where
  "plain_auth = sample_auth\<lparr>ac_hash_password := (\<lambda>salt p. Inr p)\<rparr>"

definition no_parser :: "json \<Rightarrow> string + raw_advisory_input" where
  "no_parser v = Inl ''unused''"

definition no_pages :: horizon_codec where
  "no_pages = \<lparr>hc_tx_page = (\<lambda>_. Inl ''unused''), hc_op_page = (\<lambda>_. Inl ''unused'')\<rparr>"

definition open_existing :: "'a db_scheme sqlx" where
  "open_existing =
     \<lparr>sx_parse = (\<lambda>url. Inr \<lparr>co_target = url, co_create_if_missing = False, co_foreign_keys = False\<rparr>),
      sx_open = (\<lambda>_ _. ok ()), sx_migrate = ok ()\<rparr>"

definition no_vars :: "string \<Rightarrow> string option" where
  "no_vars k = None"

lemma open_existing_ok: "sqlx_keeps_rows open_existing"
  by (simp add: sqlx_keeps_rows_def open_existing_def tables.keeps_pure)

lemma sample_node_empty: "empty_review sample_node" "db_investigators sample_node = []"
  by (simp_all add: empty_review_def sample_node_def healthy_db_def sample_db_def db.defs node.defs)

lemma sample_boot:
  obtains st src name t where
    "bootstrap sample_crates plain_auth no_parser no_pages open_existing ''salt'' (config_from_env no_vars) sample_node
       = (Inr (st, src, name), t)"
  by (simp add: bootstrap_def connect_def Let_def open_existing_def seed_admin_def investigator_count_def query_def sql_call_def and_then_def
      map_err_act_def display_err_def hash_password_def plain_auth_def investigator_create_def execute_def
      insert_investigator_def new_uuid_def utc_now_def chosen_source_def config_from_env_def no_vars_def
      demo_flagged_accounts_def flagged_add_def upsert_flagged_def sample_node_def healthy_db_def sample_db_def db.defs node.defs)

theorem started_server_keeps_review_witness:
  "\<exists>st src name ms s. launch sample_crates plain_auth no_parser no_pages open_existing ''salt'' no_vars sample_node
       = (Inr (st, src, name, ms), s)
     \<and> (case sqlite_verify_chain sample_crates (snd (serve sample_crates plain_auth st sample_cookie sample_decision s)) of
          (Inl e, u) \<Rightarrow> True | (Inr v, u) \<Rightarrow> cv_valid v)"
proof -
  obtain st src name s where "bootstrap sample_crates plain_auth no_parser no_pages open_existing ''salt''
      (config_from_env no_vars) sample_node = (Inr (st, src, name), s)" by (rule sample_boot)
  then obtain ms where b: "launch sample_crates plain_auth no_parser no_pages open_existing ''salt'' no_vars sample_node
       = (Inr (st, src, name, ms), s)" by (simp add: launch_def Let_def and_then_def)
  let ?t = "snd (serve sample_crates plain_auth st sample_cookie sample_decision s)"
  have run: "(server_step sample_crates plain_auth st src name ms)\<^sup>*\<^sup>* (None, s) (None, ?t)"
    by (intro r_into_rtranclp step_request) (rule surjective_pairing)
  from started_server_keeps_review [OF b open_existing_ok sample_codecs_ok sample_node_empty(1) run]
  have "case sqlite_verify_chain sample_crates ?t of (Inl e, u) \<Rightarrow> True | (Inr v, u) \<Rightarrow> cv_valid v"
    by (auto split: prod.splits sum.splits)
  with b show ?thesis by (intro exI conjI)
qed

theorem first_admin_can_log_in_witness:
  "\<exists>st src name t. bootstrap sample_crates plain_auth no_parser no_pages open_existing ''salt'' (config_from_env no_vars) sample_node
       = (Inr (st, src, name), t) \<and> length (db_investigators t) = 1"
proof -
  obtain st src name t where b: "bootstrap sample_crates plain_auth no_parser no_pages open_existing ''salt'' (config_from_env no_vars) sample_node
       = (Inr (st, src, name), t)" by (rule sample_boot)
  have "ac_verify_password plain_auth p h = Some True" if "ac_hash_password plain_auth salt p = Inr h" for salt p h
    using that by (simp add: plain_auth_def sample_auth_def)
  from first_admin_can_log_in [OF b open_existing_ok this] b show ?thesis
    by (auto simp: sample_node_empty)
qed

end
