(* ===== verification/ConcurrentProps.thy ===== *)
theory ConcurrentProps
  imports Concurrent TableProps BootstrapProps
begin

text \<open>
  The server under interference: any number of requests and the ingestion loop, interleaved at every
  await. The locale \<open>task_frame\<close> carries a relation that the single statements keep over every task;
  it is interpreted on the consistency of the review and of the tables. What an answer promises is
  shown with \<open>ensures\<close>.
\<close>

section \<open>Relations that every statement keeps\<close>

text \<open>A decision record is the one that a request of this user asks for.\<close>

definition answers_request :: "investigator \<Rightarrow> uuid \<Rightarrow> decision_request \<Rightarrow> decision_record \<Rightarrow> bool" where
  "answers_request who i req rec \<longleftrightarrow> can_decide (inv_role who) \<and> dr_investigator_id rec = inv_id who \<and> dr_alert_id rec = i
     \<and> decision_from_str (dq_decision req) = Inr (dr_decision rec) \<and> dr_rationale rec = dq_rationale req
     \<and> trim (dr_rationale rec) \<noteq> []"

text \<open>\<open>allowed\<close> says which decision records are taken to be stored.\<close>

locale task_frame = state_preorder R
  for R :: "'a db_scheme \<Rightarrow> 'a db_scheme \<Rightarrow> bool" +
  fixes X :: crates
    and allowed :: "decision_record \<Rightarrow> bool"
  assumes outside_kept: "outside_db s t \<Longrightarrow> R s t"
    and append_kept: "preserves R (sqlite_append X ev)"
    and insert_kept: "al_status a = Open \<Longrightarrow> preserves R (sqlite_insert X a)"
    and set_ai_kept: "preserves R (sqlite_set_ai_status X i ai)"
    and record_kept: "allowed d \<Longrightarrow> preserves R (sqlite_record_decision X d (status_of_decision (dr_decision d)))"
    and save_kept: "preserves R (tx_save X tx)"
    and letter_kept: "preserves R (add_dead_letter X name raw e)"
    and cursor_kept: "preserves R (set_cursor X name c)"
begin

lemma read_task: "preserves outside_db m \<Longrightarrow> keeps R (call m)"
  by (rule keeps_call) (erule preserves_mono, rule outside_kept)

lemma read_query: "keeps R (call (query g))" "keeps R (call utc_now)" "keeps R (call new_uuid)"
  by (intro read_task preserve_rules)+

lemma keeps_log_event: "keeps R (log_event_task (sqlite_service X) ev)"
  unfolding log_event_task_def by (intro keeps_rules) (simp add: sqlite_service_def append_kept)

lemma keeps_service:
  "keeps R (create_alert_task (sqlite_service X) na)"
  "keeps R (record_ai_advisory_requested_task (sqlite_service X) i x payload)"
  "keeps R (record_ai_advisory_task (sqlite_service X) i x adv)"
  "keeps R (record_ai_unavailable_task (sqlite_service X) i x reason)"
proof -
  have st: "svc_store (sqlite_service X) = sqlite_alert_ops X" by (simp add: sqlite_service_def)
  have insert: "keeps R (call (sqlite_insert X (opened_alert j now na)))" for j now
    by (intro keeps_call insert_kept) (simp add: opened_alert_def)
  show "keeps R (create_alert_task (sqlite_service X) na)"
    by (simp add: create_alert_task_def st Let_def) (intro keeps_rules read_query insert keeps_log_event)
  show "keeps R (record_ai_advisory_requested_task (sqlite_service X) i x payload)"
    by (simp add: record_ai_advisory_requested_task_def) (intro keeps_rules keeps_log_event)
  show "keeps R (record_ai_advisory_task (sqlite_service X) i x adv)"
    by (simp add: record_ai_advisory_task_def st) (intro keeps_rules set_ai_kept keeps_log_event)
  show "keeps R (record_ai_unavailable_task (sqlite_service X) i x reason)"
    by (simp add: record_ai_unavailable_task_def st) (intro keeps_rules read_query set_ai_kept keeps_log_event)
qed

lemma keeps_submit:
  assumes "\<And>rec. decides rec i who d why \<Longrightarrow> allowed rec"
  shows "keeps R (submit_decision_task X (sqlite_service X) i who d why)"
proof -
  have st: "svc_store (sqlite_service X) = sqlite_alert_ops X" by (simp add: sqlite_service_def)
  have decision: "keeps R (call (sqlite_record_decision X
      \<lparr>dr_id = j, dr_alert_id = i, dr_investigator_id = who, dr_decision = d, dr_rationale = why, dr_created_at = now\<rparr>
      (status_of_decision d)))" for j now
    using record_kept [OF assms, of "\<lparr>dr_id = j, dr_alert_id = i, dr_investigator_id = who, dr_decision = d, dr_rationale = why, dr_created_at = now\<rparr>"]
    by (intro keeps_call) (simp add: decides_def)
  show ?thesis
    by (simp add: submit_decision_task_def st Let_def) (intro keeps_rules read_query read_task reads_stores decision keeps_log_event)
qed

lemma keeps_history: "keeps R (build_account_history_task X acct as_of lb bw)"
  unfolding build_account_history_task_def Let_def
  by (intro keeps_rules read_query) (auto split: prod.split intro!: keeps_rules read_query)

lemma keeps_assess: "keeps R (assess_transaction_task X st tx)"
  unfolding assess_transaction_task_def
  by (intro keeps_rules keeps_history save_kept read_task preserve_rules)

lemma keeps_request_ai:
  assumes "app_alerts st = sqlite_service X" "outside_call (app_advisor st)"
  shows "keeps R (request_ai_advisory_task X st a tx h)"
proof -
  have "keeps R (call (app_advisor st q))" for q
    using outside_call.outside [OF assms(2)] by (intro read_task) (auto simp: preserves_def)
  then show ?thesis
    by (auto simp: request_ai_advisory_task_def assms(1) Let_def split: sum.split
        intro!: keeps_bind keeps_map keeps_service)
qed

lemma keeps_process:
  assumes "app_alerts st = sqlite_service X" "outside_call (app_advisor st)"
  shows "keeps R (process_transaction_task X st tx)"
  unfolding process_transaction_task_def assms(1)
  by (intro keeps_then keeps_assess)
    (auto split: prod.split option.split intro!: keeps_rules keeps_bind keeps_service keeps_request_ai [OF assms])

lemma keeps_batch:
  assumes "app_alerts st = sqlite_service X" "outside_call (app_advisor st)"
  shows "keeps R (process_batch_task X st name b)"
proof -
  have "keeps R (process_all_task X st name txs)" for txs
    by (induction txs) (auto split: sum.split intro!: keeps_rules keeps_bind letter_kept keeps_process [OF assms])
  moreover have "keeps R (record_failures_task X name fs)" for fs
    by (induction fs) (auto intro!: keeps_rules keeps_bind letter_kept)
  ultimately show ?thesis unfolding process_batch_task_def by (intro keeps_bind)
qed

lemma keeps_ingestion:
  assumes "app_alerts st = sqlite_service X" "outside_call (app_advisor st)" "outside_call (src_poll src)"
  shows "keeps R (run_source_task X st src name ms n)"
proof -
  have poll: "keeps R (call (src_poll src c))" for c
    using outside_call.outside [OF assms(3)] by (intro read_task) (auto simp: preserves_def)
  have sleep: "keeps R (call (\<lambda>s. (c, sleep_ms ms s)))" for c :: "string option"
    by (auto simp: call_def sleep_ms_def outside_db_def same_oracles_def intro!: outside_kept)
  have turn: "keeps R (source_turn_task X st src name ms c)" for c
    unfolding source_turn_task_def
    by (auto split: sum.split option.split
        intro!: keeps_bind keeps_map keeps_call poll sleep cursor_kept keeps_batch [OF assms(1,2)])
  have loop: "keeps R (source_loop_task X st src name ms k c)" for k c
    by (induction k arbitrary: c) (auto intro: keeps_bind turn)
  have "keeps R (call (get_cursor name))"
    unfolding get_cursor_def by (intro read_task preserve_rules)
  with loop show ?thesis unfolding run_source_task_def by (intro keeps_bind)
qed

lemma keeps_domain: "keeps R p \<Longrightarrow> keeps R (domain_task p)" "keeps R (checked_task r)" "keeps R (found_or_task msg x)"
  unfolding domain_task_def checked_task_def found_or_task_def by (intro keeps_rules; assumption)+

lemma keeps_auth: "keeps R (call (authenticated A st p))" "keeps R (call (optional_auth_user A secret p))"
  by (intro read_task preserve_rules)+

lemma keeps_decide:
  assumes "app_alerts st = sqlite_service X" "outside_call (case_prod (app_anchor st))"
    and "\<And>rec. answers_request who i req rec \<Longrightarrow> allowed rec"
  shows "keeps R (decide_task X st who i req)"
proof -
  have anchor: "keeps R (call (app_anchor st i h))" for h
    using outside_call.outside [OF assms(2), of "(i, h)"] by (intro keeps_call) (auto simp: preserves_def intro: outside_kept)
  have submit: "keeps R (submit_decision_task X (sqlite_service X) i (inv_id who) d (dq_rationale req))"
    if "can_decide (inv_role who)" "decision_from_str (dq_decision req) = Inr d" "trim (dq_rationale req) \<noteq> []" for d
    by (rule keeps_submit, rule assms(3)) (use that in \<open>simp add: decides_def answers_request_def\<close>)
  show ?thesis
  proof (cases "can_decide (inv_role who)")
    case True
    then show ?thesis using submit
      by (cases "decision_from_str (dq_decision req)")
        (auto simp: decide_task_def assms(1) checked_task_def require_decision_role_def then_task_def [of "Done r" for r]
          intro!: keeps_then keeps_domain keeps_map anchor split: option.split)
  qed (simp add: decide_task_def checked_task_def require_decision_role_def then_task_def)
qed

lemma keeps_reads:
  assumes "wired X st"
  shows "keeps R (api_list_transactions_task X A st p params)" "keeps R (api_get_transaction_task X A st p j)"
    "keeps R (api_list_alerts_task A st p params)" "keeps R (api_get_alert_task X A st p i)"
    "keeps R (api_get_alert_ai_task X A st p i)" "keeps R (api_decision_history_task A st p i)"
    "keeps R (api_alert_audit_task A st p i)" "keeps R (api_verify_audit_chain_task A st p)"
    "keeps R (api_evaluate_transaction_task X A st p j)"
proof -
  have w: "app_alerts st = sqlite_service X" "app_audit st = sqlite_audit_ops X" using assms by (simp_all add: wired_def)
  have v: "au_verify_chain (sqlite_audit_ops X) = sqlite_verify_chain X" by (simp add: sqlite_audit_ops_def)
  show "keeps R (api_list_transactions_task X A st p params)" "keeps R (api_get_transaction_task X A st p j)"
    "keeps R (api_list_alerts_task A st p params)" "keeps R (api_get_alert_task X A st p i)"
    "keeps R (api_get_alert_ai_task X A st p i)" "keeps R (api_decision_history_task A st p i)"
    "keeps R (api_alert_audit_task A st p i)" "keeps R (api_verify_audit_chain_task A st p)"
    "keeps R (api_evaluate_transaction_task X A st p j)"
    unfolding api_list_transactions_task_def api_get_transaction_task_def api_list_alerts_task_def api_get_alert_task_def
      api_get_alert_ai_task_def api_decision_history_task_def api_alert_audit_task_def api_verify_audit_chain_task_def
      api_evaluate_transaction_task_def Let_def w v
    by (intro keeps_rules keeps_domain keeps_auth keeps_history read_task preserve_rules)+
qed

lemma keeps_login: "keeps R (login_task A secret req)" "keeps R (login_form_task A secret req)"
proof -
  have "preserves outside_db (issue_token A who secret)" for who
    unfolding issue_token_def by (intro preserve_rules)
  then have "keeps R (checked_login_task A secret req)"
    unfolding checked_login_task_def by (auto intro!: keeps_rules read_task preserve_rules)
  then show "keeps R (login_task A secret req)" "keeps R (login_form_task A secret req)"
    unfolding login_task_def login_form_task_def by (auto intro!: keeps_rules split: prod.split)
qed

lemma keeps_pages:
  assumes "wired X st"
  shows "keeps R (alerts_list_task X A st p)" "keeps R (alert_detail_task X A st p i)"
proof -
  have w: "app_alerts st = sqlite_service X" using assms by (simp add: wired_def)
  have signed: "keeps R (signed_in_task A st p k)" if "\<And>u. keeps R (k u)" for k
    unfolding signed_in_task_def using that by (auto split: option.split intro!: keeps_rules keeps_auth)
  show "keeps R (alerts_list_task X A st p)" "keeps R (alert_detail_task X A st p i)"
    unfolding alerts_list_task_def alert_detail_task_def alert_view_task_def w
    by (intro signed keeps_rules keeps_domain read_task preserve_rules)+
qed

lemma keeps_answer: "keeps R t \<Longrightarrow> keeps R (answer_task f t)" "keeps R u \<Longrightarrow> keeps R (api_failed u)"
  unfolding answer_task_def api_failed_def by (intro keeps_rules; assumption)+

lemma keeps_ingest:
  "wired X st \<Longrightarrow> keeps R (api_ingest_transaction_task X A st p tx)"
  unfolding api_ingest_transaction_task_def
  by (intro keeps_rules keeps_domain keeps_auth keeps_process) (simp_all add: wired_def)

lemma keeps_decisions:
  assumes "wired X st" "\<And>who rec. answers_request who i req rec \<Longrightarrow> allowed rec"
  shows "keeps R (api_submit_decision_task X A st p i req)" "keeps R (submit_decision_form_task X A st p i req)"
  unfolding api_submit_decision_task_def submit_decision_form_task_def
  by (intro keeps_rules keeps_auth keeps_decide assms(2); use assms(1) in \<open>simp add: wired_def\<close>)+

lemma keeps_serve:
  assumes "wired X st" "\<And>i req who rec. decision_of q = Some (i, req) \<Longrightarrow> answers_request who i req rec \<Longrightarrow> allowed rec"
  shows "keeps R (serve_task X A st p q)"
  using assms(2)
  by (cases q) (simp_all add: keeps_answer keeps_login keeps_pages assms(1) keeps_reads keeps_ingest keeps_decisions decision_of_def)

end

section \<open>The reviews and the tables under interference\<close>

lemma quiet_statements:
  "preserves (quiet_effect X) (sqlite_append X ev)"
  "al_status a = Open \<Longrightarrow> preserves (quiet_effect X) (sqlite_insert X a)"
  "preserves (quiet_effect X) (sqlite_set_ai_status X i ai)"
proof -
  note frame = sqlite_review.append_frame [of X] sqlite_review.insert_frame [of X] sqlite_review.set_ai_frame [of X]
  show "preserves (quiet_effect X) (sqlite_append X ev)"
  proof (rule preservesI)
    fix s r t assume run: "sqlite_append X ev s = (r, t)"
    show "quiet_effect X s t"
      using sqlite_review.append_ok [of X s ev _ t] sqlite_review.append_failed [of X s ev _ t] frame(1) [of s ev r t] run
      by (cases r) (auto simp: quiet_effect_def statuses_extend_refl)
  qed
  show "preserves (quiet_effect X) (sqlite_insert X a)" if "al_status a = Open"
  proof (rule preservesI)
    fix s r t assume run: "sqlite_insert X a s = (r, t)"
    show "quiet_effect X s t"
    proof (cases r)
      case (Inl e)
      with run show ?thesis using sqlite_review.insert_failed [of X s a e t] frame(2) [of s a r t]
        by (simp add: quiet_effect_def statuses_extend_refl)
    next
      case (Inr u)
      have "al_status (stored_alert X a) = Open" using that by simp
      with Inr run show ?thesis using sqlite_review.insert_ok [of X s a u t] frame(2) [of s a r t]
        sqlite_review.insert_fresh [of X s a u t] by (simp add: quiet_effect_def statuses_extend_new)
    qed
  qed
  show "preserves (quiet_effect X) (sqlite_set_ai_status X i ai)"
  proof (rule preservesI)
    fix s r t assume run: "sqlite_set_ai_status X i ai s = (r, t)"
    show "quiet_effect X s t"
      using sqlite_review.set_ai_ok [of X s i ai _ t] sqlite_review.set_ai_failed [of X s i ai _ t] frame(3) [of s i ai r t] run
      by (cases r) (auto simp: quiet_effect_def statuses_extend_refl intro!: statuses_extend_same sqlite_review.same_statuses_ai)
  qed
qed

text \<open>A committed decision is one for an existing alert: the foreign key sees to it.\<close>

lemma record_committed:
  assumes "sqlite_inv X s" "sqlite_record_decision X d st s = (Inr u, t)"
  shows "sqlite_inv X t" "sql_decs X t = sql_decs X s @ [d]" "sql_log X t = sql_log X s"
    "sql_amap X t = update_alert (dr_alert_id d) (\<lambda>a. a\<lparr>al_status := st\<rparr>) (sql_amap X s)"
    "sql_amap X s (dr_alert_id d) \<noteq> None"
proof -
  show "sqlite_inv X t" "sql_decs X t = sql_decs X s @ [d]"
    "sql_amap X t = update_alert (dr_alert_id d) (\<lambda>a. a\<lparr>al_status := st\<rparr>) (sql_amap X s)"
    using sqlite_review.record_ok [of X s d st u t] assms by simp_all
  show "sql_log X t = sql_log X s" using sqlite_review.record_frame [of X s d st _ t] assms by simp
  have "cr_uuid_text X (dr_alert_id d) \<in> alr_id ` set (db_alerts s)"
    using assms(2) by (cases rule: sqlite_record_effect) simp_all
  then show "sql_amap X s (dr_alert_id d) \<noteq> None" by (auto simp: sql_amap_def find_None_iff)
qed

lemma grows_record: "preserves (server_grows X) (sqlite_record_decision X d (status_of_decision (dr_decision d)))"
proof (rule preservesI)
  fix s r t assume run: "sqlite_record_decision X d (status_of_decision (dr_decision d)) s = (r, t)"
  show "server_grows X s t"
  proof (cases r)
    case (Inl e)
    with run show ?thesis
      using sqlite_review.record_failed [of X s d "status_of_decision (dr_decision d)" e t]
        sqlite_review.record_frame [of X s d "status_of_decision (dr_decision d)" r t]
      by (auto simp: server_grows_def server_ok_def)
  next
    case (Inr u)
    show ?thesis
      using record_committed [OF _ run [unfolded Inr]] status_projected_decide
      by (auto simp: server_grows_def server_ok_def)
  qed
qed

interpretation grows_tasks: task_frame "server_grows X" X "\<lambda>_. True" for X
  using state_preorder.trans [OF grows_preorder, of X]
  by unfold_locales
    (simp_all add: server_grows_quiet quiet.refl grows_kept quiet_statements grows_record preserve_rules outside_keeps)

interpretation rows_tasks: task_frame "rows_kept X" X "\<lambda>_. True" for X
  by unfold_locales (simp_all add: rows.outside_frame rows_mono rows_save preserve_rules)

lemmas grows_trans = state_preorder.trans [OF grows_preorder]
lemmas grows_ensures_map = state_preorder.ensures_map [OF grows_preorder]
lemmas grows_ensures_then = state_preorder.ensures_then [OF grows_preorder]
lemmas grows_ensures_step = state_preorder.ensures_step [OF grows_preorder]

section \<open>What an answered decision promises\<close>

text \<open>A decision is on record: it is among the stored decisions, and the log has its event.\<close>

definition on_record :: "crates \<Rightarrow> 'a db_scheme \<Rightarrow> decision_record \<Rightarrow> bool" where
  "on_record X t rec \<longleftrightarrow> rec \<in> set (sql_decs X t)
     \<and> (\<exists>e \<in> set (sql_log X t). \<exists>previous. ae_alert_id e = Some (dr_alert_id rec)
          \<and> to_text (cr_event X) (InvestigatorDecision (dr_investigator_id rec) (dr_decision rec) (dr_rationale rec) previous)
              = Inr (ae_event_json e))"

lemma grown:
  assumes "server_grows X s t" "server_ok X s"
  shows "server_ok X t" "set (sql_log X s) \<subseteq> set (sql_log X t)" "set (sql_decs X s) \<subseteq> set (sql_decs X t)"
  using assms set_mono_prefix unfolding server_grows_def by blast+

lemma ensures_record:
  assumes "server_ok X s" "st = status_of_decision (dr_decision d)"
  shows "ensures (server_grows X) (\<lambda>r t. \<forall>u. r = Inr u \<longrightarrow> d \<in> set (sql_decs X t)) (call (sqlite_record_decision X d st)) s"
proof (rule ensures_call, intro conjI allI impI)
  fix t r u assume t: "server_grows X s t" and run: "sqlite_record_decision X d st t = (r, u)"
  show tu: "server_grows X t u" using preservesD [OF grows_record run [unfolded assms(2)]] .
  show "d \<in> set (sql_decs X v)" if "server_grows X u v" "r = Inr w" for v w
  proof -
    have "server_ok X t" using grown(1) [OF t assms(1)] .
    then have u: "server_ok X u" "sql_decs X u = sql_decs X t @ [d]"
      using grown(1) [OF tu] record_committed(2) [OF _ run [unfolded that(2)]] by (simp_all add: server_ok_def)
    with grown(3) [OF that(1) u(1)] show ?thesis by auto
  qed
qed

lemma ensures_log:
  assumes "server_ok X s"
  shows "ensures (server_grows X) (\<lambda>r t. \<forall>q. r = Inr q \<longrightarrow>
      (\<exists>e \<in> set (sql_log X t). ae_alert_id e = ne_alert_id ev \<and> to_text (cr_event X) (ne_event ev) = Inr (ae_event_json e)))
    (log_event_task (sqlite_service X) ev) s"
  unfolding log_event_task_def map_err_task_def
proof (rule grows_ensures_map, rule ensures_call, intro conjI allI impI)
  fix t r u assume t: "server_grows X s t" and "au_append (svc_audit (sqlite_service X)) ev t = (r, u)"
  then have run: "sqlite_append X ev t = (r, u)" by (simp add: sqlite_service_def)
  show tu: "server_grows X t u" by (rule preservesD [OF grows_tasks.append_kept run])
  show "\<exists>e \<in> set (sql_log X v). ae_alert_id e = ne_alert_id ev \<and> to_text (cr_event X) (ne_event ev) = Inr (ae_event_json e)"
    if "server_grows X u v" "map_err storage_err r = Inr q" for v q
  proof -
    have ok: "server_ok X t" using grown(1) [OF t assms(1)] .
    have q: "sqlite_append X ev t = (Inr q, u)" using run that(2) by simp
    have "sql_log X u = sql_log X t @ [entry_of q] \<and> records_event X ev q"
      using sqlite_review.append_ok [of X t ev q u] q ok by (simp add: server_ok_def)
    then have "entry_of q \<in> set (sql_log X v)" "ae_alert_id (entry_of q) = ne_alert_id ev"
      "to_text (cr_event X) (ne_event ev) = Inr (ae_event_json (entry_of q))"
      using grown(2) [OF that(1) grown(1) [OF tu ok]] by (auto simp: records_event_def)
    then show ?thesis by blast
  qed
qed

lemma ensures_submit:
  assumes "server_ok X s"
  shows "ensures (server_grows X) (\<lambda>r t. \<forall>rec. r = Inr rec \<longrightarrow> decides rec i who d why \<and> on_record X t rec)
    (submit_decision_task X (sqlite_service X) i who d why) s"
proof -
  let ?R = "server_grows X" and ?Q = "\<lambda>r t. \<forall>rec. r = Inr rec \<longrightarrow> decides rec i who d why \<and> on_record X t rec"
  let ?svc = "sqlite_service X :: 'a db_scheme alert_service"
  have st: "svc_store ?svc = sqlite_alert_ops X" by (simp add: sqlite_service_def)
  have last: "ensures ?R ?Q (then_task (call (sqlite_record_decision X rec (status_of_decision d))) (\<lambda>_.
          then_task (log_event_task ?svc (alert_event (InvestigatorDecision who d why prev) i x)) (\<lambda>_. Done (Inr rec)))) u"
    if "server_ok X u" "decides rec i who d why" for rec u prev x
  proof (rule grows_ensures_then [OF ensures_record [OF that(1)]])
    show "status_of_decision d = status_of_decision (dr_decision rec)" using that(2) by (simp add: decides_def)
    fix y v assume v: "?R u v" and stored: "\<And>w. ?R v w \<Longrightarrow> \<forall>z. Inr y = Inr z \<longrightarrow> rec \<in> set (sql_decs X w)"
    have ok: "server_ok X v" using grown(1) [OF v that(1)] .
    show "ensures ?R ?Q (then_task (log_event_task ?svc (alert_event (InvestigatorDecision who d why prev) i x)) (\<lambda>_. Done (Inr rec))) v"
    proof (rule grows_ensures_then [OF ensures_log [OF ok]])
      fix z w
      assume "?R v w" and logged: "\<And>w'. ?R w w' \<Longrightarrow> \<forall>q. Inr z = Inr q \<longrightarrow>
        (\<exists>e \<in> set (sql_log X w'). ae_alert_id e = ne_alert_id (alert_event (InvestigatorDecision who d why prev) i x)
           \<and> to_text (cr_event X) (ne_event (alert_event (InvestigatorDecision who d why prev) i x)) = Inr (ae_event_json e))"
      have "on_record X w' rec" if "?R w w'" for w'
      proof -
        have "?R v w'" using \<open>?R v w\<close> that grows_trans by blast
        then show ?thesis using stored logged [OF that] \<open>decides rec i who d why\<close>
          by (auto simp: on_record_def decides_def alert_event_def for_tx_def for_alert_def new_event_def)
      qed
      then show "ensures ?R ?Q (Done (Inr rec)) w" using that(2) by (simp add: ensures_simps)
    qed simp
  qed simp
  have "preserves outside_db (ao_get (sqlite_alert_ops X) i)" by (simp add: reads_stores)
  note read = grows_tasks.read_task [OF this]
  show ?thesis
    unfolding submit_decision_task_def st Let_def
    apply (rule grows_ensures_step [OF read], simp)
    apply (rule grows_ensures_step [OF keeps_Done], simp)
    apply (rule grows_ensures_step [OF grows_tasks.read_query(3)], simp)
    apply (rule grows_ensures_step [OF grows_tasks.read_query(2)], simp)
    apply (simp, rule last)
    using grown(1) assms apply blast
    by (simp add: decides_def)
qed

lemma ensures_anchor:
  assumes "outside_call (case_prod m)" "\<And>v. server_grows X s v \<Longrightarrow> Q r v"
  shows "ensures (server_grows X) Q (map_result (\<lambda>_. r) (call (m i h))) s"
proof (rule grows_ensures_map, rule ensures_call, intro conjI allI impI)
  fix t a u assume t: "server_grows X s t" "m i h t = (a, u)"
  then have "outside_db t u" using outside_call.outside [OF assms(1), of "(i, h)" t] by simp
  then show tu: "server_grows X t u" by (rule grows_tasks.outside_kept)
  show "Q r v" if "server_grows X u v" for v
    by (rule assms(2)) (rule grows_trans [OF grows_trans [OF t(1) tu] that])
qed

lemma ensures_decide:
  assumes "wired X st" "server_ok X s"
  shows "ensures (server_grows X) (\<lambda>r t. \<forall>rec. r = Inr rec \<longrightarrow> answers_request who i req rec \<and> on_record X t rec)
    (decide_task X st who i req) s"
proof -
  let ?R = "server_grows X" and ?Q = "\<lambda>r t. \<forall>rec. r = Inr rec \<longrightarrow> answers_request who i req rec \<and> on_record X t rec"
  have w: "app_alerts st = sqlite_service X" "outside_call (case_prod (app_anchor st))" using assms(1) by (simp_all add: wired_def)
  have submit: "ensures ?R ?Q (then_task (domain_task (submit_decision_task X (sqlite_service X) i (inv_id who) d (dq_rationale req))) (\<lambda>rec.
         case hash_decision X i (inv_id who) (decision_str d) (dr_rationale rec) (dr_created_at rec) of
           None \<Rightarrow> Done (Inl Panicked)
         | Some h \<Rightarrow> map_result (\<lambda>_. Inr rec) (call (app_anchor st i h)))) u"
    if "server_ok X u" "can_decide (inv_role who)" "decision_from_str (dq_decision req) = Inr d" "trim (dq_rationale req) \<noteq> []"
    for u d
  proof (rule grows_ensures_then)
    show "ensures ?R ?Q (domain_task (submit_decision_task X (sqlite_service X) i (inv_id who) d (dq_rationale req))) u"
      unfolding domain_task_def map_err_task_def
      by (rule grows_ensures_map, rule state_preorder.ensures_mono [OF grows_preorder ensures_submit [OF that(1)]])
        (use that in \<open>auto simp: decides_def answers_request_def\<close>)
    fix rec v assume "?R u v" and ok: "\<And>v'. ?R v v' \<Longrightarrow> ?Q (Inr rec) v'"
    then show "ensures ?R ?Q (case hash_decision X i (inv_id who) (decision_str d) (dr_rationale rec) (dr_created_at rec) of
           None \<Rightarrow> Done (Inl Panicked)
         | Some h \<Rightarrow> map_result (\<lambda>_. Inr rec) (call (app_anchor st i h))) v"
      by (auto split: option.split simp: ensures_simps intro!: ensures_anchor w)
  qed simp
  show ?thesis
  proof (cases "can_decide (inv_role who) \<and> trim (dq_rationale req) \<noteq> []")
    case True
    then show ?thesis using submit [OF assms(2)]
      by (cases "decision_from_str (dq_decision req)")
        (auto simp: decide_task_def checked_task_def require_decision_role_def then_task_def w(1) ensures_simps)
  next
    case False
    then show ?thesis
      by (cases "decision_from_str (dq_decision req)")
        (auto simp: decide_task_def checked_task_def require_decision_role_def then_task_def ensures_simps)
  qed
qed

lemma ensures_decided:
  assumes "wired X st" "server_ok X s"
  shows "ensures (server_grows X) (\<lambda>r t. \<forall>rec. r = Inr rec \<longrightarrow> (\<exists>who. answers_request who i req rec) \<and> on_record X t rec)
    (decide_task X st who i req) s"
  by (rule state_preorder.ensures_mono [OF grows_preorder ensures_decide [OF assms]]) blast

text \<open>What the answer to a request promises about the state from then on.\<close>

definition promised :: "crates \<Rightarrow> request \<Rightarrow> failure + response \<Rightarrow> 'a db_scheme \<Rightarrow> bool" where
  "promised X q r t \<longleftrightarrow> (\<forall>i req resp. decision_of q = Some (i, req) \<and> r = Inr resp \<longrightarrow>
     (\<exists>who rec. answers_request who i req rec \<and> on_record X t rec
        \<and> (resp = JsonDecision rec \<or> resp = Redirect None (''/dashboard/alerts/'' @ cr_uuid_text X i))))"

lemma ensures_auth:
  assumes "server_ok X s" "\<And>who u. server_ok X u \<Longrightarrow> ensures (server_grows X) Q (k who) u" "\<And>e t. Q (Inl e) t"
  shows "ensures (server_grows X) Q (then_task (call (authenticated A st p)) (\<lambda>who. k who)) s"
  by (rule grows_ensures_step [OF grows_tasks.keeps_auth(1)]) (use assms grown(1) in blast)+

lemma ensures_serve:
  assumes "wired X st" "server_ok X s"
  shows "ensures (server_grows X) (promised X q) (serve_task X A st p q) s"
proof -
  let ?R = "server_grows X"
  show ?thesis
  proof (cases "decision_of q")
    case None
    then have "promised X q r t" for r t by (simp add: promised_def)
    then show ?thesis
      using state_preorder.ensures_mono [OF grows_preorder state_preorder.ensures_keeps [OF grows_preorder grows_tasks.keeps_serve [OF assms(1) TrueI]]]
      by blast
  next
    case (Some z)
    then consider i req where "q = SubmitDecision i req" | i req where "q = DashboardDecision i req"
      by (cases q) (simp_all add: decision_of_def)
    then show ?thesis
    proof cases
      case (1 i req)
      show ?thesis unfolding 1 serve_task.simps answer_task_def api_submit_decision_task_def
        by (rule grows_ensures_then [OF ensures_auth [OF assms(2) ensures_decided [OF assms(1)]]])
          (auto simp: promised_def decision_of_def ensures_simps)
    next
      case (2 i req)
      have "ensures ?R (\<lambda>r t. promised X q (map_sum id (Redirect None) r) t) (submit_decision_form_task X A st p i req) s"
        unfolding submit_decision_form_task_def
        by (rule ensures_auth [OF assms(2)], rule grows_ensures_then [OF ensures_decided [OF assms(1)]])
          (simp_all add: promised_def decision_of_def ensures_simps 2, blast)
      then show ?thesis unfolding 2 serve_task.simps answer_task_def
        by (rule grows_ensures_then) (auto simp: ensures_simps 2)
    qed
  qed
qed

section \<open>The concurrent server\<close>

text \<open>The tasks of a running server: handlers, each with its request, and the ingestion loop.\<close>

datatype outcome = Answered request "failure + response" | Stopped "string option"

definition handler_task ::
  "crates \<Rightarrow> auth_crates \<Rightarrow> 'a db_scheme app_state \<Rightarrow> ('a db_scheme, outcome) task \<Rightarrow> bool" where
  "handler_task X A st p \<longleftrightarrow> (\<exists>q head. p = map_result (Answered q) (serve_task X A st head q))"

definition ingestion_task ::
  "crates \<Rightarrow> 'a db_scheme app_state \<Rightarrow> 'a db_scheme transaction_source \<Rightarrow> string \<Rightarrow> nat \<Rightarrow> nat \<Rightarrow> ('a db_scheme, outcome) task" where
  "ingestion_task X st src name ms turns = map_result Stopped (run_source_task X st src name ms turns)"

lemma concurrent_run:
  assumes "wired X st" "outside_call (src_poll src)" "server_ok X s"
    and "(moves (handler_task X A st))\<^sup>*\<^sup>* ([ingestion_task X st src name ms n], s) (ts, t)"
  shows "server_grows X s t" "Done (Answered q r) \<in> set ts \<Longrightarrow> promised X q r t"
proof -
  let ?Q = "\<lambda>out t. case out of Answered q r \<Rightarrow> promised X q r t | Stopped c \<Rightarrow> True"
  have w: "app_alerts st = sqlite_service X" "outside_call (app_advisor st)" using assms(1) by (simp_all add: wired_def)
  have "ensures (server_grows X) ?Q (ingestion_task X st src name ms n) s"
    unfolding ingestion_task_def
    by (rule grows_ensures_map, rule state_preorder.ensures_mono [OF grows_preorder
          state_preorder.ensures_keeps [OF grows_preorder grows_tasks.keeps_ingestion [OF w assms(2)]]]) simp
  moreover have "ensures (server_grows X) ?Q p u" if "handler_task X A st p" "server_grows X s u" for p u
  proof -
    have "server_ok X u" using grown(1) [OF that(2) assms(3)] .
    from that(1) ensures_serve [OF assms(1) this] show ?thesis
      by (auto simp: handler_task_def intro!: grows_ensures_map)
  qed
  ultimately have pool: "server_grows X s t \<and> list_all (\<lambda>p. ensures (server_grows X) ?Q p t) ts"
    using state_preorder.pool_ensures [OF grows_preorder assms(4)] by simp
  then show "server_grows X s t" by simp
  show "promised X q r t" if "Done (Answered q r) \<in> set ts"
    using state_preorder.pool_result [OF grows_preorder pool that] by simp
qed

text \<open>
  C4:
  A server that was launched on a database with an empty review keeps the review consistent under
  concurrency: handlers of any number of requests, arriving at any time, and the ingestion loop,
  interleaved at every await, with any faults, and with handlers dropped half-way. At every moment
  the status of every alert is the one of its last decision (open without one), every decision
  belongs to an existing alert, and whenever \<open>verify_chain\<close> answers, it answers that the whole log is
  valid. And an answer is a promise: a decision request that was answered with success has its
  decision, with the investigator, the alert, the decision and the rationale of the request, among
  the stored decisions and its event in the log, then and for ever.
\<close>

theorem concurrent_server_keeps_review:
  assumes "launch X A parse_raw C Q salt vars s0 = (Inr (st, src, name, ms), s)"
    and "sqlx_keeps_rows Q" and "codecs_ok X" and "empty_review s0"
    and "(moves (handler_task X A st))\<^sup>*\<^sup>* ([ingestion_task X st src name ms n], s) (ts, t)"
  shows "(\<forall>i. case sql_amap X t i of None \<Rightarrow> decisions_for i (sql_decs X t) = []
           | Some a \<Rightarrow> al_status a = status_after (decisions_for i (sql_decs X t)))
    \<and> (case sqlite_verify_chain X t of (Inl e, u) \<Rightarrow> True
       | (Inr v, u) \<Rightarrow> cv_valid v \<and> cv_records_checked v = length (sql_log X t))
    \<and> (\<forall>q r. Done (Answered q r) \<in> set ts \<longrightarrow> promised X q r t)"
proof -
  from assms(1) have boot: "bootstrap X A parse_raw C Q salt (config_from_env vars) s0 = (Inr (st, src, name), s)"
    by (auto simp: launch_def Let_def elim!: and_then_InrE)
  have "empty_review s"
    using bootstrap_review [OF assms(2) boot] assms(4) by (simp add: review_kept_def empty_review_def)
  then have ok: "server_ok X s" by (rule empty_review_ok [OF assms(3)])
  note run = concurrent_run [OF bootstrap_wired [OF boot] ok assms(5)]
  show ?thesis using server_ok_review [OF grown(1) [OF run(1) ok]] run(2) by blast
qed

theorem concurrent_server_keeps_review_witness:
  "\<exists>st src name ms s ts t r. launch sample_crates plain_auth no_parser no_pages open_existing ''salt'' no_vars sample_node
       = (Inr (st, src, name, ms), s)
     \<and> (moves (handler_task sample_crates plain_auth st))\<^sup>*\<^sup>* ([ingestion_task sample_crates st src name ms 3], s) (ts, t)
     \<and> Done (Answered sample_decision r) \<in> set ts \<and> promised sample_crates sample_decision r t"
proof -
  obtain st src name s where "bootstrap sample_crates plain_auth no_parser no_pages open_existing ''salt''
      (config_from_env no_vars) sample_node = (Inr (st, src, name), s)" by (rule sample_boot)
  then obtain ms where b: "launch sample_crates plain_auth no_parser no_pages open_existing ''salt'' no_vars sample_node
       = (Inr (st, src, name, ms), s)" by (simp add: launch_def Let_def and_then_def)
  let ?p = "map_result (Answered sample_decision) (serve_task sample_crates plain_auth st sample_cookie sample_decision)"
  let ?loop = "ingestion_task sample_crates st src name ms 3"
  obtain r t where "run_task ?p s = (Answered sample_decision r, t)"
    by (metis (no_types, lifting) prod.case_eq_if prod.exhaust run_map)
  then have run: "(moves (handler_task sample_crates plain_auth st))\<^sup>*\<^sup>* ([?loop], s) ([?loop] @ [Done (Answered sample_decision r)], t)"
    by (intro arrive_and_run) (auto simp: handler_task_def)
  from concurrent_server_keeps_review [OF b open_existing_ok sample_codecs_ok sample_node_empty(1) run]
  have "promised sample_crates sample_decision r t" by simp
  moreover have "Done (Answered sample_decision r) \<in> set ([?loop] @ [Done (Answered sample_decision r)])" by simp
  ultimately show ?thesis using b run by blast
qed

text \<open>
  C18:
  The tables are well-formed at every moment of a concurrent server that was started on empty ones:
  every row of the alerts, the decisions, the log and the transactions decodes to a value, alerts,
  decisions and log entries under the identifier they are stored with; identifiers of alerts are
  unique; the log is numbered from 0 without gaps, although appends of different handlers compete;
  and no investigator is added, changed or removed.
\<close>

theorem concurrent_tables_well_formed:
  assumes "wired X st" and "outside_call (src_poll src)" and "codecs_ok X"
    and "empty_review s" and "db_transactions s = []"
    and "(moves (handler_task X A st))\<^sup>*\<^sup>* ([ingestion_task X st src name ms n], s) (ts, t)"
  shows "list_all (alert_row_ok X) (db_alerts t) \<and> distinct (map alr_id (db_alerts t))
    \<and> list_all (decision_row_ok X) (db_decisions t)
    \<and> list_all (audit_row_ok X) (db_audit t) \<and> numbered (sql_log X t)
    \<and> list_all (tx_row_ok X) (db_transactions t)
    \<and> db_investigators t = db_investigators s"
proof -
  have w: "app_alerts st = sqlite_service X" "outside_call (app_advisor st)" using assms(1) by (simp_all add: wired_def)
  have ok: "server_ok X s" by (rule empty_review_ok [OF assms(3,4)])
  have "server_ok X t" using grown(1) [OF concurrent_run(1) [OF assms(1,2) ok assms(6)] ok] .
  moreover have "keeps (rows_kept X) (ingestion_task X st src name ms n)"
    unfolding ingestion_task_def by (intro keeps_map rows_tasks.keeps_ingestion w assms(2))
  moreover have "keeps (rows_kept X) p" if "handler_task X A st p" for p
    using that rows_tasks.keeps_serve [OF assms(1) TrueI] by (auto simp: handler_task_def intro!: keeps_map)
  ultimately have "rows_kept X s t"
    using state_preorder.pool_keeps [OF rows.state_preorder_axioms assms(6)] by simp
  with \<open>server_ok X t\<close> show ?thesis using assms(3,5)
    by (simp add: server_ok_def sqlite_inv_def sql_alert_inv_def sql_audit_inv_def rows_kept_def sql_tx_inv_def)
qed

text \<open>Two copies of one decision request arrive and are carried out.\<close>

theorem concurrent_tables_well_formed_witness:
  "\<exists>t r r'. (moves (handler_task sample_crates sample_auth sample_app))\<^sup>*\<^sup>*
       ([ingestion_task sample_crates sample_app empty_source ''demo'' 15000 3], sample_db 9)
       ([ingestion_task sample_crates sample_app empty_source ''demo'' 15000 3, Done (Answered sample_decision r),
         Done (Answered sample_decision r')], t)
     \<and> distinct (map alr_id (db_alerts t)) \<and> numbered (sql_log sample_crates t)"
proof -
  let ?E = "handler_task sample_crates sample_auth sample_app"
  let ?loop = "ingestion_task sample_crates sample_app empty_source ''demo'' 15000 3"
  let ?p = "map_result (Answered sample_decision) (serve_task sample_crates sample_auth sample_app sample_cookie sample_decision)"
  have E: "?E ?p" by (auto simp: handler_task_def)
  have run: "\<exists>r t. run_task ?p s = (Answered sample_decision r, t)" for s
    by (metis (no_types, lifting) prod.case_eq_if prod.exhaust run_map)
  obtain r u where u: "run_task ?p (sample_db 9) = (Answered sample_decision r, u)" using run by blast
  obtain r' t where t: "run_task ?p u = (Answered sample_decision r', t)" using run by blast
  have steps: "(moves ?E)\<^sup>*\<^sup>* ([?loop], sample_db 9) ([?loop, Done (Answered sample_decision r), Done (Answered sample_decision r')], t)"
    using rtranclp_trans [OF arrive_and_run [of ?E, OF E u, of "[?loop]"] arrive_and_run [of ?E, OF E t]] by simp
  have "empty_review (sample_db 9)" "db_transactions (sample_db 9) = []"
    by (simp_all add: empty_review_def sample_db_def)
  from concurrent_tables_well_formed [OF sample_wired empty_source_outside sample_codecs_ok this steps] steps show ?thesis
    by blast
qed

end
