(* ===== verification/DetectProps.thy ===== *)
theory DetectProps
  imports PipelineProps
begin

text \<open>
  What the pipeline detects, end to end: on a working database a large transfer or a contact with a
  flagged account always opens an alert, and what the velocity rule counts.
\<close>

section \<open>Opening an alert on a working database\<close>

text \<open>
  What is relied on: \<open>serde_json\<close> writes every value (\<open>json_writes\<close>), and the next two identifiers drawn are not in
  use, the first for the alert and the second for its log entry.
\<close>

definition fresh_draws :: "crates \<Rightarrow> 'a db_scheme \<Rightarrow> bool" where
  "fresh_draws X s \<longleftrightarrow>
     cr_uuid_text X (env_uuid_src s (env_uuids s)) \<notin> alr_id ` set (db_alerts s)
     \<and> cr_uuid_text X (env_uuid_src s (Suc (env_uuids s))) \<notin> aur_id ` set (db_audit s)"

lemma alert_written:
  assumes "codecs_ok X"
  obtains row where "alert_row_of X a = Inr row" "alr_id row = cr_uuid_text X (al_id a)"
proof -
  have e: "codec_exact (cr_strings X)" "codec_exact (cr_assets X)" "codec_readable (cr_triggers X)" "codec_readable (cr_ai_status X)"
    using assms by (simp_all add: codecs_ok_def)
  obtain t1 t2 t3 t4 where "to_text (cr_strings X) (al_accounts a) = Inr t1" "to_text (cr_assets X) (al_assets a) = Inr t2"
    "to_text (cr_triggers X) (al_triggered_rules a) = Inr t3" "to_text (cr_ai_status X) (al_ai_status a) = Inr t4"
    using e unfolding codec_exact_def codec_readable_def by metis
  then show ?thesis using that by (simp add: alert_row_of_def)
qed

lemma insert_healthy:
  assumes "codecs_ok X" "healthy s" "cr_uuid_text X (al_id a) \<notin> alr_id ` set (db_alerts s)"
  shows "\<exists>t. sqlite_insert X a s = (Inr (), t) \<and> healthy t \<and> env_uuid_src t = env_uuid_src s
    \<and> env_uuids t = env_uuids s \<and> db_audit t = db_audit s"
proof -
  obtain row where "alert_row_of X a = Inr row" "alr_id row = cr_uuid_text X (al_id a)"
    using alert_written [OF assms(1)] by blast
  with assms(2,3) show ?thesis
    by (simp add: sqlite_insert_def insert_alert_row_def execute_def sql_call_def and_then_def map_err_act_def healthy_def)
qed

lemma next_sequence_fresh: "select_next_sequence rows \<notin> aur_sequence ` set rows"
proof -
  have "aur_sequence r < Max (aur_sequence ` set rows) + 1" if "r \<in> set rows" for r
    using Max_ge [of "aur_sequence ` set rows" "aur_sequence r"] that by simp
  then show ?thesis
    by (cases "rows = []") (fastforce simp: select_next_sequence_def)+
qed

lemma append_healthy:
  assumes "codecs_ok X" "json_writes X" "healthy s"
    and "cr_uuid_text X (env_uuid_src s (env_uuids s)) \<notin> aur_id ` set (db_audit s)"
  shows "\<exists>r t. sqlite_append X ev s = (Inr r, t) \<and> healthy t \<and> env_uuid_src t = env_uuid_src s
    \<and> env_uuids t = Suc (env_uuids s) \<and> db_decisions t = db_decisions s
    \<and> aur_id ` set (db_audit t) = insert (cr_uuid_text X (env_uuid_src s (env_uuids s))) (aur_id ` set (db_audit s))"
proof -
  have "codec_readable (cr_event X)" using assms(1) by (simp add: codecs_ok_def)
  from codec_readableE [OF this] obtain e where "to_text (cr_event X) (ne_event ev) = Inr e" by blast
  then have e: "event_text X (ne_event ev) = Inr e" by (simp add: event_text_def)
  obtain f where f: "cr_json X v = Inr (f v)" for v using assms(2) unfolding json_writes_def by metis
  have h: "\<exists>h. compute_hash X p n a t e c = Inr h" for p n a t c by (simp add: compute_hash_def digest_def f)
  then obtain g where g: "compute_hash X p n a t e c = Inr (g p n a t c)" for p n a t c by metis
  show ?thesis
    using assms(3,4)
    by (simp add: sqlite_append_def query_def Let_def utc_now_def new_uuid_def e g next_sequence_fresh
        and_then_def map_err_act_def execute_def sql_call_def healthy_def insert_audit_row_def audit_row_of_def)
qed

lemma create_healthy:
  assumes "codecs_ok X" "json_writes X" "healthy s" "fresh_draws X s"
  shows "\<exists>a t. create_alert (sqlite_service X) na s = (Inr a, t)"
proof -
  let ?i = "env_uuid_src s (env_uuids s)" and ?now = "env_clock s (env_ticks s)"
  let ?a = "opened_alert ?i ?now na" and ?d = "s\<lparr>env_uuids := Suc (env_uuids s), env_ticks := Suc (env_ticks s)\<rparr>"
  obtain t where t: "sqlite_insert X ?a ?d = (Inr (), t)" "healthy t" "env_uuid_src t = env_uuid_src s"
    "env_uuids t = Suc (env_uuids s)" "db_audit t = db_audit s"
    using insert_healthy [OF assms(1), of ?d ?a] assms(3,4) by (auto simp: healthy_def fresh_draws_def opened_alert_def)
  have "cr_uuid_text X (env_uuid_src t (env_uuids t)) \<notin> aur_id ` set (db_audit t)"
    using assms(4) t(3-5) by (simp add: fresh_draws_def)
  from append_healthy [OF assms(1,2) t(2) this] obtain r u where
    u: "sqlite_append X (alert_event (alert_created_event ?a) (al_id ?a) (al_tx_id ?a)) t = (Inr r, u)" by blast
  have "create_alert (sqlite_service X) na s = (Inr ?a, u)"
    using t(1) u
    by (simp add: create_alert_def sqlite_service_def and_then_def new_uuid_def utc_now_def Let_def log_event_def map_err_act_def)
  then show ?thesis by blast
qed

section \<open>What is always detected\<close>

text \<open>A transaction with a movement above its threshold, or with a flagged account at any end.\<close>

definition suspicious :: "rules_config \<Rightarrow> account_id set \<Rightarrow> normalized_transaction \<Rightarrow> bool" where
  "suspicious cfg flagged tx \<longleftrightarrow>
     (\<exists>m \<in> set (tx_movements tx). dec_value (transfer_threshold cfg (mv_asset m)) < dec_value (mv_amount m))
     \<or> (\<exists>a \<in> flagged. a = tx_source_account tx \<or> (\<exists>m \<in> set (tx_movements tx). a = mv_from m \<or> a = mv_to m))"

lemma suspicious_trigger:
  assumes "suspicious (ec_config ctx) (ec_flagged_accounts ctx) (ec_tx ctx)"
  shows "\<exists>t \<in> set (evaluate_all (with_built_ins X) ctx). 35 \<le> weight_of (rt_rule_id t)"
proof -
  consider (large) m where "m \<in> set (tx_movements (ec_tx ctx))"
      "dec_value (transfer_threshold (ec_config ctx) (mv_asset m)) < dec_value (mv_amount m)"
    | (flagged) a where "a \<in> ec_flagged_accounts ctx" "a \<in> set (involved_accounts (ec_tx ctx))"
    using assms by (auto simp: suspicious_def set_involved_accounts)
  then show ?thesis
  proof cases
    case large
    then have "large_transfer_trigger X (transfer_threshold (ec_config ctx) (mv_asset m)) m \<in> set (rule_evaluate (large_transfer_rule X) ctx)"
      by (simp add: large_transfer_rule_def large_transfer_loop_eq)
    then show ?thesis
      by (force simp: evaluate_all_def with_built_ins_def built_in_rules_def large_transfer_trigger_def trigger_def weight_of_def)
  next
    case flagged
    then have "flagged_trigger a \<in> set (rule_evaluate flagged_account_rule ctx)"
      by (simp add: flagged_account_rule_def flagged_account_eval_def)
    then show ?thesis
      by (force simp: evaluate_all_def with_built_ins_def built_in_rules_def flagged_trigger_def trigger_def weight_of_def)
  qed
qed

lemma suspicious_score:
  assumes "suspicious (ec_config ctx) (ec_flagged_accounts ctx) (ec_tx ctx)"
  shows "35 \<le> er_score (evaluate (with_built_ins X) ctx scoring_config_default)"
    "\<exists>sev. er_severity (evaluate (with_built_ins X) ctx scoring_config_default) = Some sev \<and> Medium \<le> sev"
proof -
  let ?ts = "evaluate_all (with_built_ins X) ctx"
  obtain t where t: "t \<in> set ?ts" "35 \<le> weight_of (rt_rule_id t)" using suspicious_trigger [OF assms] by blast
  then have "35 \<le> (\<Sum>t \<leftarrow> ?ts. weight_of (rt_rule_id t))"
    using member_le_sum_list [of "weight_of (rt_rule_id t)" "map (\<lambda>t. weight_of (rt_rule_id t)) ?ts"] by fastforce
  then have "(35 :: rat) \<le> of_nat (\<Sum>t \<leftarrow> ?ts. weight_of (rt_rule_id t))"
    by (metis of_nat_le_iff of_nat_numeral)
  then show score: "35 \<le> er_score (evaluate (with_built_ins X) ctx scoring_config_default)"
    by (simp add: score_capped)
  have "severity_of_score scoring_config_default 35 = Medium"
    by (simp add: severity_of_score_def scoring_config_default_def)
  with score t(1) severity_of_score_mono [of 35 _ scoring_config_default]
  show "\<exists>sev. er_severity (evaluate (with_built_ins X) ctx scoring_config_default) = Some sev \<and> Medium \<le> sev"
    by (fastforce simp: severity_Some)
qed

text \<open>
  C7: No suspicious transaction is missed. On a working database, with the built-in rules and the
  default scoring, processing a transaction that moves more than the threshold of an asset, or that
  involves a flagged account, always ends with a new open alert for it, of score 35 at least and
  severity Medium at least, and with a log entry for that alert; whatever the AI advisor does, and
  also when the transaction is already stored and already has an alert.
\<close>
theorem suspicious_always_alerted:
  assumes "app_alerts st = sqlite_service X" and "outside_call (app_advisor st)" and "app_registry st = with_built_ins X"
    and "app_scoring st = scoring_config_default"
    and "sqlite_inv X s" and "sql_tx_inv X s" and "healthy s" and "json_writes X" and "fresh_draws X s"
    and "suspicious (app_rules st) (set (map flr_account_id (db_flagged s))) tx"
  shows "\<exists>i t a q. process_transaction X st tx s = (Inr (Some i), t)
    \<and> sql_amap X s i = None \<and> sql_amap X t i = Some a
    \<and> al_tx_id a = tx_id tx \<and> al_status a = Open \<and> 35 \<le> al_score a \<and> Medium \<le> al_severity a
    \<and> prefix (sql_log X s @ [q]) (sql_log X t) \<and> ae_alert_id q = Some i"
proof -
  obtain h u where run: "assess_transaction X st tx s =
      (Inr (h, evaluate (with_built_ins X) (evaluation_ctx st tx h (set (map flr_account_id (db_flagged s)))) scoring_config_default), u)"
    and u: "undrawn s u"
    using assess_undrawn [OF assms(6,7), of st tx] unfolding assms(3,4) by blast
  let ?ev = "evaluate (with_built_ins X) (evaluation_ctx st tx h (set (map flr_account_id (db_flagged s)))) scoring_config_default"
  have "35 \<le> er_score ?ev" and "\<exists>sev. er_severity ?ev = Some sev \<and> Medium \<le> sev"
    using assms(10) by (auto simp: evaluation_ctx_def intro!: suspicious_score simp del: evaluate_sel)
  then obtain sev where sev: "er_severity ?ev = Some sev" "Medium \<le> sev" "35 \<le> er_score ?ev" by blast
  have "codecs_ok X" using assms(6) by (simp add: sql_tx_inv_def)
  moreover have "fresh_draws X u" using assms(9) u by (simp add: fresh_draws_def undrawn_def review_kept_def)
  ultimately obtain a v where create: "create_alert (sqlite_service X) (new_alert_of tx ?ev sev) u = (Inr a, v)"
    using create_healthy [OF _ assms(8) undrawn_healthy [OF u assms(7)]] by blast
  have proc: "process_transaction X st tx s = (Inr (Some (al_id a)), request_ai_advisory X st a tx h v)"
    using run sev(1) create assms(1) by (simp add: process_transaction_def and_then_def display_err_def map_err_act_def del: evaluate_sel)
  have "fst (assess_transaction X st tx s) = Inr (h, ?ev)" by (simp only: run fst_conv)
  then show ?thesis
    using process_outcome [OF assms(1,2,5), of tx] sev unfolding proc prod.case sum.case option.case by force
qed

text \<open>The transfer of 50000 exceeds the default threshold.\<close>

theorem suspicious_always_alerted_witness:
  "\<exists>i t a. process_transaction sample_crates sample_app sample_tx healthy_db = (Inr (Some i), t)
     \<and> sql_amap sample_crates t i = Some a \<and> al_tx_id a = ''tx-1'' \<and> 35 \<le> al_score a"
proof -
  have "json_writes sample_crates" by (simp add: json_writes_def sample_crates_def)
  moreover have "fresh_draws sample_crates healthy_db" by (simp add: fresh_draws_def healthy_db_def sample_db_def)
  moreover have "suspicious (app_rules (sample_app :: db app_state)) (set (map flr_account_id (db_flagged healthy_db))) sample_tx"
    by (simp add: suspicious_def sample_app_def sample_tx_def sample_movement_def transfer_threshold_def rules_config_default_def
        dec_value_def dec_of_nat_def)
  ultimately show ?thesis
    using suspicious_always_alerted [of "sample_app :: db app_state" sample_crates healthy_db sample_tx] healthy_db(1-3)
    by (auto simp: sample_app_def null_outside.outside_call_axioms sample_tx_def)
qed

section \<open>What the velocity rule counts\<close>

lemma count_recent:
  "length (filter (\<lambda>r. P (rc_created_at r)) (concat (map (recent_of_tx acct) txs))) =
     (\<Sum>t \<leftarrow> filter (\<lambda>t. P (tx_created_at t)) txs. length (tx_movements t))"
proof -
  have "length (filter (\<lambda>r. P (rc_created_at r)) (recent_of_tx acct t)) = (if P (tx_created_at t) then length (tx_movements t) else 0)" for t
    by (simp add: recent_of_tx_def filter_map o_def)
  then show ?thesis by (induction txs) simp_all
qed

lemma window_of_window:
  "lo \<le> lo' \<Longrightarrow> filter (\<lambda>t. tx_created_at t \<le> hi \<and> hi - tx_created_at t \<le> hi - lo') (window_txs acct lo hi txs) = window_txs acct lo' hi txs"
  by (auto simp: window_txs_def intro!: filter_cong)

lemma velocity_fires:
  "(\<exists>tr \<in> set (evaluate_all (with_built_ins X) ctx). rt_rule_id tr = ''velocity'') \<longleftrightarrow>
     velocity_max_tx_count (ec_config ctx) \<le> count_in_window ctx (seconds (velocity_window_secs (ec_config ctx)))"
proof -
  have other: "rt_rule_id tr \<noteq> ''velocity''"
    if "r \<in> set (built_in_rules X)" "r \<noteq> velocity_rule" "tr \<in> set (rule_evaluate r ctx)" for r tr
    using built_in_trigger_ok [OF that(1,3)] that(1,2)
    by (auto simp: trigger_ok_def built_in_rules_def large_transfer_rule_def abnormal_frequency_rule_def
        flagged_account_rule_def unusual_asset_rule_def operation_count_rule_def)
  have "velocity_rule \<in> set (built_in_rules X)" by (simp add: built_in_rules_def)
  then have "(\<exists>tr \<in> set (evaluate_all (with_built_ins X) ctx). rt_rule_id tr = ''velocity'')
      \<longleftrightarrow> (\<exists>tr \<in> set (velocity_eval ctx). rt_rule_id tr = ''velocity'')"
    using other by (fastforce simp: evaluate_all_def with_built_ins_def velocity_rule_def)
  then show ?thesis by (simp add: velocity_eval_def Let_def trigger_def)
qed



end
