(* ===== verification/DashboardProps.thy ===== *)
theory DashboardProps
  imports Dashboard ReviewProps
begin

text \<open>
  Properties of the pages: no text of an alert, a transaction, an investigator or a model can add,
  remove or change markup, and the list page is lost to everybody when one identifier is cut inside
  a character.
\<close>

section \<open>Text never becomes markup\<close>

lemma markup_words [simp]:
  "markup (severity_str sev) = []" "markup (alert_status_str st) = []" "markup ellipsis = []" "markup em_dash = []"
  "markup middle_dot = []"
  by (cases sev, simp_all add: severity_str_def markup_def)
    (cases st, simp_all add: alert_status_str_def markup_def, simp_all add: ellipsis_def em_dash_def middle_dot_def markup_def)

lemma markup_show_int [simp]: "markup (show_int n) = []"
proof -
  have "markup (CHR ''-'' # s) = markup s" for s by (simp add: markup_def)
  then show ?thesis by (simp add: show_int_def)
qed

text \<open>
  What is relied on about the \<open>uuid\<close> crate: the text of an identifier is 36 hexadecimal digits and
  hyphens.
\<close>

definition uuid_char :: "char \<Rightarrow> bool" where
  "uuid_char c \<longleftrightarrow> is_digit c \<or> c \<in> set ''abcdef-''"

definition uuid_texts :: "crates \<Rightarrow> bool" where
  "uuid_texts X \<longleftrightarrow> (\<forall>u. length (cr_uuid_text X u) = 36 \<and> list_all uuid_char (cr_uuid_text X u))"

lemma uuid_char_plain: "list_all uuid_char s \<Longrightarrow> markup s = []"
  by (induction s) (auto simp: markup_def uuid_char_def is_digit_def)

lemma markup_uuid: "uuid_texts X \<Longrightarrow> markup (cr_uuid_text X u) = []"
  by (rule uuid_char_plain) (simp add: uuid_texts_def)

lemma uuid_boundary: "list_all uuid_char s \<Longrightarrow> i < length s \<Longrightarrow> is_char_boundary s i"
  by (auto simp: is_char_boundary_def uuid_char_def is_digit_def is_cont_byte_def list_all_length)

lemma short_uuid:
  assumes "uuid_texts X"
  shows "\<exists>t. short (cr_uuid_text X u) = Some t \<and> markup t = []"
proof -
  let ?s = "cr_uuid_text X u"
  have s: "length ?s = 36" "list_all uuid_char ?s" using assms by (simp_all add: uuid_texts_def)
  have "list_all uuid_char (take 8 ?s)" "list_all uuid_char (drop 30 ?s)"
    using s(2) by (auto simp: list_all_iff dest: in_set_takeD in_set_dropD)
  then show ?thesis using s uuid_boundary [OF s(2)] by (simp add: short_def uuid_char_plain)
qed

text \<open>How many elements of each kind a page has.\<close>

fun ai_shape :: "ai_advisory_status \<Rightarrow> nat list" where
  "ai_shape Pending = []"
| "ai_shape (Unavailable reason t) = [0]"
| "ai_shape (Ready adv) = [length (adv_suspicious_signals adv), length (adv_recommended_next_steps adv)]"

definition page_shape :: "alert_view \<Rightarrow> nat list \<times> nat \<times> nat \<times> nat \<times> bool" where
  "page_shape v =
     (ai_shape (al_ai_status (av_alert v)), length (al_triggered_rules (av_alert v)), length (av_decisions v),
      length (av_trail v), av_tx v = None)"

text \<open>The markup of each piece does not depend on its text.\<close>

lemma markup_item: "markup (item t) = markup (item [])"
  by (simp only: item_def markup_append markup_esc markup_Nil esc_Nil)

lemma markup_rule: "markup (rule_html r) = markup (rule_html r')"
  by (simp only: rule_html_def markup_append markup_esc)

lemma markup_decision: "markup (decision_html X d) = markup (decision_html X d')"
  by (simp only: decision_html_def markup_append markup_esc)

lemma markup_audit: "markup (audit_html X r) = markup (audit_html X r')"
  by (simp only: audit_html_def markup_append markup_esc markup_show_int)

lemmas markup_items = markup_map [OF markup_item]

lemma markup_list:
  assumes "\<And>x y. markup (f x) = markup (f y)" "length xs = length ys"
  shows "markup (concat (map f xs)) = markup (concat (map f ys))"
proof -
  have "map (markup \<circ> f) xs = replicate (length xs) (markup (f undefined))"
    using assms(1) [of _ undefined] by (induction xs) simp_all
  moreover have "map (markup \<circ> f) ys = replicate (length ys) (markup (f undefined))"
    using assms(1) [of _ undefined] by (induction ys) simp_all
  ultimately show ?thesis using assms(2) by (simp add: markup_concat)
qed

lemma markup_ready:
  assumes "length (adv_suspicious_signals adv) = length (adv_suspicious_signals adv')"
    and "length (adv_recommended_next_steps adv) = length (adv_recommended_next_steps adv')"
  shows "markup (ready_panel adv) = markup (ready_panel adv')"
  unfolding ready_panel_def by (simp only: markup_append markup_esc markup_rounded markup_items assms)

lemma markup_ai_panel:
  assumes "ai_shape st = ai_shape st'"
  shows "markup (ai_panel X st) = markup (ai_panel X st')"
proof -
  consider "st = Pending" "st' = Pending"
    | r t r' t' where "st = Unavailable r t" "st' = Unavailable r' t'"
    | adv adv' where "st = Ready adv" "st' = Ready adv'"
    using assms by (cases st; cases st') auto
  then show ?thesis
  proof cases
    case 1
    then show ?thesis by (simp only:)
  next
    case 2
    then show ?thesis by (simp only: ai_panel_def ai_advisory_status.case markup_append markup_esc)
  next
    case 3
    then show ?thesis using assms markup_ready [of adv adv'] by (simp only: ai_panel_def ai_advisory_status.case ai_shape.simps list.inject)
  qed
qed

lemma markup_tx: "(found = None) = (found' = None) \<Longrightarrow> markup (tx_html found) = markup (tx_html found')"
  by (cases found; cases found') (simp_all only: tx_html_def option.case markup_append markup_esc markup_show_nat
      markup_show_int option.distinct simp_thms)

lemma history_shown: "concat (map (decision_html X) ds) = [] \<longleftrightarrow> ds = []"
  by (cases ds) (simp_all add: decision_html_def)

lemma markup_history:
  assumes "length ds = length ds'"
  shows "markup (history_html X ds) = markup (history_html X ds')"
proof -
  have "ds = [] \<longleftrightarrow> ds' = []" using assms by auto
  then show ?thesis unfolding history_html_def Let_def history_shown
    using markup_list [of "decision_html X", OF markup_decision assms] by simp
qed

lemma markup_form:
  "uuid_texts X \<Longrightarrow> can_decide (inv_role u) = can_decide (inv_role u') \<Longrightarrow>
   markup (decision_form X u i) = markup (decision_form X u' i')"
  by (simp only: decision_form_def markup_append markup_uuid if_distrib [of markup])

lemma markup_badges: "markup (severity_badge a) = markup (severity_badge a')" "markup (status_badge a) = markup (status_badge a')"
  by (simp_all only: severity_badge_def status_badge_def markup_append markup_esc markup_words)

lemma markup_body:
  assumes "uuid_texts X" "page_shape v = page_shape v'" "can_decide (inv_role u) = can_decide (inv_role u')"
  shows "markup (detail_body X u i v) = markup (detail_body X u' i' v')"
proof -
  have shape: "ai_shape (al_ai_status (av_alert v)) = ai_shape (al_ai_status (av_alert v'))"
    "length (al_triggered_rules (av_alert v)) = length (al_triggered_rules (av_alert v'))"
    "length (av_decisions v) = length (av_decisions v')" "length (av_trail v) = length (av_trail v')"
    "(av_tx v = None) = (av_tx v' = None)"
    using assms(2) by (simp_all add: page_shape_def)
  note parts = markup_ai_panel [OF shape(1), of X] markup_list [of rule_html, OF markup_rule shape(2)]
    markup_history [OF shape(3), of X] markup_list [of "audit_html X", OF markup_audit shape(4)] markup_tx [OF shape(5)]
    markup_form [OF assms(1,3), of i i'] markup_badges [of "av_alert v" "av_alert v'"]
  show ?thesis unfolding detail_body_def
    by (simp only: markup_append markup_uuid [OF assms(1)] markup_rounded parts)
qed

lemma markup_layout:
  "markup t = markup t' \<Longrightarrow> markup b = markup b' \<Longrightarrow>
   markup (layout t (who_of u) b) = markup (layout t' (who_of u') b')"
  by (simp only: layout_def who_of_def header_right_def option.case prod.case markup_append markup_esc)

text \<open>
  C24:
  The page of an alert is always produced, and its markup (every angle bracket and double quote, in
  order) is decided by how much there is to show and by whether the reader may decide: two views
  with the same number of rules, decisions, audit records, AI signals and AI steps give pages with
  the same markup, whatever the texts of the transaction, the rules, the investigators, their
  rationales and the AI model are. No text can inject an element or an attribute.
\<close>

theorem detail_page_markup:
  assumes "uuid_texts X" and "page_shape v = page_shape v'"
    and "can_decide (inv_role user) = can_decide (inv_role user')"
  shows "\<exists>p p'. detail_page X user i v = Some p \<and> detail_page X user' i' v' = Some p' \<and> markup p = markup p'"
proof -
  obtain t t' where t: "short (cr_uuid_text X (al_id (av_alert v))) = Some t" "markup t = []"
    "short (cr_uuid_text X (al_id (av_alert v'))) = Some t'" "markup t' = []"
    using short_uuid [OF assms(1)] by metis
  have "markup (''Alert '' @ t) = markup (''Alert '' @ t')" by (simp only: markup_append t)
  from markup_layout [OF this markup_body [OF assms]] show ?thesis
    by (simp only: detail_page_def t option.map option.inject ex_simps simp_thms)
qed

text \<open>A view whose advisory has the given text everywhere.\<close>

definition sample_view :: "string \<Rightarrow> alert_view" where
  "sample_view text =
     \<lparr>av_alert = sample_alert\<lparr>al_ai_status := Ready (sample_advisory text)\<rparr>, av_decisions = [], av_trail = [], av_tx = None\<rparr>"

text \<open>Identifiers as 32 hexadecimal digits, the last one first, and four hyphens.\<close>

definition hex_digits :: string where "hex_digits = ''0123456789abcdef''"

fun hex_of :: "nat \<Rightarrow> nat \<Rightarrow> string" where
  "hex_of 0 n = []"
| "hex_of (Suc k) n = hex_digits ! (n mod 16) # hex_of k (n div 16)"

fun of_hex :: "string \<Rightarrow> nat" where
  "of_hex [] = 0"
| "of_hex (c # s) = length (takeWhile (\<lambda>d. d \<noteq> c) hex_digits) + 16 * of_hex s"

definition hex_crates :: crates where
  "hex_crates = sample_crates
     \<lparr>cr_uuid_text := (\<lambda>u. hex_of 32 (unat u) @ ''----''),
      cr_uuid_parse := (\<lambda>s. Inr (of_nat (of_hex (take 32 s))))\<rparr>"

lemma hex_digit_cases: "(n :: nat) < 16 \<Longrightarrow> n \<in> {0, 1, 2, 3, 4, 5, 6, 7, 8, 9, 10, 11, 12, 13, 14, 15}"
  by (simp add: less_Suc_eq numeral_eq_Suc)

lemma hex_digit_value: "n < 16 \<Longrightarrow> length (takeWhile (\<lambda>d. d \<noteq> hex_digits ! n) hex_digits) = n"
  by (drule hex_digit_cases) (auto simp: hex_digits_def)

lemma hex_digit_char: "n < 16 \<Longrightarrow> uuid_char (hex_digits ! n)"
  by (drule hex_digit_cases) (auto simp: hex_digits_def uuid_char_def is_digit_def)

lemma hex_of_length [simp]: "length (hex_of k n) = k"
  by (induction k arbitrary: n) simp_all

lemma hex_of_chars: "list_all uuid_char (hex_of k n)"
  by (induction k arbitrary: n) (simp_all add: hex_digit_char)

lemma of_hex_of: "n < 16 ^ k \<Longrightarrow> of_hex (hex_of k n) = n"
proof (induction k arbitrary: n)
  case (Suc k)
  then have "n div 16 < 16 ^ k" by (simp add: less_mult_imp_div_less mult.commute)
  with Suc.IH show ?case by (simp add: hex_digit_value)
qed simp

lemma hex_uuid_texts: "uuid_texts hex_crates"
  by (simp add: uuid_texts_def hex_crates_def hex_of_chars) (simp add: uuid_char_def)

lemma hex_codecs_ok: "codecs_ok hex_crates"
proof -
  have "of_nat (of_hex (hex_of 32 (unat u))) = u" for u :: uuid
  proof -
    have "unat u < 16 ^ 32" using unsigned_less [of u, where ?'a = nat] by simp
    then show ?thesis by (simp add: of_hex_of)
  qed
  then show ?thesis using sample_codecs_ok by (simp add: codecs_ok_def hex_crates_def)
qed

definition sample_user :: investigator where
  "sample_user = \<lparr>inv_id = ''inv-1'', inv_username = ''ann'', inv_role = Viewer\<rparr>"

theorem detail_page_markup_witness:
  "\<exists>p p'. detail_page hex_crates sample_user 77 (sample_view ''fine'') = Some p
     \<and> detail_page hex_crates sample_user 77 (sample_view ''</p><script>alert(1)</script>'') = Some p'
     \<and> markup p = markup p'"
proof (rule detail_page_markup)
  show "uuid_texts hex_crates" by (rule hex_uuid_texts)
  show "page_shape (sample_view ''fine'') = page_shape (sample_view ''</p><script>alert(1)</script>'')"
    by (simp add: page_shape_def sample_view_def sample_advisory_def)
qed simp

section \<open>One identifier can take the list down\<close>

lemma alert_rows_None: "alert_rows X listed = None \<longleftrightarrow> (\<exists>a \<in> set listed. short (al_tx_id a) = None)"
  by (induction listed) (auto simp: alert_row_def split: option.split)

text \<open>
  The list page is lost, for every reader, exactly when one of the listed alerts has a transaction
  identifier longer than sixteen bytes in which the byte at offset 8 or the sixth byte from the end
  continues a character: the slices of \<open>short\<close> panic there, and nothing between the ingestion endpoint, which
  takes any identifier, and the page rules such an identifier out.
\<close>

theorem list_page_lost:
  "list_page X user listed = None \<longleftrightarrow>
     (\<exists>a \<in> set listed. 16 < length (al_tx_id a)
        \<and> (is_cont_byte (al_tx_id a ! 8) \<or> is_cont_byte (al_tx_id a ! (length (al_tx_id a) - 6))))"
proof -
  have "short s = None \<longleftrightarrow> 16 < length s \<and> (is_cont_byte (s ! 8) \<or> is_cont_byte (s ! (length s - 6)))" for s
    by (auto simp: short_def is_char_boundary_def)
  then show ?thesis by (simp add: list_page_def alert_rows_None)
qed

end
