(* ===== verification/PageProps.thy ===== *)
theory PageProps
  imports DashboardProps TableProps
begin

text \<open>
  The page of an alert on a working database: in a state whose tables are well-formed, every query of
  the handler answers, and the page shows the alert, its decisions, its log entries and its
  transaction as they are stored.
\<close>

section \<open>Queries that answer\<close>

definition answers :: "('a db_scheme, 'e, 'r) action \<Rightarrow> 'a db_scheme \<Rightarrow> bool" where
  "answers m s \<longleftrightarrow> (\<exists>x t. m s = (Inr x, t) \<and> outside_db s t)"

lemma outside_healthy: "outside_db s t \<Longrightarrow> healthy s \<Longrightarrow> healthy t"
  by (simp add: outside_db_def same_oracles_def healthy_def)

lemma outside_invs:
  assumes "outside_db s t"
  shows "sqlite_inv X t = sqlite_inv X s" "sql_amap X t = sql_amap X s" "sql_decs X t = sql_decs X s"
    "sql_log X t = sql_log X s" "sql_tx_inv X t = sql_tx_inv X s" "sql_txs X t = sql_txs X s"
proof -
  have "review_kept s t" using assms by (simp add: outside_db_def review_kept_def)
  then show "sqlite_inv X t = sqlite_inv X s" "sql_amap X t = sql_amap X s" "sql_decs X t = sql_decs X s"
    "sql_log X t = sql_log X s" using review_kept_same by blast+
  show "sql_tx_inv X t = sql_tx_inv X s" "sql_txs X t = sql_txs X s"
    using assms by (simp_all add: outside_db_def sql_tx_inv_def sql_txs_def)
qed

lemma collect_answers: "list_all (\<lambda>r. \<exists>x. f r = Inr x) rows \<Longrightarrow> \<exists>ys. collect_results f rows = Inr ys"
  by (induction rows) auto

lemma select_answers:
  assumes "healthy s" "list_all (\<lambda>r. \<exists>x. k r = Inr x) (g s)" "\<And>n. g (s\<lparr>env_calls := n\<rparr>) = g s"
  shows "answers (and_then (map_err_act f (query g)) (\<lambda>rows. lift_res (collect_results k rows))) s"
  using collect_answers [OF assms(2)] assms(3)
  by (auto simp: answers_def and_then_Inr [OF healthy_query] assms(1) outside_db_def same_oracles_def)

lemma find_answers:
  assumes "healthy s" "list_all (\<lambda>r. \<exists>x. k r = Inr x) (rows s)" "\<And>n. rows (s\<lparr>env_calls := n\<rparr>) = rows s"
  shows "answers (and_then (map_err_act f (query (\<lambda>s. find P (rows s)))) (\<lambda>row. lift_res (transpose_opt k row))) s"
proof -
  have "\<exists>x. transpose_opt k (find P (rows s)) = Inr x"
  proof (cases "find P (rows s)")
    case (Some r)
    then have "r \<in> set (rows s)" by (metis find_Some_iff nth_mem)
    then obtain x where "k r = Inr x" using assms(2) by (auto simp: list_all_iff)
    then show ?thesis using Some by simp
  qed simp
  then show ?thesis using assms(3)
    by (auto simp: answers_def and_then_Inr [OF healthy_query] assms(1) outside_db_def same_oracles_def)
qed

lemma alert_reads_answer:
  assumes "sqlite_inv X s" "healthy s"
  shows "answers (sqlite_get X i) s" "answers (sqlite_decision_history X i) s" "answers (sqlite_list_for_alert X i) s"
proof -
  have rows: "list_all (alert_row_ok X) (db_alerts s)" "list_all (decision_row_ok X) (db_decisions s)"
    "list_all (audit_row_ok X) (db_audit s)"
    using assms(1) by (simp_all add: sqlite_inv_def sql_alert_inv_def sql_audit_inv_def)
  show "answers (sqlite_get X i) s" unfolding sqlite_get_def
    using rows(1) by (intro find_answers assms(2)) (auto simp: list_all_iff alert_row_ok_def)
  show "answers (sqlite_decision_history X i) s" unfolding sqlite_decision_history_def
    using rows(2) by (intro select_answers assms(2)) (auto simp: list_all_iff decision_row_ok_def)
  show "answers (sqlite_list_for_alert X i) s" unfolding sqlite_list_for_alert_def select_records_def
    using rows(3) by (intro select_answers assms(2)) (force simp: list_all_iff audit_row_ok_def read_record_def)+
qed

lemma tx_read_answers: "sql_tx_inv X s \<Longrightarrow> healthy s \<Longrightarrow> answers (tx_get X i) s"
  unfolding tx_get_def
  by (intro find_answers) (auto simp: list_all_iff tx_row_ok_def sql_tx_inv_def)

section \<open>The page of an alert\<close>

lemma domain_call_Inr: "m s = (Inr x, t) \<Longrightarrow> domain_call m s = (Inr x, t)"
  by (simp add: domain_call_def map_err_act_Inr)

text \<open>What a view shows is what the tables hold.\<close>

definition shows_stored :: "crates \<Rightarrow> 'a db_scheme \<Rightarrow> uuid \<Rightarrow> alert_view \<Rightarrow> bool" where
  "shows_stored X s i v \<longleftrightarrow>
     sql_amap X s i = Some (av_alert v)
     \<and> mset (av_decisions v) = mset (decisions_for i (sql_decs X s))
     \<and> map entry_of (av_trail v) = filter (\<lambda>e. ae_alert_id e = Some i) (sql_log X s)
     \<and> av_tx v = find (\<lambda>t. tx_id t = al_tx_id (av_alert v)) (sql_txs X s)"

lemma alert_view_answers:
  assumes "app_alerts st = sqlite_service X" "sqlite_inv X s" "sql_tx_inv X s" "healthy s" "sql_amap X s i = Some a"
  shows "\<exists>v t. alert_view_of X st i s = (Inr v, t) \<and> shows_stored X s i v"
proof -
  obtain found s1 where g: "sqlite_get X i s = (Inr found, s1)" "outside_db s s1"
    using alert_reads_answer(1) [OF assms(2,4), of i] by (auto simp: answers_def)
  have found: "found = Some a" using sqlite_review.get_ok [of X s i found s1] g(1) assms(2,5) by simp
  note k1 = outside_invs [OF g(2), of X] outside_healthy [OF g(2) assms(4)]
  obtain ds s2 where h: "sqlite_decision_history X i s1 = (Inr ds, s2)" "outside_db s1 s2"
    using alert_reads_answer(2) [of X s1 i] k1 assms(2) by (auto simp: answers_def)
  have ds: "mset ds = mset (filter (\<lambda>d. dr_alert_id d = i) (sql_decs X s))"
    using sqlite_review.history_ok [of X s1 i ds s2] h(1) k1 assms(2) by simp
  note k2 = outside_invs [OF h(2), of X] outside_healthy [OF h(2)]
  obtain rs s3 where l: "sqlite_list_for_alert X i s2 = (Inr rs, s3)" "outside_db s2 s3"
    using alert_reads_answer(3) [of X s2 i] k1 k2 assms(2) by (auto simp: answers_def)
  have rs: "map entry_of rs = filter (\<lambda>e. ae_alert_id e = Some i) (sql_log X s)"
    using sqlite_review.list_for_alert_ok [of X s2 i rs s3] l(1) k1 k2 assms(2) by simp
  note k3 = outside_invs [OF l(2), of X] outside_healthy [OF l(2)]
  obtain tx s4 where t: "tx_get X (al_tx_id a) s3 = (Inr tx, s4)" "outside_db s3 s4"
    using tx_read_answers [of X s3 "al_tx_id a"] k1 k2 k3 assms(3) by (auto simp: answers_def)
  have tx: "tx = find (\<lambda>t. tx_id t = al_tx_id a) (sql_txs X s)"
    using tx_get_result(2) [OF _ t(1) HOL.refl] k1 k2 k3 assms(3) by simp
  let ?v = "\<lparr>av_alert = a, av_decisions = ds, av_trail = rs, av_tx = tx\<rparr>"
  have "audit_history (sqlite_service X) i s2 = (Inr rs, s3)"
    using l(1) by (simp add: audit_history_def sqlite_service_def map_err_act_Inr)
  then have "alert_view_of X st i s = (Inr ?v, s4)"
    using g(1) found h(1) t(1)
    by (simp add: alert_view_of_def assms(1) get_alert_def decision_history_def sqlite_service_def and_then_def domain_call_Inr
        found_or_def checked_def)
  then show ?thesis using assms(5) ds rs tx by (auto simp: shows_stored_def decisions_for_def)
qed

text \<open>
  C25:
  On a working database, the page of an existing alert is served to every signed-in user: the handler
  answers with a page, never with an error or a panic, and the page is the one of a view that shows
  exactly what is stored: the alert, all decisions recorded for it, the log entries for it in order,
  and its transaction if it is stored.
\<close>

theorem alert_page_served:
  assumes "wired X st" and "uuid_texts X" and "sqlite_inv X s" and "sql_tx_inv X s" and "healthy s"
    and "requester A st p s = Inr who" and "sql_amap X s i = Some a"
  shows "\<exists>v page. fst (serve X A st p (DashboardAlert i) s) = Inr (Page page)
    \<and> detail_page X who i v = Some page \<and> shows_stored X s i v"
proof -
  have w: "app_alerts st = sqlite_service X" using assms(1) by (simp add: wired_def)
  obtain u where u: "auth_user A (app_jwt_secret st) p s = (Inr who, u)"
    using assms(6) by (metis prod.collapse requester_def)
  have o: "outside_db s u" by (rule preservesD [OF reads_auth(1) u])
  obtain v t where v: "alert_view_of X st i u = (Inr v, t)" "shows_stored X u i v"
    using alert_view_answers [OF w, of u i a] outside_invs [OF o, of X] outside_healthy [OF o assms(5)] assms by auto
  have stored: "shows_stored X s i v" using v(2) outside_invs [OF o, of X] by (simp add: shows_stored_def)
  obtain page where page: "detail_page X who i v = Some page"
    using short_uuid [OF assms(2), of "al_id (av_alert v)"] by (auto simp: detail_page_def)
  have "alert_detail X A st p i s = (Inr page, t)"
    using u v(1) page
    by (simp add: alert_detail_def signed_in_def optional_auth_user_def and_then_def page_or_panic_def)
  then have "fst (serve X A st p (DashboardAlert i) s) = Inr (Page page)"
    by (simp add: answer_def and_then_def)
  with page stored show ?thesis by blast
qed

text \<open>A state with one alert, under the hexadecimal identifiers, and the application state over it.\<close>

definition page_row :: alert_row where
  "page_row = projr (alert_row_of hex_crates sample_alert)"

definition page_db :: db where
  "page_db = healthy_db\<lparr>db_alerts := [page_row]\<rparr>"

definition page_app :: "db app_state" where
  "page_app = sample_app\<lparr>app_alerts := sqlite_service hex_crates, app_audit := sqlite_audit_ops hex_crates\<rparr>"

lemma page_row: "alert_row_of hex_crates sample_alert = Inr page_row"
  by (simp add: page_row_def alert_row_of_def hex_crates_def sample_crates_def strings_codec_def rows_codec_def const_codec_def)

lemma page_db_ok:
  "sqlite_inv hex_crates page_db" "sql_tx_inv hex_crates page_db" "healthy page_db"
  "sql_amap hex_crates page_db 77 = Some (stored_alert hex_crates sample_alert)"
proof -
  note row = written_alert_row [OF hex_codecs_ok page_row]
  show "sqlite_inv hex_crates page_db"
    using row(1) hex_codecs_ok sqlite_inv_empty [OF hex_codecs_ok, of healthy_db]
    by (simp add: sqlite_inv_def sql_audit_inv_def sql_alert_inv_def sql_log_def page_db_def healthy_db_def sample_db_def empty_db_def)
  show "sql_tx_inv hex_crates page_db" "healthy page_db"
    using hex_codecs_ok healthy_db(1) by (simp_all add: sql_tx_inv_def page_db_def healthy_db_def sample_db_def healthy_def)
  show "sql_amap hex_crates page_db 77 = Some (stored_alert hex_crates sample_alert)"
    using row(2,3) by (simp add: sql_amap_def page_db_def sample_alert_def opened_alert_def)
qed

lemma page_requester: "requester sample_auth page_app sample_cookie page_db = Inr sample_who"
proof -
  have p: "presents sample_cookie ''head.body.sig''"
    by (simp add: presents_def sample_cookie_def auth_cookie_name_def)
  have "token_from_parts sample_auth sample_cookie = Some ''head.body.sig''"
    by (rule presents_token [OF sample_tokens_ok _ p]) (simp add: token_char_def)
  then show ?thesis
    by (simp add: requester_def page_app_def sample_app_def auth_user_def decode_token_def and_then_def utc_now_def
        sample_auth_def sample_claims_def page_db_def healthy_db_def sample_db_def role_from_str_def sample_who_def)
qed

lemma page_wired: "wired hex_crates page_app"
  by (simp add: wired_def page_app_def sample_app_def null_outside.outside_call_axioms noop_outside.outside_call_axioms)

theorem alert_page_served_witness:
  "\<exists>v page. fst (serve hex_crates sample_auth page_app sample_cookie (DashboardAlert 77) page_db) = Inr (Page page)
     \<and> detail_page hex_crates sample_who 77 v = Some page \<and> av_alert v = stored_alert hex_crates sample_alert
     \<and> av_decisions v = [] \<and> av_trail v = [] \<and> av_tx v = None"
proof -
  have "sql_decs hex_crates page_db = []" "sql_log hex_crates page_db = []" "sql_txs hex_crates page_db = []"
    by (simp_all add: sql_decs_def sql_log_def sql_txs_def page_db_def healthy_db_def sample_db_def)
  then show ?thesis
    using alert_page_served [OF page_wired hex_uuid_texts page_db_ok(1-3) page_requester page_db_ok(4)]
    by (auto simp: shows_stored_def page_db_ok(4) decisions_for_def)
qed

end
