(* ===== verification/OverlapProps.thy ===== *)
theory OverlapProps
  imports ConcurrentProps DetectProps PageProps
begin

text \<open>
  Two decisions on one alert that overlap. Each reads the alert before it writes, and nothing ties
  the two together: the log then says of the second decision that it replaced a status which the
  alert no longer had.
\<close>

section \<open>A decision on a working database\<close>

lemma record_healthy:
  assumes "healthy s" "sql_amap X s (dr_alert_id d) \<noteq> None" "cr_uuid_text X (dr_id d) \<notin> der_id ` set (db_decisions s)"
  shows "\<exists>t. sqlite_record_decision X d st s = (Inr (), t) \<and> healthy t \<and> env_uuid_src t = env_uuid_src s
    \<and> env_uuids t = env_uuids s \<and> db_audit t = db_audit s
    \<and> der_id ` set (db_decisions t) = insert (cr_uuid_text X (dr_id d)) (der_id ` set (db_decisions s))"
proof -
  have "cr_uuid_text X (dr_alert_id d) \<in> alr_id ` set (db_alerts s)"
    using assms(2) by (auto simp: sql_amap_def find_Some_iff) (metis image_eqI nth_mem)
  with assms(1,3) show ?thesis
    by (simp add: sqlite_record_decision_def sql_transaction_def insert_decision_row_def update_alert_status_def
        decision_row_of_def execute_def sql_call_def and_then_def map_err_act_def healthy_def)
qed

text \<open>What is left of a decision once the alert was read.\<close>

definition decision_rest ::
  "'a env_scheme alert_service \<Rightarrow> uuid \<Rightarrow> string \<Rightarrow> decision \<Rightarrow> string \<Rightarrow> alert \<Rightarrow> ('a env_scheme, domain_error + decision_record) task" where
  "decision_rest svc i who d why a =
     then_task (call new_uuid) (\<lambda>rid.
     then_task (call utc_now) (\<lambda>now.
       let record = \<lparr>dr_id = rid, dr_alert_id = i, dr_investigator_id = who, dr_decision = d,
                     dr_rationale = why, dr_created_at = now\<rparr>
       in then_task (call (ao_record_decision (svc_store svc) record (status_of_decision d))) (\<lambda>_.
          then_task (log_event_task svc (alert_event (InvestigatorDecision who d why (al_status a)) i (al_tx_id a))) (\<lambda>_.
          Done (Inr record)))))"

lemma decision_read:
  assumes "ao_get (svc_store svc) i s = (Inr (Some a), t)"
  shows "\<exists>f. submit_decision_task X svc i who d why = Await f \<and> f s = (decision_rest svc i who d why a, t)"
  using assms by (simp add: submit_decision_task_def decision_rest_def then_task_def call_def)

text \<open>The identifiers that the next decision draws, for itself and for its log entry, are not in use.\<close>

definition fresh_decision :: "crates \<Rightarrow> 'a db_scheme \<Rightarrow> bool" where
  "fresh_decision X s \<longleftrightarrow>
     cr_uuid_text X (env_uuid_src s (env_uuids s)) \<notin> der_id ` set (db_decisions s)
     \<and> cr_uuid_text X (env_uuid_src s (Suc (env_uuids s))) \<notin> aur_id ` set (db_audit s)"

lemma decision_rest_healthy:
  assumes "sqlite_inv X s" "healthy s" "json_writes X" "sql_amap X s i \<noteq> None" "fresh_decision X s"
  shows "\<exists>rec e t. run_task (decision_rest (sqlite_service X) i who d why a) s = (Inr rec, t) \<and> decides rec i who d why
    \<and> sqlite_inv X t \<and> healthy t \<and> env_uuid_src t = env_uuid_src s \<and> env_uuids t = Suc (Suc (env_uuids s))
    \<and> sql_decs X t = sql_decs X s @ [rec]
    \<and> sql_amap X t = update_alert i (\<lambda>a. a\<lparr>al_status := status_of_decision d\<rparr>) (sql_amap X s)
    \<and> sql_log X t = sql_log X s @ [e]
    \<and> to_text (cr_event X) (InvestigatorDecision who d why (al_status a)) = Inr (ae_event_json e)
    \<and> der_id ` set (db_decisions t) = insert (cr_uuid_text X (env_uuid_src s (env_uuids s))) (der_id ` set (db_decisions s))
    \<and> aur_id ` set (db_audit t) = insert (cr_uuid_text X (env_uuid_src s (Suc (env_uuids s)))) (aur_id ` set (db_audit s))"
proof -
  let ?s = "s\<lparr>env_uuids := Suc (env_uuids s), env_ticks := Suc (env_ticks s)\<rparr>"
  let ?rec = "\<lparr>dr_id = env_uuid_src s (env_uuids s), dr_alert_id = i, dr_investigator_id = who, dr_decision = d,
               dr_rationale = why, dr_created_at = env_clock s (env_ticks s)\<rparr>"
  let ?ev = "alert_event (InvestigatorDecision who d why (al_status a)) i (al_tx_id a)"
  have inv: "sqlite_inv X ?s" "sql_decs X ?s = sql_decs X s" "sql_amap X ?s = sql_amap X s" "sql_log X ?s = sql_log X s"
    using assms(1) by simp_all
  have c: "codecs_ok X" using assms(1) by (simp add: sqlite_inv_def sql_audit_inv_def)
  obtain t where t: "sqlite_record_decision X ?rec (status_of_decision d) ?s = (Inr (), t)" "healthy t"
    "env_uuid_src t = env_uuid_src s" "env_uuids t = Suc (env_uuids s)" "db_audit t = db_audit s"
    "der_id ` set (db_decisions t) = insert (cr_uuid_text X (env_uuid_src s (env_uuids s))) (der_id ` set (db_decisions s))"
    using record_healthy [of ?s X ?rec "status_of_decision d"] assms(2,4,5) inv(3) by (auto simp: fresh_decision_def healthy_def)
  note rc = record_committed [OF inv(1) t(1)]
  have "cr_uuid_text X (env_uuid_src t (env_uuids t)) \<notin> aur_id ` set (db_audit t)"
    using assms(5) t(3-5) by (simp add: fresh_decision_def)
  from append_healthy [OF c assms(3) t(2) this, of ?ev] obtain q u where
    u: "sqlite_append X ?ev t = (Inr q, u)" "healthy u" "env_uuid_src u = env_uuid_src s" "env_uuids u = Suc (Suc (env_uuids s))"
      "db_decisions u = db_decisions t"
      "aur_id ` set (db_audit u) = insert (cr_uuid_text X (env_uuid_src s (Suc (env_uuids s)))) (aur_id ` set (db_audit s))"
    using t(3-5) by auto
  have log: "sqlite_inv X u" "sql_log X u = sql_log X t @ [entry_of q]" "records_event X ?ev q"
    "sql_amap X u = sql_amap X t" "sql_decs X u = sql_decs X t"
    using sqlite_review.append_ok [of X t ?ev q u] sqlite_review.append_frame [of X t ?ev "Inr q" u] rc(1) u(1) by simp_all
  have run: "run_task (decision_rest (sqlite_service X) i who d why a) s = (Inr ?rec, u)"
    using t(1) u(1)
    by (simp add: decision_rest_def and_then_def new_uuid_def utc_now_def Let_def sqlite_service_def log_event_task_def
        map_err_act_def)
  have "to_text (cr_event X) (InvestigatorDecision who d why (al_status a)) = Inr (ae_event_json (entry_of q))"
    using log(3) by (simp add: records_event_def alert_event_def for_tx_def for_alert_def new_event_def)
  moreover have "sql_log X u = sql_log X s @ [entry_of q]" using log(2) rc(3) inv(4) by simp
  moreover have "sql_decs X u = sql_decs X s @ [?rec]" using log(5) rc(2) inv(2) by simp
  moreover have "sql_amap X u = update_alert i (\<lambda>a. a\<lparr>al_status := status_of_decision d\<rparr>) (sql_amap X s)"
    using log(4) rc(4) inv(3) by simp
  moreover have "decides ?rec i who d why" by (simp add: decides_def)
  moreover have "der_id ` set (db_decisions u) = insert (cr_uuid_text X (env_uuid_src s (env_uuids s))) (der_id ` set (db_decisions s))"
    using t(6) u(5) by simp
  ultimately show ?thesis using run log(1) u(2,3,4,6) by blast
qed

lemma sqlite_calls_frame:
  "sqlite_inv X (s\<lparr>env_calls := n\<rparr>) = sqlite_inv X s" "sql_amap X (s\<lparr>env_calls := n\<rparr>) = sql_amap X s"
  "sql_decs X (s\<lparr>env_calls := n\<rparr>) = sql_decs X s" "sql_log X (s\<lparr>env_calls := n\<rparr>) = sql_log X s"
  using review_kept_same [of s "s\<lparr>env_calls := n\<rparr>" X] by (simp_all add: review_kept_def)

lemma get_healthy:
  assumes "sqlite_inv X s" "healthy s" "sql_amap X s i = Some a"
  shows "sqlite_get X i s = (Inr (Some a), s\<lparr>env_calls := Suc (env_calls s)\<rparr>)"
proof -
  obtain r where r: "find (\<lambda>r. alr_id r = cr_uuid_text X i) (db_alerts s) = Some r" "a = read_alert X r"
    using assms(3) by (auto simp: sql_amap_def)
  have "list_all (alert_row_ok X) (db_alerts s)" using assms(1) by (simp add: sqlite_inv_def sql_alert_inv_def)
  moreover have "r \<in> set (db_alerts s)" using r(1) by (metis find_Some_iff nth_mem)
  ultimately have "row_to_alert X r = Inr a" using row_to_alert_ok r(2) by (auto simp: list_all_iff)
  then show ?thesis using r(1) by (simp add: sqlite_get_def and_then_Inr [OF healthy_query] assms(2))
qed

section \<open>The overlap\<close>

text \<open>Four identifiers for two decisions.\<close>

definition fresh_decisions :: "crates \<Rightarrow> 'a db_scheme \<Rightarrow> bool" where
  "fresh_decisions X s \<longleftrightarrow>
     fresh_decision X s \<and> fresh_decision X (s\<lparr>env_uuids := Suc (Suc (env_uuids s))\<rparr>)
     \<and> inj_on (\<lambda>n. cr_uuid_text X (env_uuid_src s n)) {env_uuids s..<env_uuids s + 4}"

text \<open>
  C13:
  On a working database two decisions for one alert can overlap so that the log is wrong: both
  requests read the alert, then the first is carried out, then the second. Both succeed, and the
  status is the one of the second decision, but the log says that the second one, too, found the
  alert in the status it had before the first.
\<close>

theorem overlapping_decisions_log_stale_status:
  assumes "sqlite_inv X s" and "healthy s" and "json_writes X" and "sql_amap X s i = Some a" and "fresh_decisions X s"
  shows "\<exists>rec1 rec2 e1 e2 t.
    (moves (\<lambda>_. False))\<^sup>*\<^sup>*
      ([submit_decision_task X (sqlite_service X) i who1 d1 why1, submit_decision_task X (sqlite_service X) i who2 d2 why2], s)
      ([Done (Inr rec1), Done (Inr rec2)], t)
    \<and> sql_decs X t = sql_decs X s @ [rec1, rec2]
    \<and> map_option al_status (sql_amap X t i) = Some (status_of_decision d2)
    \<and> sql_log X t = sql_log X s @ [e1, e2]
    \<and> to_text (cr_event X) (InvestigatorDecision who1 d1 why1 (al_status a)) = Inr (ae_event_json e1)
    \<and> to_text (cr_event X) (InvestigatorDecision who2 d2 why2 (al_status a)) = Inr (ae_event_json e2)"
proof -
  let ?svc = "sqlite_service X :: 'a db_scheme alert_service"
  let ?s1 = "s\<lparr>env_calls := Suc (env_calls s)\<rparr>" and ?s2 = "s\<lparr>env_calls := Suc (Suc (env_calls s))\<rparr>"
  let ?r1 = "decision_rest ?svc i who1 d1 why1 a" and ?r2 = "decision_rest ?svc i who2 d2 why2 a"
  note calls = sqlite_calls_frame
  have "ao_get (svc_store ?svc) i s = (Inr (Some a), ?s1)" "ao_get (svc_store ?svc) i ?s1 = (Inr (Some a), ?s2)"
    using get_healthy [OF assms(1,2,4)] get_healthy [of X ?s1 i a] assms(1,2,4)
    by (simp_all add: sqlite_service_def calls)
  then obtain f1 f2 where f: "submit_decision_task X ?svc i who1 d1 why1 = Await f1" "f1 s = (?r1, ?s1)"
    "submit_decision_task X ?svc i who2 d2 why2 = Await f2" "f2 ?s1 = (?r2, ?s2)"
    using decision_read by metis
  have "fresh_decision X ?s2" "sqlite_inv X ?s2" "sql_amap X ?s2 i \<noteq> None" "healthy ?s2"
    using assms by (simp_all add: fresh_decisions_def fresh_decision_def calls)
  from decision_rest_healthy [OF this(2,4) assms(3) this(3,1), of who1 d1 why1 a] obtain rec1 e1 t where
    one: "run_task ?r1 ?s2 = (Inr rec1, t)" "sqlite_inv X t" "healthy t" "env_uuid_src t = env_uuid_src s"
      "env_uuids t = Suc (Suc (env_uuids s))" "sql_decs X t = sql_decs X s @ [rec1]"
      "sql_amap X t = update_alert i (\<lambda>a. a\<lparr>al_status := status_of_decision d1\<rparr>) (sql_amap X s)"
      "sql_log X t = sql_log X s @ [e1]"
      "to_text (cr_event X) (InvestigatorDecision who1 d1 why1 (al_status a)) = Inr (ae_event_json e1)"
      "der_id ` set (db_decisions t) = insert (cr_uuid_text X (env_uuid_src s (env_uuids s))) (der_id ` set (db_decisions s))"
      "aur_id ` set (db_audit t) = insert (cr_uuid_text X (env_uuid_src s (Suc (env_uuids s)))) (aur_id ` set (db_audit s))"
    by (auto simp: calls)
  have "cr_uuid_text X (env_uuid_src s m) \<noteq> cr_uuid_text X (env_uuid_src s n)"
    if "env_uuids s \<le> m" "env_uuids s \<le> n" "m < env_uuids s + 4" "n < env_uuids s + 4" "m \<noteq> n" for m n
    using assms(5) that by (auto simp: fresh_decisions_def dest: inj_onD)
  then have "fresh_decision X t"
    using assms(5) one(4,5,10,11) by (simp add: fresh_decisions_def fresh_decision_def)
  moreover have "sql_amap X t i \<noteq> None" using one(7) assms(4) by (simp add: update_alert_def)
  ultimately obtain rec2 e2 u where
    two: "run_task ?r2 t = (Inr rec2, u)" "sql_decs X u = sql_decs X t @ [rec2]"
      "sql_amap X u = update_alert i (\<lambda>a. a\<lparr>al_status := status_of_decision d2\<rparr>) (sql_amap X t)"
      "sql_log X u = sql_log X t @ [e2]"
      "to_text (cr_event X) (InvestigatorDecision who2 d2 why2 (al_status a)) = Inr (ae_event_json e2)"
    using decision_rest_healthy [OF one(2,3) assms(3), of i who2 d2 why2 a] by blast
  have "(moves (\<lambda>_. False))\<^sup>*\<^sup>* ([Await f1, Await f2], s) ([?r1, Await f2], ?s1)"
    by (rule r_into_rtranclp) (use poll [of 0 "[Await f1, Await f2]" f1 s ?r1 ?s1] f in simp)
  also have "(moves (\<lambda>_. False))\<^sup>*\<^sup>* ([?r1, Await f2], ?s1) ([?r1, ?r2], ?s2)"
    by (rule r_into_rtranclp) (use poll [of 1 "[?r1, Await f2]" f2 ?s1 ?r2 ?s2] f in simp)
  also have "(moves (\<lambda>_. False))\<^sup>*\<^sup>* ([?r1, ?r2], ?s2) ([Done (Inr rec1), ?r2], t)"
    using run_polls [OF one(1), of _ "[]"] by simp
  also have "(moves (\<lambda>_. False))\<^sup>*\<^sup>* ([Done (Inr rec1), ?r2], t) ([Done (Inr rec1), Done (Inr rec2)], u)"
    using run_polls [OF two(1), of _ "[Done (Inr rec1)]" "[]"] by simp
  finally have "(moves (\<lambda>_. False))\<^sup>*\<^sup>* ([Await f1, Await f2], s) ([Done (Inr rec1), Done (Inr rec2)], u)" .
  moreover have "map_option al_status (sql_amap X u i) = Some (status_of_decision d2)"
    using assms(4) one(7) two(3) by (simp add: update_alert_def)
  ultimately show ?thesis using f(1,3) one two by (intro exI [of _ rec1] exI [of _ rec2] exI [of _ e1] exI [of _ e2] exI [of _ u]) simp
qed

text \<open>Ann escalates and Bob dismisses the sample alert.\<close>

theorem overlapping_decisions_log_stale_status_witness:
  "\<exists>rec1 rec2 t.
    (moves (\<lambda>_. False))\<^sup>*\<^sup>*
      ([submit_decision_task hex_crates (sqlite_service hex_crates) 77 ''ann'' decision.Escalated ''layering'',
        submit_decision_task hex_crates (sqlite_service hex_crates) 77 ''bob'' decision.Dismissed ''known''], page_db)
      ([Done (Inr rec1), Done (Inr rec2)], t)
    \<and> map_option al_status (sql_amap hex_crates t 77) = Some alert_status.Dismissed \<and> length (sql_log hex_crates t) = 2"
proof -
  have "inj_on (\<lambda>n. cr_uuid_text hex_crates (env_uuid_src page_db n)) {0..<4}"
  proof (rule inj_onI)
    fix m n :: nat assume mn: "m \<in> {0..<4}" "n \<in> {0..<4}"
      and "cr_uuid_text hex_crates (env_uuid_src page_db m) = cr_uuid_text hex_crates (env_uuid_src page_db n)"
    then have "(of_nat m :: uuid) = of_nat n"
      by (simp add: uuid_text_inject [OF hex_codecs_ok] page_db_def healthy_db_def sample_db_def)
    then have "unat (of_nat m :: uuid) = unat (of_nat n :: uuid)" by simp
    then show "m = n" using mn by (simp add: unsigned_of_nat take_bit_nat_eq_self)
  qed
  then have "fresh_decisions hex_crates page_db"
    by (simp add: fresh_decisions_def fresh_decision_def page_db_def healthy_db_def sample_db_def)
  moreover have "json_writes hex_crates" by (simp add: json_writes_def hex_crates_def sample_crates_def)
  ultimately obtain rec1 rec2 e1 e2 t where "(moves (\<lambda>_. False))\<^sup>*\<^sup>*
      ([submit_decision_task hex_crates (sqlite_service hex_crates) 77 ''ann'' decision.Escalated ''layering'',
        submit_decision_task hex_crates (sqlite_service hex_crates) 77 ''bob'' decision.Dismissed ''known''], page_db)
      ([Done (Inr rec1), Done (Inr rec2)], t)" and r: "map_option al_status (sql_amap hex_crates t 77) = Some (status_of_decision decision.Dismissed)"
    "sql_log hex_crates t = sql_log hex_crates page_db @ [e1, e2]"
    using overlapping_decisions_log_stale_status [OF page_db_ok(1,3) _ page_db_ok(4),
        where ?who1.0 = "''ann''" and ?d1.0 = decision.Escalated and ?why1.0 = "''layering''"
          and ?who2.0 = "''bob''" and ?d2.0 = decision.Dismissed and ?why2.0 = "''known''"] by blast
  moreover have "sql_log hex_crates page_db = []" by (simp add: sql_log_def page_db_def healthy_db_def sample_db_def)
  moreover have "map_option al_status (sql_amap hex_crates t 77) = Some alert_status.Dismissed"
    using r(1) by (simp add: status_of_decision_def)
  ultimately show ?thesis using r(2) by (intro exI [of _ rec1] exI [of _ rec2] exI [of _ t]) simp
qed

end
