(* ===== verification/Working.thy ===== *)
theory Working
  imports OverlapProps
begin

text \<open>
  A working database: no statement fails, every stored row can be read, and no identifier is drawn
  twice. The predicate \<open>completes\<close> says of an action that it keeps this and fails at most in given
  ways; it composes along the control flow of the handlers, so that a request ends in an answer or in
  a refusal, never in an internal error or a panic.
\<close>

named_theorems complete_rules \<open>actions that complete on a working database\<close>

section \<open>Working states\<close>

text \<open>The identifiers in the tables of the review, and those drawn so far.\<close>

definition review_ids :: "'a db_scheme \<Rightarrow> string set" where
  "review_ids s = alr_id ` set (db_alerts s) \<union> der_id ` set (db_decisions s) \<union> aur_id ` set (db_audit s)"

definition drawn_ids :: "crates \<Rightarrow> 'a db_scheme \<Rightarrow> string set" where
  "drawn_ids X s = (\<lambda>n. cr_uuid_text X (env_uuid_src s n)) ` {..<env_uuids s}"

definition working :: "crates \<Rightarrow> 'a db_scheme \<Rightarrow> bool" where
  "working X s \<longleftrightarrow> sqlite_inv X s \<and> sql_tx_inv X s \<and> healthy s \<and> json_writes X
     \<and> list_all (\<lambda>r. \<exists>w. row_to_investigator r = Inr w) (db_investigators s)
     \<and> review_ids s \<subseteq> drawn_ids X s"

text \<open>The identifiers drawn so far, and the next one, are different from each other.\<close>

definition no_repeats :: "'a db_scheme \<Rightarrow> bool" where
  "no_repeats s \<longleftrightarrow> inj_on (env_uuid_src s) {..env_uuids s}"

lemma no_repeats_mono: "same_oracles s t \<Longrightarrow> no_repeats t \<Longrightarrow> no_repeats s"
  unfolding no_repeats_def same_oracles_def by (metis atMost_subset_iff inj_on_subset)

lemma drawn_ids_mono: "same_oracles s t \<Longrightarrow> drawn_ids X s \<subseteq> drawn_ids X t"
  by (auto simp: drawn_ids_def same_oracles_def)

lemma workingD:
  assumes "working X s"
  shows "sqlite_inv X s" "sql_tx_inv X s" "healthy s" "json_writes X" "codecs_ok X"
    "list_all (\<lambda>r. \<exists>w. row_to_investigator r = Inr w) (db_investigators s)"
  using assms by (simp_all add: working_def sql_tx_inv_def)

lemma next_id_fresh:
  assumes "working X s" "no_repeats s"
  shows "cr_uuid_text X (env_uuid_src s (env_uuids s)) \<notin> review_ids s"
proof
  assume "cr_uuid_text X (env_uuid_src s (env_uuids s)) \<in> review_ids s"
  then obtain n where "n < env_uuids s" "env_uuid_src s (env_uuids s) = env_uuid_src s n"
    using assms(1) uuid_text_inject [OF workingD(5) [OF assms(1)]] by (auto simp: working_def drawn_ids_def)
  with assms(2) show False unfolding no_repeats_def by (auto dest: inj_onD)
qed

text \<open>Drawing an identifier, reading a clock and calls out of the process leave a database working.\<close>

lemma working_outside: "working X s \<Longrightarrow> outside_db s t \<Longrightarrow> working X t"
  using drawn_ids_mono [of s t X] outside_invs [of s t X] outside_healthy [of s t]
  by (auto simp: working_def outside_db_def review_ids_def)

text \<open>What an action does to a working state.\<close>

definition works_on :: "crates \<Rightarrow> 'a db_scheme \<Rightarrow> 'a db_scheme \<Rightarrow> bool" where
  "works_on X s t \<longleftrightarrow> same_oracles s t \<and> (working X s \<and> no_repeats t \<longrightarrow> working X t)"

lemma works_on_trans: "works_on X s t \<Longrightarrow> works_on X t u \<Longrightarrow> works_on X s u"
  unfolding works_on_def using oracles.trans no_repeats_mono by blast

lemma works_outside: "outside_db s t \<Longrightarrow> works_on X s t"
  using working_outside by (auto simp: works_on_def outside_db_def)

definition completes :: "crates \<Rightarrow> ('e \<Rightarrow> bool) \<Rightarrow> ('a db_scheme, 'e, 'r) action \<Rightarrow> bool" where
  "completes X E act \<longleftrightarrow> (\<forall>s r t. act s = (r, t) \<longrightarrow> works_on X s t
     \<and> (working X s \<and> no_repeats t \<longrightarrow> (\<forall>e. r = Inl e \<longrightarrow> E e)))"

lemma completesD:
  assumes "completes X E act" "act s = (r, t)"
  shows "works_on X s t" "working X s \<Longrightarrow> no_repeats t \<Longrightarrow> r = Inl e \<Longrightarrow> E e"
  using assms by (auto simp: completes_def)

lemma completes_keeps: "completes X E act \<Longrightarrow> preserves (works_on X) act"
  by (simp add: completes_def preserves_def)

section \<open>Composition\<close>

lemma completes_pure [complete_rules]:
  "completes X E (ok x)" "E e \<Longrightarrow> completes X E (err e)" "completes X E (lift_res (Inr x))"
  by (simp_all add: completes_def works_on_def ok_def err_def lift_res_def same_oracles_def)

lemma completes_lift: "(\<And>e. r = Inl e \<Longrightarrow> E e) \<Longrightarrow> completes X E (lift_res r)"
  by (simp add: completes_def works_on_def lift_res_def same_oracles_def)

lemma completes_and_then [complete_rules]:
  assumes "completes X E m" "\<And>x. completes X E (k x)"
  shows "completes X E (and_then m k)"
  unfolding completes_def
proof (intro allI impI)
  fix s r t assume run: "and_then m k s = (r, t)"
  show "works_on X s t \<and> (working X s \<and> no_repeats t \<longrightarrow> (\<forall>e. r = Inl e \<longrightarrow> E e))"
    using run
  proof (cases rule: and_then_cases)
    case (early e)
    then show ?thesis using completesD [OF assms(1) early(1)] by blast
  next
    case (cont x u)
    note m = completesD [OF assms(1) cont(1)] and k = completesD [OF assms(2) cont(2)]
    have "no_repeats t \<Longrightarrow> no_repeats u" using k(1) no_repeats_mono by (auto simp: works_on_def)
    then have "working X s \<Longrightarrow> no_repeats t \<Longrightarrow> working X u" using m(1) by (simp add: works_on_def)
    then show ?thesis using works_on_trans [OF m(1) k(1)] k(2) by blast
  qed
qed

lemma completes_map_err [complete_rules]:
  "completes X (\<lambda>e. E (f e)) m \<Longrightarrow> completes X E (map_err_act f m)"
  unfolding completes_def by (auto elim!: map_err_act_cases)

lemma completes_weaken: "completes X E m \<Longrightarrow> (\<And>e. E e \<Longrightarrow> E' e) \<Longrightarrow> completes X E' m"
  by (simp add: completes_def)

lemma completes_if [complete_rules]: "completes X E m \<Longrightarrow> completes X E n \<Longrightarrow> completes X E (if b then m else n)"
  by simp

text \<open>An action that cannot fail.\<close>

abbreviation never :: "'e \<Rightarrow> bool" where "never \<equiv> \<lambda>_. False"

lemma completes_never: "completes X never m \<Longrightarrow> completes X E m"
  by (erule completes_weaken) simp

lemma completes_read:
  assumes "preserves outside_db m" "\<And>s r t. working X s \<Longrightarrow> m s = (r, t) \<Longrightarrow> \<exists>x. r = Inr x"
  shows "completes X E m"
  using assms works_outside by (fastforce simp: completes_def preserves_def)

lemma completes_outside: "preserves outside_db m \<Longrightarrow> (\<And>s. fst (m s) = Inr (f s)) \<Longrightarrow> completes X E m"
  by (rule completes_read) (assumption, metis fst_conv)

section \<open>Reading\<close>

lemma completes_env [complete_rules]: "completes X E utc_now" "completes X F new_uuid"
  by (rule completes_outside; simp add: reads_env utc_now_def new_uuid_def)+

lemma completes_answers:
  "preserves outside_db m \<Longrightarrow> (\<And>s. working X s \<Longrightarrow> answers m s) \<Longrightarrow> completes X E m"
  by (rule completes_read) (assumption, fastforce simp: answers_def)

lemma list_reads_answer:
  assumes "working X s"
  shows "answers (sqlite_list X f) s" "answers (sqlite_verify_chain X) s" "answers (tx_list_recent X n) s"
    "answers (find_by_username name) s"
proof -
  have rows: "list_all (alert_row_ok X) (db_alerts s)" "list_all (audit_row_ok X) (db_audit s)"
    "list_all (tx_row_ok X) (db_transactions s)"
    using assms by (simp_all add: working_def sqlite_inv_def sql_alert_inv_def sql_audit_inv_def sql_tx_inv_def)
  note h = workingD(3) [OF assms]
  show "answers (sqlite_list X f) s" unfolding sqlite_list_def
    using rows(1) by (intro select_answers h) (auto simp: list_all_iff alert_row_ok_def dest!: set_select_alerts(1))
  show "answers (tx_list_recent X n) s" unfolding tx_list_recent_def
    using rows(3) by (intro select_answers h) (force simp: list_all_iff tx_row_ok_def sql_limit_def dest!: in_set_takeD)+
  show "answers (find_by_username name) s" unfolding find_by_username_def
    using workingD(6) [OF assms] by (intro find_answers h) simp_all
  have "answers (select_records X (sort_key aur_sequence)) s" unfolding select_records_def
    using rows(2) by (intro select_answers h) (force simp: list_all_iff audit_row_ok_def read_record_def)+
  then show "answers (sqlite_verify_chain X) s"
    by (auto simp: answers_def sqlite_verify_chain_def and_then_def)
qed

lemma completes_reads [complete_rules]:
  "completes X E (sqlite_get X i)" "completes X E (sqlite_list X f)" "completes X E (sqlite_decision_history X i)"
  "completes X F (sqlite_list_for_alert X i)" "completes X F (sqlite_verify_chain X)"
  "completes X E (tx_get X x)" "completes X E (tx_list_recent X n)" "completes X E (find_by_username name)"
  by (rule completes_answers, rule preserve_rules, simp add: alert_reads_answer tx_read_answers list_reads_answer workingD)+

lemma completes_history [complete_rules]: "completes X E (build_account_history X acct as_of lb bw)"
proof (rule completes_read)
  show "\<exists>x. r = Inr x" if "working X s" "build_account_history X acct as_of lb bw s = (r, t)" for s r t
    using history_undrawn [OF workingD(2,3) [OF that(1)], of acct as_of lb bw] that(2) by auto
qed (rule preserve_rules)

lemma completes_flagged [complete_rules]: "completes X E flagged_all"
proof (rule completes_read)
  show "\<exists>x. r = Inr x" if "working X s" "flagged_all s = (r, t)" for s r t
    using workingD(3) [OF that(1)] that(2) by (auto simp: flagged_all_def healthy_query)
qed (rule preserve_rules)

section \<open>Writing\<close>

text \<open>
  A write that succeeds on a working database, and after which the tables are in order; what it adds
  to the tables of the review has the identifiers \<open>new\<close>, which are drawn by then.
\<close>

lemma works_onI:
  assumes "same_oracles s t"
    and "working X s \<Longrightarrow> no_repeats t \<Longrightarrow> sqlite_inv X t \<and> sql_tx_inv X t
      \<and> db_investigators t = db_investigators s \<and> review_ids t \<subseteq> review_ids s \<union> new \<and> new \<subseteq> drawn_ids X t"
  shows "works_on X s t"
  using assms drawn_ids_mono [OF assms(1), of X] by (auto simp: works_on_def working_def healthy_def same_oracles_def)

lemma save_completes [complete_rules]: "completes X E (tx_save X tx)"
  unfolding completes_def
proof (intro allI impI)
  fix s r t assume run: "tx_save X tx s = (r, t)"
  have o: "same_oracles s t" by (rule letters_oracles [OF preservesD [OF letters_repos(1) run]])
  have k: "review_kept s t" by (rule preservesD [OF kept_repos(1) run])
  have "works_on X s t"
    by (rule works_onI [OF o, where new = "{}"])
      (use k review_kept_same [OF k, of X] preservesD [OF rows_save run] in
        \<open>auto simp: working_def rows_kept_def review_ids_def review_kept_def\<close>)
  moreover have "\<exists>x. r = Inr x" if "working X s"
    using save_undrawn [OF workingD(5,3) [OF that], of tx] run by auto
  ultimately show "works_on X s t \<and> (working X s \<and> no_repeats t \<longrightarrow> (\<forall>e. r = Inl e \<longrightarrow> E e))" by fastforce
qed

lemma append_run:
  assumes "working X s" "no_repeats s"
  shows "\<exists>q t. sqlite_append X ev s = (Inr q, t) \<and> same_oracles s t \<and> working X t \<and> env_uuids t = Suc (env_uuids s)
    \<and> sql_amap X t = sql_amap X s \<and> sql_decs X t = sql_decs X s \<and> sql_log X t = sql_log X s @ [entry_of q]
    \<and> records_event X ev q"
proof -
  have f: "cr_uuid_text X (env_uuid_src s (env_uuids s)) \<notin> aur_id ` set (db_audit s)"
    using next_id_fresh [OF assms] by (simp add: review_ids_def)
  note w = workingD [OF assms(1)]
  from append_healthy [OF w(5,4,3) f, of ev] obtain q t where
    t: "sqlite_append X ev s = (Inr q, t)" "healthy t" "env_uuid_src t = env_uuid_src s" "env_uuids t = Suc (env_uuids s)"
      "aur_id ` set (db_audit t) = insert (cr_uuid_text X (env_uuid_src s (env_uuids s))) (aur_id ` set (db_audit s))"
    by blast
  have o: "same_oracles s t" by (rule letters_oracles [OF preservesD [OF letters_stores(3) t(1)]])
  have k: "others_kept s t" by (rule preservesD [OF others_stores(5) t(1)])
  have tables: "db_alerts t = db_alerts s" "db_decisions t = db_decisions s"
    using sqlite_append_frame [OF t(1)] by simp_all
  have log: "sqlite_inv X t" "sql_log X t = sql_log X s @ [entry_of q]" "records_event X ev q"
    "sql_amap X t = sql_amap X s" "sql_decs X t = sql_decs X s"
    using sqlite_review.append_ok [of X s ev q t] sqlite_review.append_frame [of X s ev "Inr q" t] w(1) t(1) by simp_all
  have "review_ids t \<subseteq> drawn_ids X t"
    using assms(1) drawn_ids_mono [OF o, of X] t(3,4,5) tables
    by (auto simp: working_def review_ids_def drawn_ids_def)
  then have "working X t"
    using w log(1) t(2) k by (simp add: working_def others_kept_def sql_tx_inv_def)
  with t(1,4) o log show ?thesis by blast
qed

lemma append_completes [complete_rules]: "completes X E (sqlite_append X ev)"
  unfolding completes_def
proof (intro allI impI)
  fix s r t assume run: "sqlite_append X ev s = (r, t)"
  have o: "same_oracles s t" by (rule letters_oracles [OF preservesD [OF letters_stores(3) run]])
  show "works_on X s t \<and> (working X s \<and> no_repeats t \<longrightarrow> (\<forall>e. r = Inl e \<longrightarrow> E e))"
    using append_run [of X s ev] no_repeats_mono [OF o] run o by (auto simp: works_on_def)
qed

lemma set_ai_completes [complete_rules]: "completes X E (sqlite_set_ai_status X i st)"
  unfolding completes_def
proof (intro allI impI)
  fix s r t assume run: "sqlite_set_ai_status X i st s = (r, t)"
  have o: "same_oracles s t" by (rule letters_oracles [OF preservesD [OF letters_stores(2) run]])
  have k: "others_kept s t" by (rule preservesD [OF others_stores(3) run])
  have "sqlite_inv X t" if "sqlite_inv X s"
    using sqlite_review.set_ai_ok [of X s i st _ t] sqlite_review.set_ai_failed [of X s i st _ t] that run by (cases r) auto
  moreover have "review_ids t \<subseteq> review_ids s"
    using run by (cases rule: sqlite_set_ai_effect) (auto simp: review_ids_def map_update_where simp flip: set_map dest: only_env_tables)
  ultimately have "works_on X s t"
    using k by (intro works_onI [OF o, where new = "{}"]) (auto simp: working_def others_kept_def sql_tx_inv_def)
  moreover have "\<exists>x. r = Inr x" if w: "working X s"
  proof -
    have "codec_readable (cr_ai_status X)" using workingD(5) [OF w] by (simp add: codecs_ok_def)
    then obtain j where "to_text (cr_ai_status X) st = Inr j" by (rule codec_readableE)
    then show ?thesis using run workingD(3) [OF w]
      by (auto simp: sqlite_set_ai_status_def update_ai_status_def map_err_act_def execute_def sql_call_def healthy_def and_then_def)
  qed
  ultimately show "works_on X s t \<and> (working X s \<and> no_repeats t \<longrightarrow> (\<forall>e. r = Inl e \<longrightarrow> E e))" by fastforce
qed

text \<open>Opening an alert: two identifiers are drawn, for the alert and for its log entry.\<close>

lemma create_run:
  assumes "working X s" "no_repeats (s\<lparr>env_uuids := Suc (env_uuids s)\<rparr>)"
  shows "\<exists>t. create_alert (sqlite_service X) na s = (Inr (drawn_alert s na), t) \<and> same_oracles s t \<and> working X t
    \<and> env_uuids t = Suc (Suc (env_uuids s))
    \<and> sql_amap X t = (sql_amap X s)(env_uuid_src s (env_uuids s) \<mapsto> stored_alert X (drawn_alert s na))
    \<and> sql_decs X t = sql_decs X s
    \<and> (\<exists>q. sql_log X t = sql_log X s @ [entry_of q] \<and> records_event X (created_event (drawn_alert s na)) q)"
proof -
  let ?a = "drawn_alert s na" and ?d = "drawn s"
  have o1: "same_oracles s (s\<lparr>env_uuids := Suc (env_uuids s)\<rparr>)" by (simp add: same_oracles_def)
  have o: "outside_db s ?d" by (simp add: outside_db_def same_oracles_def drawn_def)
  have d: "working X ?d" by (rule working_outside [OF assms(1) o])
  have fresh: "cr_uuid_text X (al_id ?a) \<notin> review_ids s"
    using next_id_fresh [OF assms(1) no_repeats_mono [OF o1 assms(2)]] by (simp add: drawn_alert_def opened_alert_def)
  have aid: "al_id ?a = env_uuid_src s (env_uuids s)" by (simp add: drawn_alert_def opened_alert_def)
  have "cr_uuid_text X (al_id ?a) \<notin> alr_id ` set (db_alerts ?d)" using fresh by (simp add: review_ids_def drawn_def)
  from insert_healthy [OF workingD(5,3) [OF d] this] obtain u where
    u: "sqlite_insert X ?a ?d = (Inr (), u)" "healthy u" "env_uuid_src u = env_uuid_src ?d" "env_uuids u = env_uuids ?d"
      "db_audit u = db_audit ?d" by blast
  have ins: "sqlite_inv X u" "sql_amap X u = (sql_amap X ?d)(al_id ?a \<mapsto> stored_alert X ?a)" "sql_decs X u = sql_decs X ?d"
    "sql_log X u = sql_log X ?d"
    using sqlite_review.insert_ok [of X ?d ?a _ u] sqlite_review.insert_frame [of X ?d ?a _ u] workingD(1) [OF d] u(1) by simp_all
  have k: "others_kept ?d u" by (rule preservesD [OF others_stores(2) u(1)])
  have ids: "review_ids u = insert (cr_uuid_text X (al_id ?a)) (review_ids ?d)"
    using u(1) by (cases rule: sqlite_insert_effect)
      (auto simp: review_ids_def alert_row_of_def res_bind_Inr_iff)
  have ou: "same_oracles ?d u" by (rule letters_oracles [OF preservesD [OF letters_stores(1) u(1)]])
  have "working X u"
    using d ins(1) u(2) k ids drawn_ids_mono [OF ou, of X] u(3,4)
    by (auto simp: working_def others_kept_def sql_tx_inv_def drawn_ids_def aid drawn_def)
  moreover have "no_repeats u" using assms(2) u(3,4) by (simp add: no_repeats_def drawn_def)
  ultimately obtain q t where t: "sqlite_append X (created_event ?a) u = (Inr q, t)" "same_oracles u t" "working X t"
    "env_uuids t = Suc (env_uuids u)" "sql_amap X t = sql_amap X u" "sql_decs X t = sql_decs X u" "sql_log X t = sql_log X u @ [entry_of q]"
    "records_event X (created_event ?a) q"
    using append_run [of X u "created_event ?a"] by blast
  have same: "sql_amap X ?d = sql_amap X s" "sql_decs X ?d = sql_decs X s" "sql_log X ?d = sql_log X s"
    using outside_invs [OF o, of X] by simp_all
  have "create_alert (sqlite_service X) na s = (Inr ?a, t)"
    using u(1) t(1)
    by (simp add: create_alert_def sqlite_service_def and_then_def new_uuid_def utc_now_def Let_def log_event_def map_err_act_def
        drawn_def drawn_alert_def created_event_def)
  moreover have "same_oracles s t" using oracles.trans [OF oracles.trans [OF _ ou] t(2)] o by (simp add: outside_db_def)
  ultimately show ?thesis using t(3-8) u(4) ins same aid by (auto simp: drawn_def)
qed

lemma log_event_sqlite: "log_event (sqlite_service X) ev = map_err_act storage_err (sqlite_append X ev)"
  by (simp add: log_event_def sqlite_service_def)

lemma create_completes [complete_rules]: "completes X E (create_alert (sqlite_service X) na)"
  unfolding completes_def
proof (intro allI impI)
  fix s r t assume run: "create_alert (sqlite_service X) na s = (r, t)"
  have o: "same_oracles s t" by (rule letters_oracles [OF preservesD [OF letters_service(1) run]])
  obtain v where "same_oracles (drawn s) v \<and> v = t"
    using run letters_oracles [OF preservesD [OF letters_stores(1)]] letters_oracles [OF preservesD [OF letters_stores(3)]] oracles.trans
    by (fastforce simp: create_alert_def sqlite_service_def log_event_def new_uuid_def utc_now_def Let_def drawn_def ok_def
        elim!: and_then_cases map_err_act_cases)
  then have "Suc (env_uuids s) \<le> env_uuids t" by (auto simp: same_oracles_def drawn_def)
  then have "same_oracles (s\<lparr>env_uuids := Suc (env_uuids s)\<rparr>) t" using o by (simp add: same_oracles_def)
  then show "works_on X s t \<and> (working X s \<and> no_repeats t \<longrightarrow> (\<forall>e. r = Inl e \<longrightarrow> E e))"
    using create_run [of X s na] no_repeats_mono run o by (fastforce simp: works_on_def)
qed

text \<open>A decision: one identifier for the record and one for the log entry.\<close>

lemma oracles_transaction: "preserves same_oracles body \<Longrightarrow> preserves same_oracles (sql_transaction body)"
  unfolding sql_transaction_def sql_call_def
  by (fastforce simp: preserves_def same_oracles_def rollback_def and_then_def split: prod.splits sum.splits option.splits)

lemma oracles_record: "preserves same_oracles (sqlite_record_decision X d st)"
  unfolding sqlite_record_decision_def
  by (intro preserves_map_err oracles_transaction oracles.keeps_and_then oracles_execute)
    (auto simp: insert_decision_row_def update_alert_status_def same_oracles_def split: if_splits)

lemma record_run:
  fixes X :: crates and s :: "'a db_scheme" and i who dec why now ticks
  assumes "working X s" "no_repeats s" "sql_amap X s i \<noteq> None" "env_ticks s \<le> ticks"
  defines "d \<equiv> \<lparr>dr_id = env_uuid_src s (env_uuids s), dr_alert_id = i, dr_investigator_id = who, dr_decision = dec,
                  dr_rationale = why, dr_created_at = now\<rparr>"
    and "u \<equiv> s\<lparr>env_uuids := Suc (env_uuids s), env_ticks := ticks\<rparr>"
  shows "\<exists>t. sqlite_record_decision X d st u = (Inr (), t) \<and> same_oracles u t \<and> working X t \<and> env_uuids t = Suc (env_uuids s)
    \<and> sql_decs X t = sql_decs X s @ [d] \<and> sql_log X t = sql_log X s
    \<and> sql_amap X t = update_alert i (\<lambda>a. a\<lparr>al_status := st\<rparr>) (sql_amap X s)"
proof -
  have o: "outside_db s u" using assms(4) by (simp add: outside_db_def same_oracles_def u_def)
  note same = outside_invs [OF o, of X] and w = workingD [OF working_outside [OF assms(1) o]]
  have "cr_uuid_text X (dr_id d) \<notin> der_id ` set (db_decisions u)"
    using next_id_fresh [OF assms(1,2)] by (simp add: review_ids_def d_def u_def)
  from record_healthy [OF w(3) _ this, of st] obtain t where
    t: "sqlite_record_decision X d st u = (Inr (), t)" "healthy t" "env_uuid_src t = env_uuid_src u" "env_uuids t = env_uuids u"
      "db_audit t = db_audit u" "der_id ` set (db_decisions t) = insert (cr_uuid_text X (dr_id d)) (der_id ` set (db_decisions u))"
    using assms(3) same by (auto simp: d_def)
  note rc = record_committed [OF w(1) t(1)]
  have k: "others_kept u t" by (rule preservesD [OF others_stores(4) t(1)])
  have o2: "same_oracles u t" by (rule preservesD [OF oracles_record t(1)])
  have "alr_id ` set (db_alerts t) = alr_id ` set (db_alerts u)"
    using t(1) by (cases rule: sqlite_record_effect)
      (auto simp: map_update_where simp flip: set_map dest: only_env_tables)
  then have "review_ids t \<subseteq> insert (cr_uuid_text X (dr_id d)) (review_ids s)"
    using t(5,6) by (auto simp: review_ids_def u_def)
  moreover have "cr_uuid_text X (dr_id d) \<in> drawn_ids X t"
    using t(3,4) by (auto simp: drawn_ids_def d_def u_def)
  moreover have "review_ids s \<subseteq> drawn_ids X t"
    using assms(1) drawn_ids_mono [OF oracles.trans [OF _ o2], of s X] o by (auto simp: working_def outside_db_def)
  ultimately have "working X t" using rc(1) t(2) k w by (auto simp: working_def others_kept_def sql_tx_inv_def)
  then show ?thesis using t(1,4) o2 rc same by (auto simp: d_def u_def)
qed

text \<open>What an accepted decision leaves behind.\<close>

definition decision_stored ::
  "crates \<Rightarrow> 'a db_scheme \<Rightarrow> uuid \<Rightarrow> string \<Rightarrow> decision \<Rightarrow> string \<Rightarrow> decision_record \<Rightarrow> 'a db_scheme \<Rightarrow> bool" where
  "decision_stored X s i who d why rec t \<longleftrightarrow> decides rec i who d why
     \<and> sql_decs X t = sql_decs X s @ [rec]
     \<and> sql_amap X t = update_alert i (\<lambda>a. a\<lparr>al_status := status_of_decision d\<rparr>) (sql_amap X s)
     \<and> (\<exists>a e. sql_amap X s i = Some a \<and> sql_log X t = sql_log X s @ [e] \<and> ae_alert_id e = Some i
          \<and> to_text (cr_event X) (InvestigatorDecision who d why (al_status a)) = Inr (ae_event_json e))"

lemma decision_run:
  assumes "working X s" "no_repeats (s\<lparr>env_uuids := Suc (env_uuids s)\<rparr>)" "sql_amap X s i = Some a"
  shows "\<exists>rec t. submit_decision X (sqlite_service X) i who d why s = (Inr rec, t) \<and> same_oracles s t \<and> working X t
    \<and> env_uuids t = Suc (Suc (env_uuids s)) \<and> decision_stored X s i who d why rec t"
proof -
  let ?s = "s\<lparr>env_calls := Suc (env_calls s)\<rparr>"
  have o: "outside_db s ?s" by (simp add: outside_db_def same_oracles_def)
  have "same_oracles s (s\<lparr>env_uuids := Suc (env_uuids s)\<rparr>)" by (simp add: same_oracles_def)
  then have n: "no_repeats s" using assms(2) by (rule no_repeats_mono)
  note s1 = working_outside [OF assms(1) o] outside_invs [OF o, of X]
  define rec where "rec = \<lparr>dr_id = env_uuid_src s (env_uuids s), dr_alert_id = i, dr_investigator_id = who, dr_decision = d,
               dr_rationale = why, dr_created_at = env_clock s (env_ticks s)\<rparr>"
  define u where "u = ?s\<lparr>env_uuids := Suc (env_uuids s), env_ticks := Suc (env_ticks s)\<rparr>"
  have ou: "same_oracles s u" by (simp add: u_def same_oracles_def)
  have "no_repeats ?s" using n by (simp add: no_repeats_def)
  from record_run [OF s1(1) this, where i = i and who = who and dec = d and why = why and now = "env_clock s (env_ticks s)"
      and st = "status_of_decision d" and ticks = "Suc (env_ticks s)"] obtain v where
    v: "sqlite_record_decision X rec (status_of_decision d) u = (Inr (), v)" "same_oracles u v" "working X v"
      "env_uuids v = Suc (env_uuids s)" "sql_decs X v = sql_decs X s @ [rec]" "sql_log X v = sql_log X s"
      "sql_amap X v = update_alert i (\<lambda>a. a\<lparr>al_status := status_of_decision d\<rparr>) (sql_amap X s)"
    using assms(3) s1 by (auto simp: rec_def u_def)
  let ?ev = "alert_event (InvestigatorDecision who d why (al_status a)) i (al_tx_id a)"
  have "no_repeats v" using assms(2) v(2,4) by (simp add: no_repeats_def same_oracles_def u_def)
  from append_run [OF v(3) this, of ?ev] obtain q t where
    t: "sqlite_append X ?ev v = (Inr q, t)" "same_oracles v t" "working X t" "env_uuids t = Suc (env_uuids v)"
      "sql_amap X t = sql_amap X v" "sql_decs X t = sql_decs X v" "sql_log X t = sql_log X v @ [entry_of q]" "records_event X ?ev q"
    by blast
  have "submit_decision X (sqlite_service X) i who d why s = (Inr rec, t)"
    using get_healthy [OF workingD(1,3) [OF assms(1)] assms(3)] v(1) t(1)
    by (simp add: submit_decision_def sqlite_service_def and_then_def new_uuid_def utc_now_def Let_def log_event_def map_err_act_def
        rec_def u_def)
  moreover have "decision_stored X s i who d why rec t"
    using v(5-7) t(5-8) assms(3)
    by (auto simp: decision_stored_def decides_def rec_def records_event_def alert_event_def for_tx_def for_alert_def new_event_def entry_of_def)
  ultimately show ?thesis using t(3,4) v(4) oracles.trans [OF oracles.trans [OF ou v(2)] t(2)] by auto
qed

text \<open>Errors that are the client's: everything but a storage or internal error.\<close>

definition domain_refusal :: "domain_error \<Rightarrow> bool" where
  "domain_refusal e = (case e of DomStorage _ \<Rightarrow> False | DomInternal _ \<Rightarrow> False | _ \<Rightarrow> True)"

lemma sqlite_get_result:
  assumes "working X s" "sqlite_get X i s = (r, t)"
  shows "r = Inr (sql_amap X s i)"
  using alert_reads_answer(1) [OF workingD(1) [OF assms(1)] workingD(3) [OF assms(1)], of i] sqlite_review.get_ok [of X s i _ t]
    workingD(1) [OF assms(1)] assms(2) by (auto simp: answers_def)

lemma oracles_calls:
  "preserves same_oracles (sqlite_append X ev)" "preserves same_oracles (sqlite_get X i)"
  "preserves same_oracles utc_now" "preserves same_oracles new_uuid"
proof -
  show "preserves same_oracles (sqlite_append X ev)" by (rule preserves_mono [OF letters_stores(3) letters_oracles])
  show "preserves same_oracles (sqlite_get X i)"
    by (rule preserves_mono [OF reads_stores(1)]) (simp add: outside_db_def)
qed (auto simp: preserves_def same_oracles_def utc_now_def new_uuid_def)

lemma oracles_submit: "preserves same_oracles (submit_decision X (sqlite_service X) i who d why)"
  unfolding submit_decision_def sqlite_service_def log_event_def Let_def
  by (simp, intro oracles.keeps_and_then oracles.keeps_pure preserves_map_err oracles_record oracles_calls)

text \<open>Every outcome of a decision on a working database.\<close>

lemma submit_result:
  assumes "submit_decision X (sqlite_service X) i who d why s = (r, t)" "working X s" "no_repeats t"
  shows "case sql_amap X s i of
      None \<Rightarrow> r = Inl (DomNotFound (''alert '' @ cr_uuid_text X i)) \<and> outside_db s t
    | Some a \<Rightarrow> \<exists>rec. r = Inr rec \<and> working X t \<and> decision_stored X s i who d why rec t"
proof -
  obtain found u where g: "sqlite_get X i s = (found, u)" by fastforce
  have o: "outside_db s u" by (rule preservesD [OF reads_stores(1) g])
  have found: "found = Inr (sql_amap X s i)" by (rule sqlite_get_result [OF assms(2) g])
  show ?thesis
  proof (cases "sql_amap X s i")
    case None
    then show ?thesis using assms(1) g found o by (simp add: submit_decision_def sqlite_service_def and_then_def)
  next
    case (Some a)
    have "same_oracles (drawn u) t"
    proof -
      obtain m where m: "m (drawn u) = (r, t)" "preserves same_oracles m"
      proof
        let ?rec = "\<lparr>dr_id = env_uuid_src u (env_uuids u), dr_alert_id = i, dr_investigator_id = who, dr_decision = d,
                    dr_rationale = why, dr_created_at = env_clock u (env_ticks u)\<rparr>"
        let ?m = "and_then (sqlite_record_decision X ?rec (status_of_decision d)) (\<lambda>_.
           and_then (log_event (sqlite_service X) (alert_event (InvestigatorDecision who d why (al_status a)) i (al_tx_id a))) (\<lambda>_.
           ok ?rec))"
        show "?m (drawn u) = (r, t)"
          using assms(1) g found Some
          by (simp add: submit_decision_def sqlite_service_def drawn_def Let_def new_uuid_def utc_now_def and_then_Inr [of "sqlite_get X i"]
              and_then_def [of new_uuid] and_then_def [of utc_now])
        show "preserves same_oracles ?m" unfolding log_event_sqlite
          by (intro oracles.keeps_and_then oracles.keeps_pure preserves_map_err oracles_record oracles_calls)
      qed
      then show ?thesis by (simp add: preservesD)
    qed
    then have "same_oracles (s\<lparr>env_uuids := Suc (env_uuids s)\<rparr>) t"
      using o by (auto simp: same_oracles_def outside_db_def drawn_def)
    from decision_run [OF assms(2) no_repeats_mono [OF this assms(3)] Some, of who d why] show ?thesis
      using assms(1) Some by auto
  qed
qed

lemma submit_completes [complete_rules]: "completes X domain_refusal (submit_decision X (sqlite_service X) i who d why)"
  unfolding completes_def
proof (intro allI impI)
  fix s r t assume run: "submit_decision X (sqlite_service X) i who d why s = (r, t)"
  have o: "same_oracles s t" by (rule preservesD [OF oracles_submit run])
  show "works_on X s t \<and> (working X s \<and> no_repeats t \<longrightarrow> (\<forall>e. r = Inl e \<longrightarrow> domain_refusal e))"
    using submit_result [OF run] o
    by (auto simp: works_on_def domain_refusal_def dest: working_outside split: option.splits)
qed

end
