(* ===== verification/WorkingProps.thy ===== *)
theory WorkingProps
  imports Working
begin

text \<open>
  The server on a working database, request after request: it stays one, and every request ends in an
  answer or a refusal; an authorised decision is always stored and logged.
\<close>

section \<open>The service and the pipeline\<close>

lemma service_completes [complete_rules]:
  "completes X E (get_alert (sqlite_service X) i)" "completes X E (list_alerts (sqlite_service X) f)"
  "completes X E (decision_history (sqlite_service X) i)" "completes X E (audit_history (sqlite_service X) i)"
  "completes X F (record_ai_advisory_requested (sqlite_service X) i x p)"
  "completes X F (record_ai_advisory (sqlite_service X) i x adv)"
  "completes X F (record_ai_unavailable (sqlite_service X) i x reason)"
  unfolding get_alert_def list_alerts_def decision_history_def audit_history_def record_ai_advisory_requested_def
    record_ai_advisory_def record_ai_unavailable_def log_event_def sqlite_service_def
  by (simp_all, (intro complete_rules allI; simp add: complete_rules)+)

lemma works_other_tables:
  assumes "preserves same_oracles m" "preserves review_kept m" "preserves others_kept m"
  shows "preserves (works_on X) m"
proof (rule preservesI)
  fix s r t assume run: "m s = (r, t)"
  note k = preservesD [OF assms(1) run] preservesD [OF assms(2) run] preservesD [OF assms(3) run]
  show "works_on X s t"
    using k(2,3) review_kept_same [OF k(2), of X]
    by (intro works_onI [OF k(1), where new = "{}"])
      (auto simp: working_def review_ids_def review_kept_def others_kept_def sql_tx_inv_def)
qed

lemma works_writes:
  "preserves (works_on X) (add_dead_letter X src raw e)" "preserves (works_on X) (set_cursor X src c)"
  by (rule works_other_tables; simp add: oracles_writes kept_repos others_stores)+

interpretation works: server_frame "works_on X" X for X
  by unfold_locales
    (auto intro: works_outside works_on_trans works_writes completes_keeps complete_rules
      completes_keeps [OF submit_completes] simp: works_on_def [of X s s for s] same_oracles_def)

lemma assess_completes [complete_rules]: "completes X E (assess_transaction X st tx)"
  unfolding assess_transaction_def display_err_def by (intro complete_rules)

lemma process_completes:
  assumes "app_alerts st = sqlite_service X" "outside_call (app_advisor st)"
  shows "completes X E (process_transaction X st tx)"
proof -
  have "completes X E (\<lambda>s. (Inr v, request_ai_advisory X st a tx h s))" for v :: "uuid option" and a h
    using advisory_frame.request_ai [OF works.advisory assms HOL.refl] by (simp add: completes_def)
  then show ?thesis
    unfolding process_transaction_def assms(1) display_err_def
    by (intro completes_and_then assess_completes) (auto split: option.split intro!: complete_rules)
qed

section \<open>Handlers\<close>

text \<open>A failure that the client is told about with a status below 500.\<close>

definition refusal :: "failure \<Rightarrow> bool" where
  "refusal f = (case f of Failed e \<Rightarrow> fst (error_response e) < 500 | Panicked \<Rightarrow> False)"

lemma refusal_simps [simp]:
  "refusal (Failed (ApiNotFound m))" "refusal (Failed (ApiBadRequest m))" "refusal (Failed (ApiUnauthorized m))"
  "refusal (Failed (ApiForbidden m))" "\<not> refusal (Failed (ApiInternal m))" "\<not> refusal Panicked"
  by (simp_all add: refusal_def error_response_def)

text \<open>
  What is relied on about \<open>jsonwebtoken\<close>: claims are always encoded, and what the secret validates was
  issued with it, so that the role in it is one that \<open>issue_token\<close> writes.
\<close>

definition tokens_served :: "auth_crates \<Rightarrow> string \<Rightarrow> bool" where
  "tokens_served A secret \<longleftrightarrow> (\<forall>c. \<exists>token. ac_encode A c secret = Inr token)
     \<and> (\<forall>token now c. ac_decode A token secret now = Inr c \<longrightarrow> (\<exists>r. role_from_str (clm_role c) = Inr r))"

lemma auth_completes:
  assumes "tokens_served A (app_jwt_secret st)"
  shows "completes X refusal (authenticated A st p)"
proof -
  have "preserves outside_db (authenticated A st p)" by (rule preserve_rules)
  moreover have "refusal e" if "authenticated A st p s = (Inl e, t)" for s t e
    using that assms unfolding authenticated_def auth_user_def decode_token_def tokens_served_def
    by (fastforce simp: ok_or_def map_err_def utc_now_def lift_res_def ok_def elim!: map_err_act_cases and_then_cases
        split: option.splits sum.splits)
  ultimately show ?thesis unfolding completes_def preserves_def using works_outside by blast
qed

lemma optional_completes [complete_rules]: "completes X E (optional_auth_user A secret p)"
  by (rule completes_read [OF reads_optional]) (auto simp: optional_auth_user_def split: prod.splits sum.splits)

lemma checked_completes [complete_rules]:
  "(\<And>e. r = Inl e \<Longrightarrow> refusal (Failed e)) \<Longrightarrow> completes X refusal (checked r)"
  unfolding checked_def by (rule completes_lift) (cases r; simp)

lemma handler_completes [complete_rules]:
  "completes X domain_refusal m \<Longrightarrow> completes X refusal (domain_call m)"
  "completes X refusal (found_or msg x)"
  "completes X E n \<Longrightarrow> completes X E (answer f n)"
proof -
  show "completes X refusal (domain_call m)" if "completes X domain_refusal m" unfolding domain_call_def
    by (rule completes_map_err [OF completes_weaken [OF that]])
      (auto simp: domain_refusal_def api_error_of_domain_def split: domain_error.splits)
  show "completes X refusal (found_or msg x)" unfolding found_or_def
    by (rule checked_completes) (auto simp: ok_or_def split: option.splits)
  show "completes X E (answer f n)" if "completes X E n" unfolding answer_def
    by (intro complete_rules that)
qed

lemma login_completes:
  assumes "tokens_served A secret"
  shows "completes X (\<lambda>e. refusal (Failed e)) (checked_login A secret req)"
proof -
  have enc: "\<exists>token. ac_encode A c secret = Inr token" for c using assms by (simp add: tokens_served_def)
  have "completes X E (issue_token A who secret)" for who and E :: "api_error \<Rightarrow> bool"
    unfolding issue_token_def
    by (intro complete_rules completes_lift) (use enc in \<open>metis Inl_Inr_False map_err_simps(2)\<close>)
  then show ?thesis
    unfolding checked_login_def
    by (intro complete_rules completes_lift) (auto simp: ok_or_def split: option.splits)
qed

lemma decide_completes:
  assumes "wired X st" "json_writes X"
  shows "completes X refusal (decide X st who i req)"
proof -
  have w: "app_alerts st = sqlite_service X" "outside_call (case_prod (app_anchor st))" using assms(1) by (simp_all add: wired_def)
  have anchor: "completes X refusal (\<lambda>s. (Inr rec, snd (app_anchor st i h s)))" for rec :: decision_record and h
  proof -
    have "outside_db s (snd (app_anchor st i h s))" for s
      using outside_call.outside [OF w(2), of "(i, h)" s] by (metis case_prod_conv prod.collapse)
    then show ?thesis using works_outside by (auto simp: completes_def)
  qed
  have "\<exists>h. hash_decision X i (inv_id who) d why now = Some h" for d why now
  proof -
    obtain f where "cr_json X v = Inr (f v)" for v using assms(2) unfolding json_writes_def by metis
    then show ?thesis by (simp add: hash_decision_def)
  qed
  then obtain h where h: "hash_decision X i (inv_id who) d why now = Some (h d why now)" for d why now by metis
  show ?thesis
    unfolding decide_def w(1) h option.case
    by (intro complete_rules anchor)
      (auto simp: require_decision_role_def map_err_def split: if_splits sum.splits)
qed

lemma page_completes [complete_rules]: "page \<noteq> None \<Longrightarrow> completes X E (page_or_panic page)"
  unfolding page_or_panic_def by (rule completes_lift) (auto simp: ok_or_def)

lemma signed_in_completes:
  assumes "\<And>who. completes X E (k who)"
  shows "completes X E (signed_in A st p k)"
  unfolding signed_in_def by (intro complete_rules) (auto split: option.split intro: assms complete_rules)

lemma admin_completes: "completes X refusal (checked (require_admin who))"
  by (rule checked_completes) (auto simp: require_admin_def split: if_splits)

lemma view_completes:
  "app_alerts st = sqlite_service X \<Longrightarrow> completes X refusal (alert_view_of X st i)"
  unfolding alert_view_of_def by (simp, intro complete_rules)

lemma detail_page_served: "uuid_texts X \<Longrightarrow> detail_page X user i v \<noteq> None"
  using short_uuid [of X "al_id (av_alert v)"] by (auto simp: detail_page_def)

lemma serve_completes:
  assumes "wired X st" "json_writes X" "uuid_texts X" "tokens_served A (app_jwt_secret st)" "q \<noteq> DashboardList"
  shows "completes X refusal (serve X A st p q)"
proof -
  have w: "app_alerts st = sqlite_service X" "app_audit st = sqlite_audit_ops X" "outside_call (app_advisor st)"
    using assms(1) by (simp_all add: wired_def)
  have process: "completes X E (process_transaction X st tx)" for E and tx by (rule process_completes [OF w(1,3)])
  note rules = complete_rules auth_completes [OF assms(4)] admin_completes process decide_completes [OF assms(1,2)]
    login_completes [OF assms(4)] signed_in_completes view_completes [OF w(1)] detail_page_served [OF assms(3)]
  show ?thesis using assms(5)
    by (cases q; simp add: w login_def login_form_def api_list_transactions_def api_get_transaction_def
        api_evaluate_transaction_def api_list_alerts_def api_get_alert_def api_get_alert_ai_def api_decision_history_def
        api_alert_audit_def api_verify_audit_chain_def alert_detail_def case_prod_unfold Let_def api_ingest_transaction_def
        api_submit_decision_def submit_decision_form_def;
        intro rules)
qed

text \<open>The list page panics on one kind of identifier only.\<close>

lemma list_panics:
  assumes "wired X st" "working X s" "alerts_list X A st p s = (Inl f, t)"
  shows "f = Panicked \<and> (\<exists>i a. sql_amap X s i = Some a \<and> short (al_tx_id a) = None)"
proof -
  let ?f = "\<lparr>af_status = None, af_limit = 100, af_offset = 0\<rparr>"
  have w: "app_alerts st = sqlite_service X" using assms(1) by (simp add: wired_def)
  obtain user u where user: "optional_auth_user A (app_jwt_secret st) p s = (Inr user :: failure + investigator option, u)" "outside_db s u"
    using preserves_snd [OF reads_optional, of s A "app_jwt_secret st" p]
    by (cases "auth_user A (app_jwt_secret st) p s") (auto simp: optional_auth_user_def split: sum.splits)
  have u: "working X u" by (rule working_outside [OF assms(2) user(2)])
  obtain listed v where l: "sqlite_list X ?f u = (Inr listed, v)"
    using list_reads_answer(1) [OF u, of ?f] by (auto simp: answers_def)
  have "list_page X who listed = None \<and> f = Panicked" if "user = Some who" for who
    using assms(3) user(1) domain_call_Inr [where m = "sqlite_list X ?f", OF l] that
    by (simp add: alerts_list_def signed_in_def and_then_def w list_alerts_def sqlite_service_def page_or_panic_def
        lift_res_def ok_or_def split: option.splits)
  moreover have "user \<noteq> None" using assms(3) user(1) by (cases user) (auto simp: alerts_list_def signed_in_def and_then_def ok_def)
  ultimately obtain who where "list_page X who listed = None" "f = Panicked" by blast
  moreover from this obtain a where "a \<in> set listed" "short (al_tx_id a) = None" by (auto simp: list_page_def alert_rows_None)
  ultimately show ?thesis
    using sqlite_review.list_sound [of X u ?f listed v a] l workingD(1) [OF u] outside_invs(2) [OF user(2), of X] by auto
qed

text \<open>One request.\<close>

lemma request_answered:
  assumes "wired X st" "uuid_texts X" "tokens_served A (app_jwt_secret st)" "working X s"
    and "serve X A st p q s = (r, t)" "no_repeats t"
    and "q = DashboardList \<Longrightarrow> \<forall>i a. sql_amap X s i = Some a \<longrightarrow> short (al_tx_id a) \<noteq> None"
  shows "working X t" "r = Inl f \<Longrightarrow> refusal f"
proof -
  show "working X t" using works.request_kept [OF assms(1,5)] assms(4,6) by (simp add: works_on_def)
  show "refusal f" if "r = Inl f"
  proof (cases "q = DashboardList")
    case True
    then have "alerts_list X A st p s = (Inl f, t)"
      using assms(5) that by (auto simp: answer_def elim!: and_then_cases)
    from list_panics [OF assms(1,4) this] show ?thesis using assms(7) [OF True] by blast
  next
    case False
    from serve_completes [OF assms(1) workingD(4) [OF assms(4)] assms(2,3) False] show ?thesis
      using assms(4-6) that by (auto simp: completes_def)
  qed
qed

section \<open>From an empty database\<close>

definition empty_tables :: "'a db_scheme \<Rightarrow> bool" where
  "empty_tables s \<longleftrightarrow> empty_review s \<and> db_transactions s = [] \<and> db_investigators s = []"

lemma working_empty:
  assumes "codecs_ok X" "json_writes X" "healthy s" "empty_review s" "db_transactions s = []"
    and "list_all (\<lambda>r. \<exists>w. row_to_investigator r = Inr w) (db_investigators s)"
  shows "working X s"
  using assms empty_review_ok [OF assms(1,4)]
  by (simp add: working_def server_ok_def sql_tx_inv_def review_ids_def empty_review_def)

text \<open>Seeding touches neither the review nor the transactions.\<close>

definition txs_kept :: "'a db_scheme \<Rightarrow> 'a db_scheme \<Rightarrow> bool" where
  "txs_kept s t \<longleftrightarrow> db_transactions t = db_transactions s"

interpretation txs: state_preorder txs_kept
  by unfold_locales (simp_all add: txs_kept_def)

lemma txs_execute: "(\<And>s t. f s = Inr t \<Longrightarrow> txs_kept s t) \<Longrightarrow> preserves txs_kept (execute f)"
  by (fastforce simp: preserves_def txs_kept_def elim!: execute_cases)

lemma txs_seeding [preserve_rules]:
  "preserves txs_kept utc_now" "preserves txs_kept new_uuid" "preserves txs_kept (query g)"
  "preserves txs_kept (execute (upsert_flagged frow))" "preserves txs_kept (execute (insert_investigator X irow))"
  by (auto simp: preserves_def txs_kept_def utc_now_def new_uuid_def upsert_flagged_def insert_investigator_def
      split: if_splits elim!: query_cases execute_cases)

lemma txs_flagged: "preserves txs_kept (seed_flagged X fs)"
  by (induction X fs rule: seed_flagged.induct)
    (simp_all only: seed_flagged.simps flagged_add_def display_err_def, (intro preserve_rules; assumption?)+)

lemma txs_bootstrap:
  "preserves txs_kept (seed_admin X A salt c)" "preserves txs_kept (chosen_source X C c)"
proof -
  show "preserves txs_kept (seed_admin X A salt c)"
    unfolding seed_admin_def display_err_def investigator_count_def investigator_create_def by (intro preserve_rules)
  show "preserves txs_kept (chosen_source X C c)"
    unfolding chosen_source_def by (auto split: option.split intro!: preserve_rules txs_flagged)
qed

lemma launched_working:
  assumes "launch X A parse_raw C Q salt vars s0 = (Inr (st, src, name, ms), s)" "sqlx_keeps_rows Q"
    and "codecs_ok X" "json_writes X" "empty_tables s0" "healthy s"
  shows "working X s" "wired X st" "outside_call (src_poll src)"
proof -
  have b: "bootstrap X A parse_raw C Q salt (config_from_env vars) s0 = (Inr (st, src, name), s)"
    using assms(1) by (auto simp: launch_def Let_def elim!: and_then_InrE)
  from b obtain u v w where r: "connect Q (cf_database_url (config_from_env vars)) s0 = (Inr u, v)"
    "seed_admin X A salt (config_from_env vars) v = (Inr (), w)" "chosen_source X C (config_from_env vars) w = (Inr (src, name), s)"
    by (rule bootstrap_cases)
  have v: "same_tables s0 v" by (rule connect_keeps_rows [OF assms(2) r(1)])
  have "txs_kept v s" by (rule txs.trans [OF preservesD [OF txs_bootstrap(1) r(2)] preservesD [OF txs_bootstrap(2) r(3)]])
  then have "db_transactions s = []" using v assms(5) by (simp add: txs_kept_def same_tables_def empty_tables_def)
  moreover have "review_kept s0 s" by (rule bootstrap_review [OF assms(2) b])
  then have "empty_review s" using assms(5) by (simp add: review_kept_def empty_review_def empty_tables_def)
  moreover have "db_investigators v = []" using v assms(5) by (simp add: same_tables_def empty_tables_def)
  from seed_admin_first [OF r(2) this] preservesD [OF chosen_source_kept(1) r(3)]
  have "list_all (\<lambda>r. \<exists>w. row_to_investigator r = Inr w) (db_investigators s)" by (auto simp: users_kept_def)
  ultimately show "working X s" using working_empty assms(3,4,6) by blast
  show "wired X st" "outside_call (src_poll src)" by (rule bootstrap_wired [OF b])+
qed


section \<open>An authorised decision\<close>

lemma decision_stored_outside:
  "outside_db s u \<Longrightarrow> outside_db v t \<Longrightarrow> decision_stored X u i who d why rec v \<Longrightarrow> decision_stored X s i who d why rec t"
  using outside_invs [of s u X] outside_invs [of v t X] by (simp add: decision_stored_def)

lemma decide_stored:
  assumes "wired X st" "working X u" "can_decide (inv_role who)" "decision_from_str (dq_decision req) = Inr d"
    and "trim (dq_rationale req) \<noteq> []" "sql_amap X u i = Some a" "decide X st who i req u = (r, t)" "no_repeats t"
  shows "\<exists>rec v. r = Inr rec \<and> working X v \<and> outside_db v t \<and> decision_stored X u i (inv_id who) d (dq_rationale req) rec v"
proof -
  from assms(1,7) show ?thesis
  proof (cases rule: decide_cases)
    case refused
    with assms(3-5) show ?thesis by simp
  next
    case (submitted d' res v)
    have d: "d' = d" using submitted(2) assms(4) by simp
    have "no_repeats v" using submitted(5) assms(8) no_repeats_mono by (auto simp: outside_db_def)
    from submit_result [OF submitted(4) assms(2) this] obtain rec where
      rec: "res = Inr rec" "working X v" "decision_stored X u i (inv_id who) d (dq_rationale req) rec v"
      using assms(6) d by auto
    obtain f where "cr_json X v = Inr (f v)" for v using workingD(4) [OF assms(2)] unfolding json_writes_def by metis
    then have "r = Inr rec"
      using assms(1,3,4,5,7) submitted(4) rec(1) d
      by (simp add: decide_def checked_def require_decision_role_def domain_call_def wired_def and_then_def map_err_act_def
          hash_decision_def)
    with rec(2,3) submitted(5) show ?thesis by blast
  qed
qed

text \<open>
  C6:
  On a working database an authorised decision is never lost: when an investigator or administrator
  sends a decision for an existing alert with one of the known names and a reason that is not blank,
  the server answers with the decision record, the decision is stored, the alert has the new status, and
  the log has an entry for it, with the status from before, whatever the anchoring does; the form of the dashboard does
  the same and answers with a redirect to the alert.
\<close>

theorem authorised_decision_stored:
  assumes "wired X st" and "working X s" and "requester A st p s = Inr who" and "can_decide (inv_role who)"
    and "decision_from_str (dq_decision req) = Inr d" and "trim (dq_rationale req) \<noteq> []" and "sql_amap X s i = Some a"
    and "no_repeats (snd (serve X A st p (SubmitDecision i req) s))"
  shows "\<exists>rec t. serve X A st p (SubmitDecision i req) s = (Inr (JsonDecision rec), t)
    \<and> serve X A st p (DashboardDecision i req) s = (Inr (Redirect None (''/dashboard/alerts/'' @ cr_uuid_text X i)), t)
    \<and> working X t \<and> decision_stored X s i (inv_id who) d (dq_rationale req) rec t"
proof -
  obtain u where u: "authenticated A st p s = (Inr who, u)"
    using assms(3) by (cases "auth_user A (app_jwt_secret st) p s")
      (simp add: requester_def authenticated_def map_err_act_def)
  have o: "outside_db s u" by (rule preservesD [OF reads_auth(2) u])
  obtain r t where run: "decide X st who i req u = (r, t)" by fastforce
  have t: "snd (serve X A st p (SubmitDecision i req) s) = t"
    using u run by (cases r) (simp_all add: answer_def api_submit_decision_def and_then_def)
  from decide_stored [OF assms(1) working_outside [OF assms(2) o] assms(4-6) _ run, of a] assms(7,8) t
    outside_invs(2) [OF o, of X] obtain rec v where
    v: "r = Inr rec" "working X v" "outside_db v t" "decision_stored X u i (inv_id who) d (dq_rationale req) rec v"
    by auto
  show ?thesis
    using u run v(1) working_outside [OF v(2,3)] decision_stored_outside [OF o v(3,4)]
    by (intro exI [of _ rec] exI [of _ t])
      (simp add: answer_def api_submit_decision_def submit_decision_form_def and_then_def)
qed

section \<open>Witnesses\<close>

definition open_auth :: auth_crates where
  "open_auth = plain_auth\<lparr>ac_encode := (\<lambda>_ _. Inr ''head.body.sig'')\<rparr>"

definition no_parts :: parts where
  "no_parts = \<lparr>pt_authorization = None, pt_cookie = None\<rparr>"

lemma open_auth_served: "tokens_served open_auth secret"
  by (auto simp: tokens_served_def open_auth_def plain_auth_def sample_auth_def sample_claims_def role_from_str_def)

lemma hex_writes: "json_writes hex_crates"
  by (simp add: json_writes_def hex_crates_def sample_crates_def)

lemma of_nat_no_repeats:
  assumes "env_uuid_src s = (\<lambda>n. of_nat n)" "env_uuids s < 1000"
  shows "no_repeats s"
  unfolding no_repeats_def
proof (rule inj_onI)
  fix m n assume mn: "m \<in> {..env_uuids s}" "n \<in> {..env_uuids s}" "env_uuid_src s m = env_uuid_src s n"
  then have "unat (of_nat m :: uuid) = unat (of_nat n :: uuid)" using assms(1) by simp
  then show "m = n" using mn assms(2) by (simp add: unsigned_of_nat take_bit_nat_eq_self)
qed

text \<open>A launch over an empty database, and a request without credentials.\<close>

lemma hex_launch:
  obtains st src name ms t where
    "launch hex_crates open_auth no_parser no_pages open_existing ''salt'' no_vars sample_node = (Inr (st, src, name, ms), t)"
    "healthy t" "no_repeats t"
proof -
  obtain st src name t where t:
    "bootstrap hex_crates open_auth no_parser no_pages open_existing ''salt'' (config_from_env no_vars) sample_node
       = (Inr (st, src, name), t)" "healthy t" "env_uuid_src t = (\<lambda>n. of_nat n)" "env_uuids t < 1000"
    by (simp add: bootstrap_def connect_def Let_def open_existing_def seed_admin_def investigator_count_def query_def sql_call_def and_then_def
      map_err_act_def display_err_def hash_password_def open_auth_def plain_auth_def investigator_create_def execute_def
      insert_investigator_def new_uuid_def utc_now_def chosen_source_def config_from_env_def no_vars_def healthy_def
      demo_flagged_accounts_def flagged_add_def upsert_flagged_def sample_node_def healthy_db_def sample_db_def db.defs node.defs)
  show thesis
    by (rule that [OF _ t(2) of_nat_no_repeats [OF t(3,4)]]) (simp add: launch_def Let_def and_then_def t(1))
qed

lemma no_credentials:
  "serve X A st no_parts (GetAlert i) s = (Inl (Failed (ApiUnauthorized ''missing credentials'')), s)"
  by (simp add: api_get_alert_def authenticated_def auth_user_def token_from_parts_def bearer_token_def no_parts_def
      answer_def and_then_def map_err_act_def ok_or_def lift_res_def)


text \<open>A decision on the only alert of a database.\<close>

definition working_db :: db where
  "working_db = page_db\<lparr>env_uuids := 78\<rparr>"

lemma working_db: "working hex_crates working_db" "sql_amap hex_crates working_db 77 = Some (stored_alert hex_crates sample_alert)"
proof -
  have k: "review_kept page_db working_db" by (simp add: review_kept_def working_db_def)
  show "sql_amap hex_crates working_db 77 = Some (stored_alert hex_crates sample_alert)"
    using review_kept_same [OF k, of hex_crates] page_db_ok(4) by simp
  have "alr_id page_row = cr_uuid_text hex_crates (env_uuid_src working_db 77)"
    using written_alert_row(3) [OF hex_codecs_ok page_row]
    by (simp add: sample_alert_def opened_alert_def working_db_def page_db_def healthy_db_def sample_db_def)
  then have "alr_id page_row \<in> drawn_ids hex_crates working_db"
    unfolding drawn_ids_def by (rule image_eqI) (simp add: working_db_def)
  then have "review_ids working_db \<subseteq> drawn_ids hex_crates working_db"
    by (simp add: review_ids_def working_db_def page_db_def healthy_db_def sample_db_def)
  moreover have "sql_tx_inv hex_crates working_db" "healthy working_db" "db_investigators working_db = []"
    using page_db_ok(2,3) by (simp_all add: sql_tx_inv_def working_db_def healthy_def) (simp add: page_db_def healthy_db_def sample_db_def)
  ultimately show "working hex_crates working_db"
    using review_kept_same [OF k, of hex_crates] page_db_ok(1) hex_writes by (simp add: working_def)
qed

lemma working_requester:
  "auth_user sample_auth ''key'' sample_cookie working_db = (Inr sample_who, working_db\<lparr>env_ticks := 1\<rparr>)"
proof -
  have p: "presents sample_cookie ''head.body.sig''"
    by (simp add: presents_def sample_cookie_def auth_cookie_name_def)
  have "token_from_parts sample_auth sample_cookie = Some ''head.body.sig''"
    by (rule presents_token [OF sample_tokens_ok _ p]) (simp add: token_char_def)
  then show ?thesis
    by (simp add: auth_user_def decode_token_def and_then_def utc_now_def sample_auth_def sample_claims_def
        working_db_def page_db_def healthy_db_def sample_db_def role_from_str_def sample_who_def)
qed

theorem authorised_decision_stored_witness:
  "\<exists>rec t. serve hex_crates sample_auth page_app sample_cookie
       (SubmitDecision 77 \<lparr>dq_decision = ''escalated'', dq_rationale = ''structuring''\<rparr>) working_db = (Inr (JsonDecision rec), t)
     \<and> map_option al_status (sql_amap hex_crates t 77) = Some alert_status.Escalated"
proof -
  let ?u = "working_db\<lparr>env_ticks := 1\<rparr>" and ?req = "\<lparr>dq_decision = ''escalated'', dq_rationale = ''structuring''\<rparr>"
  let ?submit = "serve hex_crates sample_auth page_app sample_cookie (SubmitDecision 77 ?req) working_db"
  have src: "env_uuid_src working_db = (\<lambda>n. of_nat n)" "env_uuids working_db = 78" "env_ticks working_db = 0"
    by (simp_all add: working_db_def page_db_def healthy_db_def sample_db_def)
  have o: "outside_db working_db ?u" by (simp add: src)
  have req: "requester sample_auth page_app sample_cookie working_db = Inr sample_who"
    using working_requester by (simp add: requester_def page_app_def sample_app_def)
  have reason: "trim ''structuring'' = ''structuring''" by (rule trim_token) (simp add: token_char_def)
  have "no_repeats (?u\<lparr>env_uuids := Suc (env_uuids ?u)\<rparr>)" by (rule of_nat_no_repeats) (simp_all add: src)
  from decision_run [OF working_outside [OF working_db(1) o] this, of 77 _ "''inv-1''" decision.Escalated "''structuring''"]
  obtain rec t where t: "submit_decision hex_crates (sqlite_service hex_crates) 77 ''inv-1'' decision.Escalated ''structuring'' ?u
      = (Inr rec, t)" "same_oracles ?u t" "env_uuids t = 80"
    using working_db(2) outside_invs(2) [OF o, of hex_crates] src by auto
  have "snd ?submit = t"
    using working_requester t(1) reason hex_writes
    by (auto simp: answer_def api_submit_decision_def authenticated_def page_app_def sample_app_def map_err_act_def and_then_def
        decide_def checked_def require_decision_role_def sample_who_def can_decide_def decision_from_str_def
        domain_call_def hash_decision_def json_writes_def noop_anchor_def split: option.split sum.split)
  then have "no_repeats (snd ?submit)"
    using of_nat_no_repeats [of t] t(2,3) src by (simp add: same_oracles_def)
  from authorised_decision_stored [OF page_wired working_db(1) req _ _ _ working_db(2) this, of decision.Escalated] reason
  obtain rec t where "?submit = (Inr (JsonDecision rec), t)"
    "decision_stored hex_crates working_db 77 ''inv-1'' decision.Escalated ''structuring'' rec t"
    by (auto simp: sample_who_def can_decide_def decision_from_str_def)
  then show ?thesis using working_db(2)
    by (intro exI [of _ rec] exI [of _ t]) (simp add: decision_stored_def update_alert_def status_of_decision_def)
qed

end
