(* ===== verification/Agreement.thy ===== *)
theory Agreement
  imports Working
begin

text \<open>
  Authorisation under concurrency. Every decision record that appears while handlers and the
  ingestion loop are interleaved belongs to one decision request, and to one only: that request was
  made with the credentials of an investigator or administrator, at the time they were checked, and
  the record is what it asked for.
\<close>

section \<open>Steps that decide, and steps that do not\<close>

definition undecided :: "crates \<Rightarrow> 'a db_scheme \<Rightarrow> 'a db_scheme \<Rightarrow> bool" where
  "undecided X s t \<longleftrightarrow> same_oracles s t \<and> (sqlite_inv X s \<longrightarrow> sqlite_inv X t \<and> sql_decs X t = sql_decs X s)"

definition decided :: "crates \<Rightarrow> ('a db_scheme \<Rightarrow> decision_record \<Rightarrow> bool) \<Rightarrow> 'a db_scheme \<Rightarrow> 'a db_scheme \<Rightarrow> bool" where
  "decided X P s t \<longleftrightarrow> same_oracles s t
     \<and> (sqlite_inv X s \<longrightarrow> sqlite_inv X t \<and> (\<exists>d. P t d \<and> sql_decs X t = sql_decs X s @ [d]))"

lemma undecided_quiet: "same_oracles s t \<Longrightarrow> quiet_effect X s t \<Longrightarrow> undecided X s t"
  by (simp add: undecided_def quiet_effect_def)

lemma preserves_undecided:
  "preserves same_oracles m \<Longrightarrow> preserves (quiet_effect X) m \<Longrightarrow> preserves (undecided X) m"
  by (auto simp: preserves_def intro: undecided_quiet)

interpretation undecided_tasks: task_frame "undecided X" X "\<lambda>_. False" for X
proof unfold_locales
  fix s t u :: "'a db_scheme"
  show "undecided X s s" by (simp add: undecided_def oracles.refl)
  show "undecided X s t \<Longrightarrow> undecided X t u \<Longrightarrow> undecided X s u"
    using oracles.trans by (auto simp: undecided_def)
  show "outside_db s t \<Longrightarrow> undecided X s t"
    by (rule undecided_quiet [OF _ outside_keeps(2)]) (simp_all add: outside_db_def)
next
  note o = preserves_mono [OF _ letters_oracles]
  show "preserves (undecided X) (sqlite_append X ev)" for ev
    by (rule preserves_undecided [OF o [OF letters_stores(3)] quiet_statements(1)])
  show "al_status a = Open \<Longrightarrow> preserves (undecided X) (sqlite_insert X a)" for a
    by (rule preserves_undecided [OF o [OF letters_stores(1)] quiet_statements(2)])
  show "preserves (undecided X) (sqlite_set_ai_status X i ai)" for i ai
    by (rule preserves_undecided [OF o [OF letters_stores(2)] quiet_statements(3)])
  show "preserves (undecided X) (tx_save X tx)" for tx
    by (rule preserves_undecided [OF o [OF letters_repos(1)] quiet_repos(1)])
  show "preserves (undecided X) (add_dead_letter X name raw e)" for name raw e
    by (rule preserves_undecided [OF oracles_writes(1) quiet_repos(9)])
  show "preserves (undecided X) (set_cursor X name c)" for name c
    by (rule preserves_undecided [OF oracles_writes(2) quiet_repos(8)])
qed simp

lemma record_decided:
  assumes "sqlite_record_decision X d (status_of_decision (dr_decision d)) s = (r, t)" "P t d"
  shows "undecided X s t \<or> decided X P s t"
proof -
  have o: "same_oracles s t" by (rule preservesD [OF oracles_record assms(1)])
  show ?thesis
  proof (cases r)
    case (Inl e)
    then show ?thesis
      using o assms(1) sqlite_review.record_failed [of X s d "status_of_decision (dr_decision d)" e t]
      by (auto simp: undecided_def)
  next
    case (Inr u)
    with o assms show ?thesis
      using record_committed(1,2) [of X s d "status_of_decision (dr_decision d)" u t] by (auto simp: decided_def)
  qed
qed

section \<open>What a decision request may do\<close>

abbreviation decides_once ::
  "crates \<Rightarrow> ('a db_scheme \<Rightarrow> decision_record \<Rightarrow> bool) \<Rightarrow> ('a db_scheme, 'r) task \<Rightarrow> 'a db_scheme \<Rightarrow> bool" where
  "decides_once X P \<equiv> once same_oracles (undecided X) (decided X P)"

lemma undecided_oracles: "undecided X s t \<Longrightarrow> same_oracles s t"
  by (simp add: undecided_def)

lemmas oracles_once_call = state_preorder.once_call [OF oracles.state_preorder_axioms]
lemmas oracles_once_then = state_preorder.once_then [OF oracles.state_preorder_axioms]
lemmas oracles_once_map = state_preorder.once_map [OF oracles.state_preorder_axioms]
lemmas oracles_once_later = state_preorder.once_later [OF oracles.state_preorder_axioms]
lemmas oracles_once_poll = state_preorder.once_poll [OF oracles.state_preorder_axioms]

lemma once_after_quiet:
  "keeps (undecided X) p \<Longrightarrow> (\<And>x t. same_oracles s t \<Longrightarrow> decides_once X P (k x) t) \<Longrightarrow> decides_once X P (then_task p k) s"
  by (rule state_preorder.once_after_then [OF oracles.state_preorder_axioms]) (auto dest: undecided_oracles)

lemma submit_once:
  assumes "\<And>rec t. same_oracles s t \<Longrightarrow> decides rec i who d why \<Longrightarrow> P t rec"
  shows "decides_once X P (submit_decision_task X (sqlite_service X) i who d why) s"
proof -
  let ?svc = "sqlite_service X :: 'a db_scheme alert_service"
  have st: "svc_store ?svc = sqlite_alert_ops X" by (simp add: sqlite_service_def)
  have last: "decides_once X P (then_task (call (sqlite_record_decision X rec (status_of_decision d))) (\<lambda>_.
      then_task (log_event_task ?svc ev) (\<lambda>_. Done (Inr rec)))) u" if "same_oracles s u" "decides rec i who d why" for rec u ev
  proof -
    have log: "keeps (undecided X) (then_task (log_event_task ?svc ev) (\<lambda>_. Done (Inr rec)))"
      by (intro keeps_rules undecided_tasks.keeps_log_event)
    have "same_oracles t v \<and> (undecided X t v \<or> decided X P t v)"
      if t: "same_oracles u t" "sqlite_record_decision X rec (status_of_decision d) t = (r, v)" for t r v
    proof -
      have "same_oracles s v"
        by (rule oracles.trans [OF oracles.trans [OF \<open>same_oracles s u\<close> t(1)] preservesD [OF oracles_record t(2)]])
      have "dr_decision rec = d" using \<open>decides rec i who d why\<close> by (simp add: decides_def)
      then have "undecided X t v \<or> decided X P t v"
        using record_decided [of X rec t r v P] t(2) assms [OF \<open>same_oracles s v\<close> \<open>decides rec i who d why\<close>] by simp
      then show ?thesis by (auto simp: undecided_def decided_def)
    qed
    moreover have "keeps (undecided X) (case r of Inl e \<Rightarrow> Done (Inl e)
        | Inr x \<Rightarrow> then_task (log_event_task ?svc ev) (\<lambda>_. Done (Inr rec)))" for r :: "domain_error + unit"
      using log by (cases r) simp_all
    ultimately show ?thesis unfolding then_task_def [of "call m" for m]
      by (intro oracles_once_call) (blast intro: once_quiet)
  qed
  note read = undecided_tasks.read_task [OF reads_stores(1)]
  show ?thesis
    by (simp add: submit_decision_task_def st Let_def)
      (rule once_after_quiet [OF read], rule once_after_quiet [OF keeps_Done],
        rule once_after_quiet [OF undecided_tasks.read_query(3)], rule once_after_quiet [OF undecided_tasks.read_query(2)],
        rule last, (blast intro: oracles.trans), simp add: decides_def)
qed

lemma decide_once:
  assumes "wired X st" "\<And>rec t. same_oracles s t \<Longrightarrow> answers_request who i req rec \<Longrightarrow> P t rec"
  shows "decides_once X P (decide_task X st who i req) s"
proof -
  have w: "app_alerts st = sqlite_service X" "outside_call (case_prod (app_anchor st))" using assms(1) by (simp_all add: wired_def)
  have anchor: "keeps (undecided X) (call (app_anchor st i h))" for h
    using outside_call.outside [OF w(2), of "(i, h)"]
    by (intro keeps_call) (auto simp: preserves_def intro: undecided_tasks.outside_kept)
  have submit: "decides_once X P (submit_decision_task X (sqlite_service X) i (inv_id who) d (dq_rationale req)) s"
    if "can_decide (inv_role who)" "decision_from_str (dq_decision req) = Inr d" "trim (dq_rationale req) \<noteq> []" for d
    by (rule submit_once, erule assms(2)) (use that in \<open>simp add: decides_def answers_request_def\<close>)
  show ?thesis
  proof (cases "can_decide (inv_role who)")
    case True
    then show ?thesis using submit
      by (cases "decision_from_str (dq_decision req)")
        (auto simp: decide_task_def w(1) checked_task_def require_decision_role_def then_task_def [of "Done r" for r]
          domain_task_def intro!: oracles_once_then oracles_once_map once_Done keeps_map anchor split: option.split)
  qed (simp add: decide_task_def checked_task_def require_decision_role_def then_task_def once_Done)
qed

text \<open>
  A decision record is granted to a request: its credentials, checked between the states \<open>s\<close> and \<open>t\<close>,
  are those of a user who may decide, and the record has the user, the alert, the decision and the rationale of
  the request.
\<close>

definition granted ::
  "auth_crates \<Rightarrow> 'a db_scheme app_state \<Rightarrow> 'a db_scheme \<Rightarrow> parts \<times> request \<Rightarrow> 'a db_scheme \<Rightarrow> decision_record \<Rightarrow> bool" where
  "granted A st s hq t d \<longleftrightarrow> (\<exists>i req who u. decision_of (snd hq) = Some (i, req) \<and> same_oracles s u \<and> same_oracles u t
     \<and> requester A st (fst hq) u = Inr who \<and> answers_request who i req d)"

lemma auth_once:
  assumes "same_oracles s0 s"
    and "\<And>who u v. same_oracles s0 u \<Longrightarrow> same_oracles u v \<Longrightarrow> requester A st p u = Inr who \<Longrightarrow> decides_once X P (k who) v"
  shows "decides_once X P (then_task (call (authenticated A st p)) k) s"
  unfolding then_task_def
proof (rule oracles_once_call)
  fix t r u assume t: "same_oracles s t" "authenticated A st p t = (r, u)"
  have o: "outside_db t u" by (rule preservesD [OF reads_auth(2) t(2)])
  have "decides_once X P (case r of Inl e \<Rightarrow> Done (Inl e) | Inr x \<Rightarrow> k x) u"
  proof (cases r)
    case (Inr who)
    with t(2) have "requester A st p t = Inr who"
      by (auto simp: authenticated_def requester_def elim: map_err_act_cases)
    moreover have "same_oracles t u" using o by (simp add: outside_db_def)
    ultimately show ?thesis using assms(2) [OF oracles.trans [OF assms(1) t(1)]] Inr by simp
  qed (simp add: once_Done)
  with undecided_tasks.outside_kept [OF o]
  show "same_oracles t u \<and> (undecided X t u \<and> decides_once X P (case r of Inl e \<Rightarrow> Done (Inl e) | Inr x \<Rightarrow> k x) u
      \<or> decided X P t u \<and> keeps (undecided X) (case r of Inl e \<Rightarrow> Done (Inl e) | Inr x \<Rightarrow> k x))"
    by (simp add: undecided_def)
qed

lemma serve_once:
  assumes "wired X st" "same_oracles s0 s"
  shows "decides_once X (granted A st s0 (head, q)) (serve_task X A st head q) s"
proof (cases "decision_of q")
  case None
  then show ?thesis by (intro once_quiet undecided_tasks.keeps_serve [OF assms(1)]) simp
next
  case (Some z)
  then obtain i req where z: "decision_of q = Some (i, req)" by (cases z) simp
  have decide: "decides_once X (granted A st s0 (head, q)) (decide_task X st who i req) v"
    if "same_oracles s0 u" "same_oracles u v" "requester A st head u = Inr who" for who u v
    by (rule decide_once [OF assms(1)]) (use that z oracles.trans [OF that(2)] in \<open>auto simp: granted_def\<close>)
  note auth = auth_once [OF assms(2)]
  from z consider "q = SubmitDecision i req" | "q = DashboardDecision i req"
    by (cases q) (simp_all add: decision_of_def)
  then show ?thesis
  proof cases
    case 1
    show ?thesis unfolding 1 serve_task.simps answer_task_def api_submit_decision_task_def
      by (intro oracles_once_then auth decide [unfolded 1] keeps_Done)
  next
    case 2
    show ?thesis unfolding 2 serve_task.simps answer_task_def submit_decision_form_task_def
      by (intro oracles_once_then auth decide [unfolded 2] keeps_Done)
  qed
qed

section \<open>Runs with the requests that arrived\<close>

text \<open>
  The runs of the concurrent server, with the list of the requests so far, in the order of their
  arrival: task 0 is the ingestion loop, task \<open>k + 1\<close> the handler of request \<open>k\<close>.
\<close>

inductive served ::
  "crates \<Rightarrow> auth_crates \<Rightarrow> 'a db_scheme app_state \<Rightarrow> ('a db_scheme, outcome) task \<Rightarrow> 'a db_scheme \<Rightarrow>
   (parts \<times> request) list \<Rightarrow> ('a db_scheme, outcome) pool \<Rightarrow> bool" for X A st loop s0 where
  started: "served X A st loop s0 [] ([loop], s0)"
| arrived: "served X A st loop s0 ls (ts, s)
    \<Longrightarrow> served X A st loop s0 (ls @ [(head, q)]) (ts @ [map_result (Answered q) (serve_task X A st head q)], s)"
| polled: "served X A st loop s0 ls (ts, s) \<Longrightarrow> i < length ts \<Longrightarrow> ts ! i = Await f \<Longrightarrow> f s = (p, t)
    \<Longrightarrow> served X A st loop s0 ls (ts[i := p], t)"

text \<open>They are the interleavings of the handlers with the loop.\<close>

lemma served_moves: "served X A st loop s0 ls c \<Longrightarrow> (moves (handler_task X A st))\<^sup>*\<^sup>* ([loop], s0) c"
proof (induction rule: served.induct)
  case (arrived ls ts s head q)
  have "handler_task X A st (map_result (Answered q) (serve_task X A st head q))" by (auto simp: handler_task_def)
  from rtranclp.rtrancl_into_rtrancl [OF arrived.IH arrive [where entry = "handler_task X A st", OF this]] show ?case .
next
  case (polled ls ts s i f p t)
  from rtranclp.rtrancl_into_rtrancl [OF polled.IH poll [where entry = "handler_task X A st", OF polled.hyps(2-4)]] show ?case .
qed simp

lemma moves_served:
  "(moves (handler_task X A st))\<^sup>*\<^sup>* ([loop], s0) c \<Longrightarrow> \<exists>ls. served X A st loop s0 ls c"
proof (induction rule: rtranclp_induct)
  case base
  show ?case using served.started by blast
next
  case (step c d)
  then obtain ls where ls: "served X A st loop s0 ls c" by blast
  from step.hyps(2) show ?case
  proof cases
    case (arrive p ts s)
    then obtain q head where "p = map_result (Answered q) (serve_task X A st head q)" by (auto simp: handler_task_def)
    with ls arrive served.arrived show ?thesis by blast
  next
    case (poll i ts f s p t)
    with ls served.polled show ?thesis by blast
  qed
qed

text \<open>
  The matching of decisions with arrivals that every run keeps: a handler with a decision to its
  name takes no further one.
\<close>

definition matched ::
  "auth_crates \<Rightarrow> 'a db_scheme app_state \<Rightarrow> 'a db_scheme \<Rightarrow> (parts \<times> request) list \<Rightarrow> 'a db_scheme \<Rightarrow>
   (nat \<times> decision_record) list \<Rightarrow> bool" where
  "matched A st s ls t dn \<longleftrightarrow> distinct (map fst dn) \<and> (\<forall>(k, d) \<in> set dn. k < length ls \<and> granted A st s (ls ! k) t d)"

definition handler_ok ::
  "crates \<Rightarrow> auth_crates \<Rightarrow> 'a db_scheme app_state \<Rightarrow> 'a db_scheme \<Rightarrow> (nat \<times> decision_record) list \<Rightarrow> 'a db_scheme \<Rightarrow>
   nat \<Rightarrow> parts \<times> request \<Rightarrow> ('a db_scheme, outcome) task \<Rightarrow> bool" where
  "handler_ok X A st s dn t k hq p \<longleftrightarrow>
     (if k \<in> fst ` set dn then keeps (undecided X) p else decides_once X (granted A st s hq) p t)"

definition agrees ::
  "crates \<Rightarrow> auth_crates \<Rightarrow> 'a db_scheme app_state \<Rightarrow> 'a db_scheme \<Rightarrow> (parts \<times> request) list \<Rightarrow> (nat \<times> decision_record) list \<Rightarrow>
   ('a db_scheme, outcome) pool \<Rightarrow> bool" where
  "agrees X A st s ls dn c \<longleftrightarrow> (case c of (ts, t) \<Rightarrow> same_oracles s t \<and> sqlite_inv X t
     \<and> sql_decs X t = sql_decs X s @ map snd dn \<and> matched A st s ls t dn
     \<and> (\<exists>lp hs. ts = lp # hs \<and> keeps (undecided X) lp \<and> length hs = length ls
          \<and> (\<forall>k < length ls. handler_ok X A st s dn t k (ls ! k) (hs ! k))))"

lemma handler_later: "same_oracles t u \<Longrightarrow> handler_ok X A st s dn t k hq p \<Longrightarrow> handler_ok X A st s dn u k hq p"
  using oracles_once_later by (auto simp: handler_ok_def split: if_splits)

lemma granted_later: "same_oracles t u \<Longrightarrow> granted A st s hq t d \<Longrightarrow> granted A st s hq u d"
  using oracles.trans unfolding granted_def by blast

lemma matched_later: "same_oracles t u \<Longrightarrow> matched A st s ls t dn \<Longrightarrow> matched A st s ls u dn"
  using granted_later unfolding matched_def by blast

lemma agrees_arrived:
  assumes "wired X st" "agrees X A st s ls dn (ts, t)"
  shows "agrees X A st s (ls @ [(head, q)]) dn (ts @ [map_result (Answered q) (serve_task X A st head q)], t)"
proof -
  have o: "same_oracles s t" and m: "matched A st s ls t dn" using assms(2) by (simp_all add: agrees_def)
  have "decides_once X (granted A st s (head, q)) (map_result (Answered q) (serve_task X A st head q)) t"
    by (intro oracles_once_map serve_once assms(1) o)
  moreover have "length ls \<notin> fst ` set dn" using m by (fastforce simp: matched_def)
  ultimately have "handler_ok X A st s dn t (length ls) (head, q) (map_result (Answered q) (serve_task X A st head q))"
    by (simp add: handler_ok_def)
  moreover have "matched A st s (ls @ [(head, q)]) t dn" using m by (fastforce simp: matched_def nth_append)
  ultimately show ?thesis using assms(2) by (auto simp: agrees_def nth_append less_Suc_eq)
qed

lemma handlers_updated:
  assumes "\<forall>k < length ls. handler_ok X A st s dn t k (ls ! k) (hs ! k)" "same_oracles t u" "length hs = length ls"
    and "handler_ok X A st s dn' u i (ls ! i) p" "\<And>k. k \<noteq> i \<Longrightarrow> k \<in> fst ` set dn' \<longleftrightarrow> k \<in> fst ` set dn"
  shows "\<forall>k < length ls. handler_ok X A st s dn' u k (ls ! k) (hs[i := p] ! k)"
proof (intro allI impI)
  fix k assume k: "k < length ls"
  then have "handler_ok X A st s dn u k (ls ! k) (hs ! k)" using assms(1,2) handler_later by blast
  then show "handler_ok X A st s dn' u k (ls ! k) (hs[i := p] ! k)"
    using assms(3-5) k by (cases "k = i") (simp_all add: handler_ok_def)
qed

lemma agrees_polled:
  assumes "agrees X A st s ls dn (ts, t)" "i < length ts" "ts ! i = Await f" "f t = (p, u)"
  shows "\<exists>dn'. agrees X A st s ls dn' (ts[i := p], u)"
proof -
  from assms(1) obtain lp hs where ts: "ts = lp # hs" and lp: "keeps (undecided X) lp" and len: "length hs = length ls"
    and hs: "\<forall>k < length ls. handler_ok X A st s dn t k (ls ! k) (hs ! k)" and o: "same_oracles s t" and inv: "sqlite_inv X t"
    and decs: "sql_decs X t = sql_decs X s @ map snd dn" and m: "matched A st s ls t dn"
    by (auto simp: agrees_def)
  have later: "same_oracles s u" if "same_oracles t u" by (rule oracles.trans [OF o that])
  show ?thesis
  proof (cases i)
    case 0
    with ts lp assms(3,4) have u: "undecided X t u" "keeps (undecided X) p" by auto
    note tu = undecided_oracles [OF u(1)]
    have "\<forall>k < length ls. handler_ok X A st s dn u k (ls ! k) (hs ! k)" using hs handler_later [OF tu] by blast
    with u have "agrees X A st s ls dn (ts[i := p], u)"
      using 0 ts len inv decs matched_later [OF tu m] later [OF tu] by (simp add: agrees_def undecided_def)
    then show ?thesis by blast
  next
    case (Suc k)
    with ts len assms(2,3) have k: "k < length ls" "hs ! k = Await f" by auto
    have ok: "handler_ok X A st s dn t k (ls ! k) (Await f)" using hs k by metis
    have upd: "ts[i := p] = lp # hs[k := p]" using Suc ts by simp
    show ?thesis
    proof (cases "undecided X t u \<and> handler_ok X A st s dn u k (ls ! k) p")
      case True
      then have "\<forall>j < length ls. handler_ok X A st s dn u j (ls ! j) (hs[k := p] ! j)"
        by (intro handlers_updated [OF hs _ len]) (simp_all add: undecided_def)
      moreover have tu: "same_oracles t u" using True undecided_oracles by blast
      ultimately have "agrees X A st s ls dn (ts[i := p], u)"
        using True upd lp len inv decs matched_later [OF tu m] later [OF tu] by (simp add: agrees_def undecided_def)
      then show ?thesis by blast
    next
      case False
      with ok have fresh: "k \<notin> fst ` set dn" and step: "decided X (granted A st s (ls ! k)) t u" "keeps (undecided X) p"
        using assms(4) oracles_once_poll [of "undecided X" "decided X (granted A st s (ls ! k))" f t p u]
        by (auto simp: handler_ok_def split: if_splits)
      then obtain d where d: "same_oracles t u" "sqlite_inv X u" "granted A st s (ls ! k) u d" "sql_decs X u = sql_decs X t @ [d]"
        using inv by (auto simp: decided_def)
      have "\<forall>j < length ls. handler_ok X A st s (dn @ [(k, d)]) u j (ls ! j) (hs[k := p] ! j)"
        by (rule handlers_updated [OF hs d(1) len]) (use step(2) in \<open>auto simp: handler_ok_def\<close>)
      moreover have "matched A st s ls u (dn @ [(k, d)])"
        using matched_later [OF d(1) m] fresh k(1) d(3) by (auto simp: matched_def)
      ultimately have "agrees X A st s ls (dn @ [(k, d)]) (ts[i := p], u)"
        using upd lp len d decs later [OF d(1)] by (simp add: agrees_def)
      then show ?thesis by blast
    qed
  qed
qed

lemma served_agrees:
  assumes "served X A st loop s ls c" "wired X st" "keeps (undecided X) loop" "sqlite_inv X s"
  shows "\<exists>dn. agrees X A st s ls dn c"
  using assms(1)
proof induction
  case started
  have "agrees X A st s [] [] ([loop], s)" using assms(3,4) by (simp add: agrees_def matched_def oracles.refl)
  then show ?case by blast
next
  case (arrived ls ts t head q)
  then show ?case using agrees_arrived [OF assms(2)] by blast
next
  case (polled ls ts t i f p u)
  then show ?case using agrees_polled by blast
qed

text \<open>
  C3:
  Nobody decides for an investigator, under any interleaving. In every run of the concurrent server
  the decision records that have appeared are matched with decision requests that have arrived,
  different records with different requests: the credentials of the request were checked after the
  start, and were at that time those of an investigator or administrator; the record has that user,
  and the alert, the decision and the rationale of the request. So no other handler, no AI answer and
  no ingested transaction decides, no request decides twice, and no answer is needed for this: it
  holds in the middle of every run, for handlers that are dropped, and with statements that fail.
\<close>

theorem decisions_match_requests:
  assumes "wired X st" and "outside_call (src_poll src)" and "sqlite_inv X s"
    and "served X A st (ingestion_task X st src name ms n) s ls (ts, t)"
  shows "\<exists>dn. sql_decs X t = sql_decs X s @ map snd dn \<and> distinct (map fst dn)
    \<and> (\<forall>(k, d) \<in> set dn. k < length ls \<and> granted A st s (ls ! k) t d)"
proof -
  have "keeps (undecided X) (ingestion_task X st src name ms n)"
    unfolding ingestion_task_def using assms(1,2)
    by (intro keeps_map undecided_tasks.keeps_ingestion) (simp_all add: wired_def)
  from served_agrees [OF assms(4,1) this assms(3)] show ?thesis by (auto simp: agrees_def matched_def)
qed

theorem decisions_match_requests_witness:
  "\<exists>ls ts t k d. served sample_crates sample_auth sample_app (ingestion_task sample_crates sample_app empty_source ''demo'' 15000 3)
       (sample_alert_db 5) ls (ts, t)
     \<and> d \<in> set (sql_decs sample_crates t) \<and> k < length ls \<and> granted sample_auth sample_app (sample_alert_db 5) (ls ! k) t d"
proof -
  let ?loop = "ingestion_task sample_crates sample_app empty_source ''demo'' 15000 3"
  let ?p = "map_result (Answered sample_decision) (serve_task sample_crates sample_auth sample_app sample_cookie sample_decision)"
  obtain r t where run: "serve sample_crates sample_auth sample_app sample_cookie sample_decision (sample_alert_db 5) = (r, t)"
    "db_decisions t \<noteq> []" by (rule sample_decision_run)
  have "run_task ?p (sample_alert_db 5) = (Answered sample_decision r, t)"
    using run(1) by (simp add: run_serve)
  then have "(moves (handler_task sample_crates sample_auth sample_app))\<^sup>*\<^sup>* ([?loop], sample_alert_db 5)
      ([?loop] @ [Done (Answered sample_decision r)], t)"
    by (intro arrive_and_run) (auto simp: handler_task_def)
  from moves_served [OF this] obtain ls where ls:
    "served sample_crates sample_auth sample_app ?loop (sample_alert_db 5) ls ([?loop] @ [Done (Answered sample_decision r)], t)" by blast
  from decisions_match_requests [OF sample_wired empty_source_outside sample_alert_db_inv ls] obtain dn where
    dn: "sql_decs sample_crates t = sql_decs sample_crates (sample_alert_db 5) @ map snd dn"
      "\<forall>(k, d) \<in> set dn. k < length ls \<and> granted sample_auth sample_app (sample_alert_db 5) (ls ! k) t d" by blast
  have "sql_decs sample_crates (sample_alert_db 5) = []" "sql_decs sample_crates t \<noteq> []"
    using run(2) by (simp_all add: sql_decs_def) (simp add: sample_alert_db_def sample_db_def)
  then obtain k d where "(k, d) \<in> set dn" using dn(1) by (cases dn) auto
  then show ?thesis using ls dn by fastforce
qed

end
