(* ===== verification/Divergences.thy ===== *)
theory Divergences
  imports Working
begin

text \<open>
  Places where the program differs from what its comments say: the in-memory stores, which are
  described as references for the SQLite stores, on arguments that only the trait allows; and payments that
  leave no trace in a normalised transaction.
\<close>

section \<open>The stores\<close>

text \<open>
  \<open>AuditStore::list_all\<close> with a negative limit: nothing from the in-memory store, and everything from
  the SQLite store, where \<open>LIMIT\<close> with a negative value is no limit.
\<close>

theorem negative_limit_diverges:
  assumes "working X s" "n < 0"
  shows "fst (mem_list_all n m) = Inr []
    \<and> (\<exists>rs t. sqlite_list_all X n s = (Inr rs, t) \<and> map entry_of rs = sql_log X s)"
proof -
  let ?k = "int (length (db_audit s))"
  have rows: "list_all (audit_row_ok X) (db_audit s)"
    using assms(1) by (simp add: working_def sqlite_inv_def sql_audit_inv_def)
  have "answers (select_records X (\<lambda>rows. sql_limit n (sort_desc_key aur_sequence rows))) s"
    unfolding select_records_def using rows assms(2)
    by (intro select_answers workingD(3) [OF assms(1)])
      (force simp: list_all_iff audit_row_ok_def read_record_def sql_limit_def sort_desc_key_def)+
  then obtain rs t where rs: "sqlite_list_all X n s = (Inr rs, t)"
    by (auto simp: answers_def sqlite_list_all_def and_then_def)
  have "sql_limit n (sort_desc_key aur_sequence (db_audit s)) = sql_limit ?k (sort_desc_key aur_sequence (db_audit s))"
    using assms(2) by (simp add: sql_limit_def sort_desc_key_def)
  then have "sqlite_list_all X ?k s = (Inr rs, t)"
    using rs by (simp add: sqlite_list_all_def select_records_def query_def sql_call_def and_then_def map_err_act_def
        split: option.splits)
  then have "map entry_of rs = drop (length (sql_log X s) - nat ?k) (sql_log X s)"
    using sqlite_review.list_all_ok [OF workingD(1) [OF assms(1)], of ?k rs t] by simp
  moreover have "length (sql_log X s) = length (db_audit s)" by (simp add: sql_log_def)
  ultimately show ?thesis using rs assms(2) by (simp add: mem_list_all_def)
qed

text \<open>The offset of a filter: ignored by the in-memory store, applied by the SQLite store.\<close>

theorem offset_diverges:
  assumes "working X s" "k \<ge> int (length (db_alerts s))"
  shows "fst (mem_list (f\<lparr>af_offset := k\<rparr>) m) = fst (mem_list f m)
    \<and> (\<exists>t. sqlite_list X (f\<lparr>af_offset := k\<rparr>) s = (Inr [], t))"
proof -
  have "length (filter P (db_alerts s)) \<le> nat k" for P
    using assms(2) by (intro order_trans [OF length_filter_le]) simp
  moreover have "length (db_alerts s) \<le> nat k" using assms(2) by simp
  ultimately have "select_alerts (f\<lparr>af_offset := k\<rparr>) (db_alerts s) = []"
    by (simp add: select_alerts_def sql_limit_def sql_offset_def sort_desc_key_def split: option.split)
  then show ?thesis
    using workingD(3) [OF assms(1)]
    by (simp add: sqlite_list_def query_def sql_call_def healthy_def and_then_def map_err_act_def mem_list_def filter_status_ok_def Let_def
        cong: if_cong)
qed

text \<open>Inserting an alert whose identifier is taken: overwrites in memory, is refused by the database.\<close>

theorem second_insert_diverges:
  assumes "sqlite_inv X s" "sql_amap X s (al_id a) \<noteq> None"
  shows "(\<exists>t. mem_insert a m = (Inr (), t) \<and> map_of (mm_alerts t) (al_id a) = Some a)
    \<and> (\<exists>e t. sqlite_insert X a s = (Inl e, t) \<and> sql_amap X t = sql_amap X s)"
proof -
  obtain r t where t: "sqlite_insert X a s = (r, t)" by fastforce
  then obtain e where "r = Inl e" using sqlite_review.insert_fresh [OF assms(1), of a _ t] assms(2) by (cases r) auto
  with t have "\<exists>e t. sqlite_insert X a s = (Inl e, t) \<and> sql_amap X t = sql_amap X s"
    using sqlite_review.insert_failed [OF assms(1), of a e t] by auto
  then show ?thesis by (simp add: mem_insert_def update_conv')
qed

section \<open>Payments that leave no trace\<close>

text \<open>
  A payment whose amount does not parse as a \<open>Decimal\<close> disappears from the transaction, which is
  normalised without a failure, so that the rules see no movement and no dead letter is written.
\<close>

theorem unreadable_payment_dropped:
  assumes "ho_type op = ''payment''" "ho_amount op = Some amount" "cr_dec_parse X amount = None"
    and "cr_rfc3339_parse X (ht_created_at tx) = Inr now" "parse_i64 (ht_fee_charged tx) = Inr fee"
  shows "\<exists>t. normalize_transaction X tx [op] cids = Inr t \<and> tx_movements t = []"
proof -
  have "op_movement X op = None"
    using assms(1-3) by (simp add: op_movement_def movement_of_def split: option.split)
  then show ?thesis using assms(4,5) by (simp add: normalize_transaction_def map_filter_simps)
qed

end
