(* ===== verification/TestsRules.thy ===== *)
theory TestsRules
  imports RulesProps
begin

text \<open>
  The tests of \<open>rules_engine/src/lib.rs\<close>: each holds for the model, whatever the third-party functions
  do.
\<close>

definition fired :: "string \<Rightarrow> evaluation_result \<Rightarrow> bool" where
  "fired rid result \<longleftrightarrow> list_ex (\<lambda>t. rt_rule_id t = rid) (er_triggers result)"

text \<open>\<open>AccountHistory::default()\<close>.\<close>

definition empty_history :: account_history where
  "empty_history =
     \<lparr>ah_account = [], ah_recent_transactions = [], ah_baseline_tx_per_hour = 0, ah_baseline_observations = 0,
      ah_known_assets = {}\<rparr>"

text \<open>Noon on 1 January 2026.\<close>

definition base_tx :: normalized_transaction where
  "base_tx =
     \<lparr>tx_id = ''tx-1'', tx_ledger = 100, tx_created_at = seconds 1767268800, tx_source_account = ''GALICE'',
      tx_fee_charged = 100, tx_memo = None, tx_operation_count = 1, tx_successful = True,
      tx_movements = [\<lparr>mv_asset = asset_native, mv_from = ''GALICE'', mv_to = ''GBOB'', mv_amount = dec_of_nat 100\<rparr>],
      tx_contract_ids = []\<rparr>"

definition test_evaluate ::
  "crates \<Rightarrow> rules_config \<Rightarrow> account_history \<Rightarrow> account_id set \<Rightarrow> normalized_transaction \<Rightarrow> evaluation_result" where
  "test_evaluate X config history flagged tx =
     evaluate (with_built_ins X)
       \<lparr>ec_tx = tx, ec_source_history = history, ec_flagged_accounts = flagged, ec_config = config, ec_now = tx_created_at tx\<rparr>
       scoring_config_default"

section \<open>Which rule fires\<close>

lemma large_ids: "t \<in> set (large_transfer_loop X cfg ms) \<Longrightarrow> rt_rule_id t = ''large_transfer''"
  by (induction X cfg ms rule: large_transfer_loop.induct)
    (auto simp: Let_def large_transfer_trigger_def trigger_def split: if_splits)

lemma large_empty: "large_transfer_loop X cfg ms = [] \<longleftrightarrow> (\<forall>m \<in> set ms. \<not> dec_gt (mv_amount m) (transfer_threshold cfg (mv_asset m)))"
  by (induction X cfg ms rule: large_transfer_loop.induct) (auto simp: Let_def)

lemma rule_ids_of:
  "t \<in> set (velocity_eval ctx) \<Longrightarrow> rt_rule_id t = ''velocity''"
  "t \<in> set (abnormal_frequency_eval ctx) \<Longrightarrow> rt_rule_id t = ''abnormal_frequency''"
  "t \<in> set (flagged_account_eval ctx) \<Longrightarrow> rt_rule_id t = ''flagged_account_interaction''"
  "t \<in> set (unusual_asset_eval ctx) \<Longrightarrow> rt_rule_id t = ''unusual_asset_movement''"
  "t \<in> set (operation_count_eval ctx) \<Longrightarrow> rt_rule_id t = ''operation_count_threshold''"
  by (auto simp: velocity_eval_def abnormal_frequency_eval_def flagged_account_eval_def flagged_trigger_def
      unusual_asset_eval_def unusual_asset_trigger_def operation_count_eval_def trigger_def Let_def split: if_splits)

lemma triggers_of_built_ins:
  "er_triggers (evaluate (with_built_ins X) ctx cfg) =
     large_transfer_loop X (ec_config ctx) (tx_movements (ec_tx ctx)) @ velocity_eval ctx @ abnormal_frequency_eval ctx
     @ flagged_account_eval ctx @ unusual_asset_eval ctx @ operation_count_eval ctx"
  by (simp add: with_built_ins_def built_in_rules_def evaluate_all_def large_transfer_rule_def
      velocity_rule_def abnormal_frequency_rule_def flagged_account_rule_def unusual_asset_rule_def operation_count_rule_def)

lemma fired_member:
  "(\<And>t. t \<in> set ts \<Longrightarrow> rt_rule_id t = rid) \<Longrightarrow> list_ex (\<lambda>t. rt_rule_id t = r) ts \<longleftrightarrow> r = rid \<and> ts \<noteq> []"
  by (cases ts) (auto simp: list_ex_iff)

lemma fired_built_in:
  "fired r (evaluate (with_built_ins X) ctx cfg) \<longleftrightarrow>
     r = ''large_transfer'' \<and> large_transfer_loop X (ec_config ctx) (tx_movements (ec_tx ctx)) \<noteq> []
     \<or> r = ''velocity'' \<and> velocity_eval ctx \<noteq> []
     \<or> r = ''abnormal_frequency'' \<and> abnormal_frequency_eval ctx \<noteq> []
     \<or> r = ''flagged_account_interaction'' \<and> flagged_account_eval ctx \<noteq> []
     \<or> r = ''unusual_asset_movement'' \<and> unusual_asset_eval ctx \<noteq> []
     \<or> r = ''operation_count_threshold'' \<and> operation_count_eval ctx \<noteq> []"
  unfolding fired_def triggers_of_built_ins list_ex_append
  by (simp only: fired_member [OF large_ids] fired_member [OF rule_ids_of(1)] fired_member [OF rule_ids_of(2)]
      fired_member [OF rule_ids_of(3)] fired_member [OF rule_ids_of(4)] fired_member [OF rule_ids_of(5)])

section \<open>The tests\<close>

definition large_transfer_triggers_above_threshold_and_not_below :: "crates \<Rightarrow> bool" where
  "large_transfer_triggers_above_threshold_and_not_below X =
     (let config = rules_config_default\<lparr>large_transfer_default_threshold := dec_of_nat 50\<rparr>;
          result = test_evaluate X config empty_history {} base_tx;
          config_high = rules_config_default\<lparr>large_transfer_default_threshold := dec_of_nat 1000000\<rparr>;
          result2 = test_evaluate X config_high empty_history {} base_tx
      in fired ''large_transfer'' result \<and> \<not> fired ''large_transfer'' result2)"

definition evaluation_is_deterministic :: "crates \<Rightarrow> bool" where
  "evaluation_is_deterministic X =
     (let r1 = test_evaluate X rules_config_default empty_history {} base_tx;
          r2 = test_evaluate X rules_config_default empty_history {} base_tx
      in er_score r1 = er_score r2 \<and> length (er_triggers r1) = length (er_triggers r2)
         \<and> list_all (\<lambda>(a, b). rt_rule_id a = rt_rule_id b \<and> rt_reason a = rt_reason b)
             (zip (er_triggers r1) (er_triggers r2)))"

definition velocity_rule_triggers_on_repeated_transactions :: "crates \<Rightarrow> bool" where
  "velocity_rule_triggers_on_repeated_transactions X =
     (let config = rules_config_default\<lparr>velocity_max_tx_count := 3, velocity_window_secs := 60\<rparr>;
          history = empty_history\<lparr>ah_account := ''GALICE'',
            ah_recent_transactions := map (\<lambda>i.
              \<lparr>rc_tx_id = ''prev-'' @ show_nat i, rc_created_at = tx_created_at base_tx - seconds (10 * (int i + 1)),
               rc_counterparty = ''GBOB'', rc_asset = asset_native, rc_amount = dec_of_nat 10\<rparr>) [0..<2]\<rparr>
      in fired ''velocity'' (test_evaluate X config history {} base_tx))"

definition flagged_account_rule_triggers_on_known_bad_counterparty :: "crates \<Rightarrow> bool" where
  "flagged_account_rule_triggers_on_known_bad_counterparty X =
     fired ''flagged_account_interaction'' (test_evaluate X rules_config_default empty_history (insert ''GBOB'' {}) base_tx)"

definition unusual_asset_rule_ignores_accounts_with_no_history :: "crates \<Rightarrow> bool" where
  "unusual_asset_rule_ignores_accounts_with_no_history X =
     (\<not> fired ''unusual_asset_movement'' (test_evaluate X rules_config_default empty_history {} base_tx))"

definition unusual_asset_rule_triggers_for_known_account_new_asset :: "crates \<Rightarrow> bool" where
  "unusual_asset_rule_triggers_for_known_account_new_asset X =
     (let history = empty_history\<lparr>ah_known_assets := insert ''USDC:GISSUER'' (ah_known_assets empty_history)\<rparr>
      in fired ''unusual_asset_movement'' (test_evaluate X rules_config_default history {} base_tx))"

definition operation_count_threshold_rule :: "crates \<Rightarrow> bool" where
  "operation_count_threshold_rule X =
     (let config = rules_config_default\<lparr>max_operations_per_tx := 2\<rparr>;
          tx = base_tx\<lparr>tx_operation_count := 5\<rparr>
      in fired ''operation_count_threshold'' (test_evaluate X config empty_history {} tx))"

definition mk_trigger :: "f64 \<Rightarrow> rule_trigger" where
  "mk_trigger weight = \<lparr>rt_rule_id = ''x'', rt_rule_name = ''x'', rt_reason = ''x'', rt_weight = weight, rt_evidence = JObject []\<rparr>"

definition scoring_maps_trigger_weights_to_severity_bands :: bool where
  "scoring_maps_trigger_weights_to_severity_bands =
     (let cfg = scoring_config_default
      in score_and_severity [] cfg = (0, None)
         \<and> score_and_severity [mk_trigger 20] cfg = (20, Some Low)
         \<and> score_and_severity [mk_trigger 40] cfg = (40, Some Medium)
         \<and> score_and_severity [mk_trigger 65] cfg = (65, Some High)
         \<and> score_and_severity [mk_trigger 90, mk_trigger 90] cfg = (100, Some Critical))"

lemmas test_evaluation = test_evaluate_def fired_built_in empty_history_def base_tx_def rules_config_default_def

theorem large_transfer_test: "large_transfer_triggers_above_threshold_and_not_below X"
  by (simp add: large_transfer_triggers_above_threshold_and_not_below_def test_evaluation large_empty
      transfer_threshold_def dec_gt_def dec_of_nat_def)

theorem determinism_test: "evaluation_is_deterministic X"
  by (simp add: evaluation_is_deterministic_def list_all_iff zip_same_conv_map)

theorem velocity_test: "velocity_rule_triggers_on_repeated_transactions X"
  by (simp add: velocity_rule_triggers_on_repeated_transactions_def test_evaluation velocity_eval_def Let_def
      count_in_window_def seconds_def upt_rec)

theorem flagged_account_test: "flagged_account_rule_triggers_on_known_bad_counterparty X"
proof -
  have "sort_dedup hits \<noteq> []" if "''GBOB'' \<in> set hits" for hits :: "string list"
    using that set_sort_dedup [of hits] by force
  then show ?thesis
    by (simp add: flagged_account_rule_triggers_on_known_bad_counterparty_def test_evaluation flagged_account_eval_def
        Let_def involved_accounts_def movement_accounts_def)
qed

theorem unusual_asset_tests:
  "unusual_asset_rule_ignores_accounts_with_no_history X"
  "unusual_asset_rule_triggers_for_known_account_new_asset X"
  by (simp_all add: unusual_asset_rule_ignores_accounts_with_no_history_def
      unusual_asset_rule_triggers_for_known_account_new_asset_def test_evaluation unusual_asset_eval_def
      asset_key_def asset_native_def)

theorem operation_count_test: "operation_count_threshold_rule X"
  by (simp add: operation_count_threshold_rule_def test_evaluation operation_count_eval_def Let_def)

theorem scoring_test: scoring_maps_trigger_weights_to_severity_bands
proof -
  have one: "f64_sum (map rt_weight [mk_trigger (of_nat n)]) = of_nat n" if "n \<le> 2 ^ 53" for n
    using f64_sum_nat [of "[n]"] that by (simp add: mk_trigger_def)
  have two: "f64_sum (map rt_weight [mk_trigger 90, mk_trigger 90]) = 180"
    using f64_sum_nat [of "[90, 90]"] by (simp add: mk_trigger_def)
  show ?thesis
    using one [of 20] one [of 40] one [of 65] two
    by (simp add: scoring_maps_trigger_weights_to_severity_bands_def score_and_severity_def Let_def
        scoring_config_default_def severity_of_score_def)
qed

end
