(* ===== verification/TestKit.thy ===== *)
theory TestKit
  imports Crates
begin

text \<open>
  The vocabulary of the unit tests in the source tree. A test of pure code is a truth value; an
  asynchronous test is an action whose errors are the panics of \<open>unwrap\<close> and \<open>assert!\<close>, run from the
  state that its set-up leaves.
\<close>

named_theorems test_rules \<open>calls that a test makes, and what they return\<close>

definition assert_that :: "bool \<Rightarrow> ('s, unit, unit) action" where
  "assert_that b = (if b then ok () else err ())"

definition unwrap :: "('s, 'e, 'a) action \<Rightarrow> ('s, unit, 'a) action" where
  "unwrap m = map_err_act (\<lambda>_. ()) m"

text \<open>\<open>Option::unwrap\<close> and \<open>expect\<close>, \<open>Result::unwrap\<close> of a pure result, and \<open>Result\<close> kept as a value.\<close>

definition unwrap_some :: "'a option \<Rightarrow> ('s, unit, 'a) action" where
  "unwrap_some x = lift_res (ok_or () x)"

definition unwrap_res :: "'e + 'a \<Rightarrow> ('s, unit, 'a) action" where
  "unwrap_res r = lift_res (map_err (\<lambda>_. ()) r)"

definition outcome_of :: "('s, 'e, 'a) action \<Rightarrow> ('s, unit, 'e + 'a) action" where
  "outcome_of m s = (case m s of (r, t) \<Rightarrow> (Inr r, t))"

definition passes :: "('s, unit, unit) action \<Rightarrow> 's \<Rightarrow> bool" where
  "passes t s \<longleftrightarrow> fst (t s) = Inr ()"

lemma passes_done [simp]: "passes (ok ()) s"
  by (simp add: passes_def)

lemma passes_assert [simp]:
  "passes (assert_that b) s \<longleftrightarrow> b"
  "passes (and_then (assert_that b) k) s \<longleftrightarrow> b \<and> passes (k ()) s"
  by (simp_all add: passes_def assert_that_def)

lemma passes_pure [simp]:
  "passes (and_then (unwrap_some (Some x)) k) s \<longleftrightarrow> passes (k x) s"
  "passes (and_then (unwrap_res (Inr x)) k) s \<longleftrightarrow> passes (k x) s"
  by (simp_all add: passes_def unwrap_some_def unwrap_res_def)

text \<open>One step of a test: what the call returned, and the state it left.\<close>

lemma passes_unwrap: "m s = (Inr x, t) \<Longrightarrow> passes (and_then (unwrap m) k) s \<longleftrightarrow> passes (k x) t"
  by (simp add: passes_def unwrap_def map_err_act_def and_then_def)

lemma passes_outcome: "m s = (r, t) \<Longrightarrow> passes (and_then (outcome_of m) k) s \<longleftrightarrow> passes (k r) t"
  by (simp add: passes_def outcome_of_def and_then_def)

section \<open>The mock server\<close>

text \<open>
  What the tests use of \<open>wiremock\<close>: mounted mocks are tried in order, one answers a request with its
  method and path, at most \<open>times\<close> times if that is given; a request that none answers gets 404. A mock
  with a limit is only mounted for the first requests of a test, so the number of requests so far
  says how often it has answered. The body of a template without one is empty.
\<close>

record mock =
  mk_method :: string
  mk_path :: string
  mk_times :: "nat option"
  mk_status :: nat
  mk_body :: "json option"

definition mock_of :: "string \<Rightarrow> string \<Rightarrow> nat \<Rightarrow> json option \<Rightarrow> mock" where
  "mock_of meth path status body =
     \<lparr>mk_method = meth, mk_path = path, mk_times = None, mk_status = status, mk_body = body\<rparr>"

definition url_path :: "string \<Rightarrow> string \<Rightarrow> string" where
  "url_path uri url = takeWhile (\<lambda>c. c \<noteq> CHR ''?'') (drop (length uri) url)"

definition mock_answers :: "string \<Rightarrow> nat \<Rightarrow> http_request \<Rightarrow> mock \<Rightarrow> bool" where
  "mock_answers uri n rq m \<longleftrightarrow>
     rq_method rq = mk_method m \<and> url_path uri (rq_url rq) = mk_path m
     \<and> (case mk_times m of None \<Rightarrow> True | Some k \<Rightarrow> n < k)"

definition mock_response :: "crates \<Rightarrow> nat \<Rightarrow> json option \<Rightarrow> http_response" where
  "mock_response X status body =
     (case body of
        None \<Rightarrow> \<lparr>hr_status = status, hr_text = Inr [], hr_json = Inl ''EOF while parsing a value at line 1 column 0''\<rparr>
      | Some v \<Rightarrow> \<lparr>hr_status = status, hr_text = cr_json X v, hr_json = Inr v\<rparr>)"

definition mock_server :: "crates \<Rightarrow> string \<Rightarrow> mock list \<Rightarrow> nat \<Rightarrow> http_request \<Rightarrow> string + http_response" where
  "mock_server X uri mocks n rq =
     (case find (mock_answers uri n rq) mocks of
        None \<Rightarrow> Inr (mock_response X 404 None)
      | Some m \<Rightarrow> Inr (mock_response X (mk_status m) (mk_body m)))"

text \<open>\<open>MockServer::start()\<close> and the mounted mocks, for the rest of a test; \<open>uri\<close> is the address it got.\<close>

definition with_server ::
  "crates \<Rightarrow> string \<Rightarrow> mock list \<Rightarrow> ('a env_scheme, unit, unit) action \<Rightarrow> ('a env_scheme, unit, unit) action" where
  "with_server X uri mocks t s = t (s\<lparr>env_http := mock_server X uri mocks, env_sent := []\<rparr>)"

lemma passes_with_server [simp]:
  "passes (with_server X uri mocks t) s \<longleftrightarrow> passes t (s\<lparr>env_http := mock_server X uri mocks, env_sent := []\<rparr>)"
  by (simp add: passes_def with_server_def)

lemma url_path_of: "url_path uri (uri @ p) = takeWhile (\<lambda>c. c \<noteq> CHR ''?'') p"
  by (simp add: url_path_def)

end
