(* ===== verification/TestsAdvisor.thy ===== *)
theory TestsAdvisor
  imports AiAdvisor TestKit
begin

text \<open>
  The tests of the \<open>ai_advisor\<close> crate: \<open>validate.rs\<close>, and \<open>lib.rs\<close>, which runs the client against a mock
  server. The deserialiser that \<open>serde\<close> derives for \<open>RawAdvisoryInput\<close> is a parameter; the tests rely on
  what \<open>serde\<close> documents for a derived one.
\<close>

section \<open>Validation\<close>

definition test_input :: "string \<Rightarrow> string \<Rightarrow> f64 \<Rightarrow> raw_advisory_input" where
  "test_input summary risk_level confidence =
     \<lparr>ri_summary = summary, ri_suspicious_signals = [], ri_relevant_history = [], ri_risk_level = risk_level,
      ri_risk_rationale = [], ri_recommended_next_steps = [], ri_confidence = confidence, ri_explanation = []\<rparr>"

definition strips_control_characters_and_caps_length :: bool where
  "strips_control_characters_and_caps_length =
     (let dirty = ''hello'' @ [CHR 0x07] @ ''world'' @ replicate 3000 (CHR ''x'');
          cleaned = sanitize_text dirty max_text_len
      in \<not> str_contains [CHR 0x07] cleaned \<and> length (utf8_chars cleaned) = max_text_len)"

definition strips_script_tags_defensively :: bool where
  "strips_script_tags_defensively =
     (let cleaned = sanitize_text ''Looks fine <script>alert(1)</script> but isn't'' max_text_len
      in \<not> str_contains ''<script'' (to_ascii_lowercase cleaned))"

definition unknown_risk_level_falls_back_to_unspecified :: bool where
  "unknown_risk_level_falls_back_to_unspecified =
     (case validate_and_sanitize (test_input ''ok'' ''TOTALLY_DEFINITELY_FRAUD'' 5) of
        Inl _ \<Rightarrow> False
      | Inr sanitized \<Rightarrow> ra_level (sa_risk_assessment sanitized) = ''unspecified'' \<and> sa_confidence sanitized = 1)"

definition empty_summary_is_rejected :: bool where
  "empty_summary_is_rejected = isl (validate_and_sanitize (test_input ''   '' ''low'' (1 / 2)))"

definition list_lengths_are_bounded :: bool where
  "list_lengths_are_bounded =
     (case validate_and_sanitize ((test_input ''ok'' ''low'' (1 / 2))
             \<lparr>ri_suspicious_signals := map (\<lambda>i. ''signal '' @ show_nat i) [0..<50],
              ri_recommended_next_steps := map (\<lambda>i. ''step '' @ show_nat i) [0..<50]\<rparr>) of
        Inl _ \<Rightarrow> False
      | Inr sanitized \<Rightarrow> length (sa_suspicious_signals sanitized) = max_list_items
          \<and> length (sa_recommended_next_steps sanitized) = max_list_items)"

lemma utf8_chars_bytes: "list_all (\<lambda>c. \<not> is_cont_byte c) s \<Longrightarrow> utf8_chars s = map (\<lambda>c. [c]) s"
proof (induction s)
  case (Cons b bs)
  then have "takeWhile is_cont_byte bs = []" "dropWhile is_cont_byte bs = bs" by (cases bs, simp_all)+
  then show ?case using Cons by simp
qed simp

lemma sanitized_greeting:
  "utf8_chars (sanitize_text (''hello'' @ [CHR 0x07] @ ''world'' @ replicate n (CHR ''x'')) k)
   = take k (map (\<lambda>c. [c]) (''helloworld'' @ replicate n (CHR ''x'')))"
proof -
  let ?dirty = "''hello'' @ [CHR 0x07] @ ''world'' @ replicate n (CHR ''x'')"
  let ?kept = "map (\<lambda>c. [c]) (''helloworld'' @ replicate n (CHR ''x''))"
  have "utf8_chars ?dirty = map (\<lambda>c. [c]) ?dirty"
    by (rule utf8_chars_bytes) (simp add: is_cont_byte_def list_all_iff)
  then have "filter keep_char (utf8_chars ?dirty) = ?kept"
    by (simp add: keep_char_def char_is_control_def bytes_of_def map_replicate_const [symmetric])
  moreover have "filter (\<lambda>c. \<not> is_angle c) ?kept = ?kept"
    by (simp add: is_angle_def map_replicate_const [symmetric])
  ultimately show ?thesis by (simp only: sanitized_chars Let_def if_cancel)
qed

theorem control_characters_test: strips_control_characters_and_caps_length
proof -
  let ?kept = "\<lambda>n. map (\<lambda>c. [c]) (''helloworld'' @ replicate n (CHR ''x''))"
  let ?clean = "\<lambda>n k. sanitize_text (''hello'' @ [CHR 0x07] @ ''world'' @ replicate n (CHR ''x'')) k"
  have "CHR 0x07 \<notin> set (?clean n k)" for n k
  proof -
    have "CHR 0x07 \<notin> set (concat (take k (?kept n)))" using set_take_subset [of k "?kept n"] by auto
    then show ?thesis using sanitized_greeting [of n k] concat_utf8_chars [of "?clean n k"] by metis
  qed
  moreover have "length (utf8_chars (?clean n k)) = k" if "k \<le> n" for n k
    using that by (subst sanitized_greeting) simp
  moreover have "\<not> str_contains [CHR 0x07] w" if "CHR 0x07 \<notin> set w" for w
    using that by (auto simp: str_contains_iff)
  ultimately show ?thesis
    by (simp add: strips_control_characters_and_caps_length_def Let_def max_text_len_def del: append.simps)
qed

theorem script_test: strips_script_tags_defensively
  by (simp add: strips_script_tags_defensively_def sanitize_no_script)

lemma plain_text: "trim ''ok'' \<noteq> []" "trim ''   '' = []"
  by (simp_all add: trim_def char_is_whitespace_def bytes_of_def is_cont_byte_def)

lemma loud_level: "to_ascii_lowercase (trim ''TOTALLY_DEFINITELY_FRAUD'') = ''totally_definitely_fraud''"
  by code_simp

theorem validation_tests: unknown_risk_level_falls_back_to_unspecified empty_summary_is_rejected
  by (simp_all add: unknown_risk_level_falls_back_to_unspecified_def empty_summary_is_rejected_def test_input_def
      validate_and_sanitize_def plain_text loud_level checked_risk_level_def Let_def allowed_risk_levels_def f64_clamp_def)

theorem list_length_test: list_lengths_are_bounded
  by (simp add: list_lengths_are_bounded_def test_input_def validate_and_sanitize_def plain_text max_list_items_def)

section \<open>The client\<close>

definition sample_request :: "uuid \<Rightarrow> advisory_request" where
  "sample_request alert_id =
     \<lparr>aq_alert_id = alert_id, aq_tx_id = ''tx1'', aq_source_account = ''GALICE'',
      aq_movements = [\<lparr>ms_asset = ''native'', ms_amount = ''5000'', ms_from = ''GALICE'', ms_to = ''GBOB''\<rparr>],
      aq_triggered_rules = [], aq_score = 80, aq_severity = High,
      aq_history = \<lparr>hs_recent_transaction_count = 3, hs_baseline_tx_per_hour = 1 / 2, hs_known_asset_count = 2\<rparr>\<rparr>"

definition tool_use_response :: "json \<Rightarrow> json" where
  "tool_use_response inp =
     JObject [(''id'', JString ''msg_1''), (''stop_reason'', JString ''tool_use''),
       (''content'', JArray [JObject [(''type'', JString ''tool_use''), (''id'', JString ''toolu_1''),
          (''name'', JString ''submit_fraud_advisory''), (''input'', inp)]])]"

text \<open>What \<open>Serialize\<close> would write for a \<open>RawAdvisoryInput\<close>, and what the derived \<open>Deserialize\<close> does with it.\<close>

definition raw_json :: "raw_advisory_input \<Rightarrow> json" where
  "raw_json r =
     JObject [(''summary'', JString (ri_summary r)),
       (''suspicious_signals'', JArray (map JString (ri_suspicious_signals r))),
       (''relevant_history'', JString (ri_relevant_history r)), (''risk_level'', JString (ri_risk_level r)),
       (''risk_rationale'', JString (ri_risk_rationale r)),
       (''recommended_next_steps'', JArray (map JString (ri_recommended_next_steps r))),
       (''confidence'', JFloat (ri_confidence r)), (''explanation'', JString (ri_explanation r))]"

definition derived_input_reader :: "(json \<Rightarrow> string + raw_advisory_input) \<Rightarrow> bool" where
  "derived_input_reader parse_raw \<longleftrightarrow>
     (\<forall>r. parse_raw (raw_json r) = Inr r)
     \<and> (\<forall>kvs f. f \<in> set advisory_fields \<and> f \<notin> {''suspicious_signals'', ''recommended_next_steps''} \<and> map_of kvs f = None
          \<longrightarrow> isl (parse_raw (JObject kvs)))"

text \<open>\<open>0.7\<close> is the double nearest to it.\<close>

definition valid_raw :: raw_advisory_input where
  "valid_raw =
     \<lparr>ri_summary = ''Large payment to a new counterparty.'', ri_suspicious_signals = [''large_transfer''],
      ri_relevant_history = ''No prior transactions with this counterparty.'', ri_risk_level = ''elevated'',
      ri_risk_rationale = ''Size and counterparty novelty.'',
      ri_recommended_next_steps = [''Verify counterparty identity''], ri_confidence = rn64 (7 / 10),
      ri_explanation = ''Derived from rule triggers only.''\<rparr>"

definition valid_input :: json where "valid_input = raw_json valid_raw"

text \<open>The client, pointed at the server.\<close>

definition test_advisor :: "crates \<Rightarrow> (json \<Rightarrow> string + raw_advisory_input) \<Rightarrow> string \<Rightarrow> 'a env_scheme ai_advisor" where
  "test_advisor X parse_raw uri = anthropic_investigate X parse_raw (with_base_url (anthropic_new ''test-key'') uri)"

text \<open>A server with one mock for \<open>POST /v1/messages\<close>.\<close>

definition messages_server ::
  "crates \<Rightarrow> string \<Rightarrow> nat \<Rightarrow> json option \<Rightarrow> ('a env_scheme, unit, unit) action \<Rightarrow> ('a env_scheme, unit, unit) action" where
  "messages_server X uri status body = with_server X uri [mock_of ''POST'' ''/v1/messages'' status body]"

definition successful_advisory_is_parsed_and_labeled ::
  "crates \<Rightarrow> (json \<Rightarrow> string + raw_advisory_input) \<Rightarrow> string \<Rightarrow> uuid \<Rightarrow> ('a env_scheme, unit, unit) action" where
  "successful_advisory_is_parsed_and_labeled X parse_raw uri i =
     messages_server X uri 200 (Some (tool_use_response valid_input)) (
     and_then (unwrap (test_advisor X parse_raw uri (sample_request i))) (\<lambda>advisory.
     and_then (assert_that (ra_level (adv_risk_assessment advisory) = ''elevated'')) (\<lambda>_.
     and_then (assert_that (adv_disclaimer advisory = ai_advisory_disclaimer)) (\<lambda>_.
       assert_that (adv_confidence advisory \<le> 1 \<and> adv_confidence advisory \<ge> 0)))))"

definition is_invalid_response :: "advisor_error + 'r \<Rightarrow> bool" where
  "is_invalid_response r = (case r of Inl (AdvInvalidResponse _) \<Rightarrow> True | _ \<Rightarrow> False)"

definition is_provider_error :: "advisor_error + 'r \<Rightarrow> bool" where
  "is_provider_error r = (case r of Inl (AdvProvider _) \<Rightarrow> True | _ \<Rightarrow> False)"

lemma error_kinds: "is_invalid_response (Inl (AdvInvalidResponse m))" "is_provider_error (Inl (AdvProvider m))"
  by (simp_all add: is_invalid_response_def is_provider_error_def)

text \<open>\<open>let result = advisor.investigate(..).await; assert!(matches!(result, Err(..)))\<close>.\<close>

definition rejected_as ::
  "(advisor_error + ai_advisory \<Rightarrow> bool) \<Rightarrow> 'a env_scheme ai_advisor \<Rightarrow> uuid \<Rightarrow> ('a env_scheme, unit, unit) action" where
  "rejected_as kind advisor i = and_then (outcome_of (advisor (sample_request i))) (\<lambda>result. assert_that (kind result))"

definition short_input :: json where "short_input = JObject [(''summary'', JString ''ok'')]"

definition talk_response :: json where
  "talk_response = JObject [(''stop_reason'', JString ''end_turn''),
     (''content'', JArray [JObject [(''type'', JString ''text''), (''text'', JString ''I cannot help with that.'')]])]"

definition refusal_response :: json where
  "refusal_response = JObject [(''stop_reason'', JString ''refusal''), (''content'', JArray [])]"

definition malformed_tool_input_is_rejected_not_stored ::
  "crates \<Rightarrow> (json \<Rightarrow> string + raw_advisory_input) \<Rightarrow> string \<Rightarrow> uuid \<Rightarrow> ('a env_scheme, unit, unit) action" where
  "malformed_tool_input_is_rejected_not_stored X parse_raw uri i =
     messages_server X uri 200 (Some (tool_use_response short_input)) (rejected_as is_invalid_response (test_advisor X parse_raw uri) i)"

definition missing_tool_call_is_treated_as_unavailable ::
  "crates \<Rightarrow> (json \<Rightarrow> string + raw_advisory_input) \<Rightarrow> string \<Rightarrow> uuid \<Rightarrow> ('a env_scheme, unit, unit) action" where
  "missing_tool_call_is_treated_as_unavailable X parse_raw uri i =
     messages_server X uri 200 (Some talk_response) (rejected_as is_invalid_response (test_advisor X parse_raw uri) i)"

definition refusal_stop_reason_is_treated_as_unavailable_not_a_crash ::
  "crates \<Rightarrow> (json \<Rightarrow> string + raw_advisory_input) \<Rightarrow> string \<Rightarrow> uuid \<Rightarrow> ('a env_scheme, unit, unit) action" where
  "refusal_stop_reason_is_treated_as_unavailable_not_a_crash X parse_raw uri i =
     messages_server X uri 200 (Some refusal_response) (rejected_as is_provider_error (test_advisor X parse_raw uri) i)"

definition provider_http_error_does_not_panic ::
  "crates \<Rightarrow> (json \<Rightarrow> string + raw_advisory_input) \<Rightarrow> string \<Rightarrow> uuid \<Rightarrow> ('a env_scheme, unit, unit) action" where
  "provider_http_error_does_not_panic X parse_raw uri i =
     messages_server X uri 500 None (rejected_as is_provider_error (test_advisor X parse_raw uri) i)"

definition null_advisor_always_reports_unavailable :: "uuid \<Rightarrow> ('a env_scheme, unit, unit) action" where
  "null_advisor_always_reports_unavailable = rejected_as (\<lambda>r. r = Inl AdvNotConfigured) null_advisor"

definition json_index :: "json \<Rightarrow> string \<Rightarrow> json" where
  "json_index v k = (case json_get k v of None \<Rightarrow> JNull | Some w \<Rightarrow> w)"

definition tool_schema_for_tests :: json where "tool_schema_for_tests = tool_schema"

definition tool_schema_cannot_express_a_decision_or_status :: bool where
  "tool_schema_cannot_express_a_decision_or_status =
     (case json_index (json_index tool_schema_for_tests ''input_schema'') ''properties'' of
        JObject props \<Rightarrow> list_all (\<lambda>forbidden. forbidden \<notin> set (map fst props))
          [''status'', ''decision'', ''alert_status'', ''approve'', ''reject'', ''freeze'', ''block'']
      | _ \<Rightarrow> False)"

text \<open>What the client returns for the answer of the server.\<close>

lemma test_advisor_reads:
  assumes "env_http s = mock_server X uri [mock_of ''POST'' ''/v1/messages'' status body]"
  shows "\<exists>t. test_advisor X parse_raw uri q s =
    (map_sum id (\<lambda>san. \<lparr>adv_alert_id = aq_alert_id q, adv_generated_at = env_clock s (env_ticks s), adv_summary = sa_summary san,
           adv_suspicious_signals = sa_suspicious_signals san, adv_relevant_history = sa_relevant_history san,
           adv_risk_assessment = sa_risk_assessment san, adv_recommended_next_steps = sa_recommended_next_steps san,
           adv_confidence = sa_confidence san, adv_explanation = sa_explanation san, adv_model = default_model,
           adv_disclaimer = ai_advisory_disclaimer\<rparr>) (read_response X parse_raw (mock_response X status body)), t)"
proof -
  let ?rq = "advisory_http_request X (with_base_url (anthropic_new ''test-key'') uri) q"
  have "mock_answers uri n ?rq (mock_of ''POST'' ''/v1/messages'' status body)" for n
    by (simp add: mock_answers_def mock_of_def advisory_http_request_def with_base_url_def anthropic_new_def url_path_of)
  then have "env_http s n ?rq = Inr (mock_response X status body)" for n
    using assms by (simp add: mock_server_def mock_of_def)
  then show ?thesis
    by (cases "read_response X parse_raw (mock_response X status body)")
      (simp_all add: test_advisor_def anthropic_investigate_def and_then_def map_err_act_def http_send_def utc_now_def
        with_base_url_def anthropic_new_def)
qed

lemma rejected_by_server:
  assumes "read_response X parse_raw (mock_response X status body) = Inl e" "kind (Inl e)"
  shows "passes (messages_server X uri status body (rejected_as kind (test_advisor X parse_raw uri) i)) s"
proof -
  let ?s = "s\<lparr>env_http := mock_server X uri [mock_of ''POST'' ''/v1/messages'' status body], env_sent := []\<rparr>"
  obtain t where "test_advisor X parse_raw uri (sample_request i) ?s = (Inl e, t)"
    using test_advisor_reads [of ?s X uri status body parse_raw "sample_request i"] assms(1) by auto
  then show ?thesis using assms(2)
    by (simp add: messages_server_def rejected_as_def passes_outcome)
qed

theorem parsed_and_labeled_test:
  assumes "derived_input_reader parse_raw"
  shows "passes (successful_advisory_is_parsed_and_labeled X parse_raw uri i) s"
proof -
  let ?s = "s\<lparr>env_http := mock_server X uri [mock_of ''POST'' ''/v1/messages'' 200 (Some (tool_use_response valid_input))], env_sent := []\<rparr>"
  have "trim (ri_summary valid_raw) \<noteq> []" "checked_risk_level ''elevated'' = ''elevated''"
    by (simp_all add: valid_raw_def trim_def char_is_whitespace_def bytes_of_def is_cont_byte_def checked_risk_level_def
        to_ascii_lowercase_def ascii_lower_char_def allowed_risk_levels_def)
  then obtain san where "validate_and_sanitize valid_raw = Inr san" "ra_level (sa_risk_assessment san) = ''elevated''"
    by (simp add: validate_and_sanitize_def) (simp add: valid_raw_def)
  moreover have "parse_raw valid_input = Inr valid_raw"
    using assms by (simp add: derived_input_reader_def valid_input_def)
  ultimately have san: "read_response X parse_raw (mock_response X 200 (Some (tool_use_response valid_input))) = Inr san"
    "ra_level (sa_risk_assessment san) = ''elevated''" "advisory_within_bounds san"
    by (auto simp: read_response_def mock_response_def is_success_def tool_input_def tool_use_response_def json_str_field_def
        json_get_def json_as_str_def json_as_array_def is_advisory_call_def tool_name_def validated_bounds)
  obtain t where "test_advisor X parse_raw uri (sample_request i) ?s = (Inr
      \<lparr>adv_alert_id = i, adv_generated_at = env_clock s (env_ticks s), adv_summary = sa_summary san,
           adv_suspicious_signals = sa_suspicious_signals san, adv_relevant_history = sa_relevant_history san,
           adv_risk_assessment = sa_risk_assessment san, adv_recommended_next_steps = sa_recommended_next_steps san,
           adv_confidence = sa_confidence san, adv_explanation = sa_explanation san, adv_model = default_model,
           adv_disclaimer = ai_advisory_disclaimer\<rparr>, t)"
    using test_advisor_reads [of ?s X uri 200 "Some (tool_use_response valid_input)" parse_raw "sample_request i"] san(1)
    by (auto simp: sample_request_def)
  then show ?thesis using san(2,3)
    by (simp add: successful_advisory_is_parsed_and_labeled_def messages_server_def passes_unwrap advisory_within_bounds_def)
qed

theorem rejection_tests:
  "derived_input_reader parse_raw \<Longrightarrow> passes (malformed_tool_input_is_rejected_not_stored X parse_raw uri i) s"
  "passes (missing_tool_call_is_treated_as_unavailable X parse_raw uri i) s"
  "passes (refusal_stop_reason_is_treated_as_unavailable_not_a_crash X parse_raw uri i) s"
  "passes (provider_http_error_does_not_panic X parse_raw uri i) s"
proof -
  note read = read_response_def mock_response_def is_success_def tool_input_def json_str_field_def json_get_def
    json_as_str_def json_as_array_def is_advisory_call_def tool_name_def
  show "passes (malformed_tool_input_is_rejected_not_stored X parse_raw uri i) s" if "derived_input_reader parse_raw"
  proof -
    have "isl (parse_raw short_input)"
      using that unfolding derived_input_reader_def short_input_def
      by (elim conjE allE [of _ "[(''summary'', JString ''ok'')]"] allE [of _ "''relevant_history''"])
        (simp add: advisory_fields_def)
    then obtain e where "parse_raw short_input = Inl e" by (auto simp: isl_def)
    then have "read_response X parse_raw (mock_response X 200 (Some (tool_use_response short_input))) =
        Inl (AdvInvalidResponse (''malformed tool input: '' @ e))"
      by (simp add: read tool_use_response_def)
    then show ?thesis unfolding malformed_tool_input_is_rejected_not_stored_def
      by (rule rejected_by_server) (rule error_kinds)
  qed
  show "passes (missing_tool_call_is_treated_as_unavailable X parse_raw uri i) s"
    unfolding missing_tool_call_is_treated_as_unavailable_def
    by (rule rejected_by_server) (simp add: read talk_response_def, rule error_kinds)
  show "passes (refusal_stop_reason_is_treated_as_unavailable_not_a_crash X parse_raw uri i) s"
    unfolding refusal_stop_reason_is_treated_as_unavailable_not_a_crash_def
    by (rule rejected_by_server) (simp add: read refusal_response_def, rule error_kinds)
  show "passes (provider_http_error_does_not_panic X parse_raw uri i) s"
    unfolding provider_http_error_does_not_panic_def
    by (rule rejected_by_server) (simp add: read, rule error_kinds)
qed

theorem null_advisor_test: "passes (null_advisor_always_reports_unavailable i) s"
  by (simp add: null_advisor_always_reports_unavailable_def rejected_as_def null_advisor_def passes_outcome [OF err_simp])

theorem tool_schema_test: tool_schema_cannot_express_a_decision_or_status
  by (simp add: tool_schema_cannot_express_a_decision_or_status_def tool_schema_for_tests_def tool_schema_def
      json_index_def json_get_def)

end
