(* ===== verification/TestsAnchor.thy ===== *)
theory TestsAnchor
  imports Anchor TestKit
begin

text \<open>
  The tests of \<open>soroban_anchor\<close> and its contract. The client that the SDK generates panics on a
  refused call; its \<open>try_\<close> form returns the outcome. \<open>mock_all_auths\<close> gives every authorisation.
\<close>

section \<open>The contract\<close>

definition client :: "(contract_state \<Rightarrow> 'r invocation \<times> contract_state) \<Rightarrow> (contract_state, unit, 'r) action" where
  "client call s =
     (case call s of
        (Returned r, t) \<Rightarrow> (Inr r, t)
      | (_, t) \<Rightarrow> (Inl (), t))"

definition contract_setup :: "address \<Rightarrow> (contract_state, unit, unit) action" where
  "contract_setup admin = (\<lambda>_. client (initialize admin) deployed)"

definition anchors_and_reads_back_a_decision_commitment :: "address \<Rightarrow> 64 word \<Rightarrow> (contract_state, unit, unit) action" where
  "anchors_and_reads_back_a_decision_commitment admin now =
     (let alert_id_hash = replicate 32 (CHR 0x01); decision_hash = replicate 32 (CHR 0x02) in
      and_then (contract_setup admin) (\<lambda>_.
      and_then (client (anchor_call [admin] now alert_id_hash decision_hash)) (\<lambda>ts s.
        and_then (unwrap_some (get_anchor alert_id_hash s)) (\<lambda>stored.
        and_then (assert_that (an_decision_hash stored = decision_hash)) (\<lambda>_.
          assert_that (an_timestamp stored = ts))) s)))"

definition a_later_decision_overwrites_the_anchor_for_the_same_alert ::
  "address \<Rightarrow> 64 word \<Rightarrow> (contract_state, unit, unit) action" where
  "a_later_decision_overwrites_the_anchor_for_the_same_alert admin now =
     (let alert_id_hash = replicate 32 (CHR 0x09); first = replicate 32 (CHR 0x01); second = replicate 32 (CHR 0x02) in
      and_then (contract_setup admin) (\<lambda>_.
      and_then (client (anchor_call [admin] now alert_id_hash first)) (\<lambda>_.
      and_then (client (anchor_call [admin] now alert_id_hash second)) (\<lambda>_ s.
        and_then (unwrap_some (get_anchor alert_id_hash s)) (\<lambda>stored.
          assert_that (an_decision_hash stored = second)) s))))"

definition unanchored_alert_returns_none :: "address \<Rightarrow> (contract_state, unit, unit) action" where
  "unanchored_alert_returns_none admin =
     and_then (contract_setup admin) (\<lambda>_ s. assert_that (get_anchor (replicate 32 (CHR 0x07)) s = None) s)"

definition double_initialize_fails :: "address \<Rightarrow> (contract_state, unit, unit) action" where
  "double_initialize_fails admin =
     and_then (contract_setup admin) (\<lambda>_.
     and_then (outcome_of (client (initialize admin))) (\<lambda>result. assert_that (isl result)))"

theorem contract_tests:
  "passes (anchors_and_reads_back_a_decision_commitment admin now) s"
  "passes (a_later_decision_overwrites_the_anchor_for_the_same_alert admin now) s"
  "passes (unanchored_alert_returns_none admin) s"
  "passes (double_initialize_fails admin) s"
  by (simp_all add: anchors_and_reads_back_a_decision_commitment_def
      a_later_decision_overwrites_the_anchor_for_the_same_alert_def unanchored_alert_returns_none_def
      double_initialize_fails_def contract_setup_def client_def initialize_def deployed_def anchor_call_def get_anchor_def
      and_then_def passes_def unwrap_some_def assert_that_def outcome_of_def Let_def)

section \<open>Commitments and anchors\<close>

definition decision_hash_is_deterministic :: "crates \<Rightarrow> uuid \<Rightarrow> datetime \<Rightarrow> bool" where
  "decision_hash_is_deterministic X alert_id created_at =
     (let a = hash_decision X alert_id ''inv-1'' ''escalated'' ''needs review'' created_at;
          b = hash_decision X alert_id ''inv-1'' ''escalated'' ''needs review'' created_at
      in a = b)"

definition decision_hash_changes_with_any_field :: "crates \<Rightarrow> uuid \<Rightarrow> datetime \<Rightarrow> bool" where
  "decision_hash_changes_with_any_field X alert_id created_at =
     (let base = hash_decision X alert_id ''inv-1'' ''escalated'' ''needs review'' created_at;
          different_rationale = hash_decision X alert_id ''inv-1'' ''escalated'' ''different reason'' created_at
      in base \<noteq> None \<and> different_rationale \<noteq> None \<and> base \<noteq> different_rationale)"

definition build_args_shape_matches_stellar_cli_invoke_syntax :: bool where
  "build_args_shape_matches_stellar_cli_invoke_syntax =
     (let anchor = cli_new ''CCONTRACT'' ''testnet'' ''GADMIN'';
          args = build_args anchor (concat (replicate 32 ''aa'')) (concat (replicate 32 ''bb''))
      in args ! 0 = ''contract'' \<and> args ! 1 = ''invoke'' \<and> args ! 3 = ''CCONTRACT'' \<and> args ! 5 = ''GADMIN''
         \<and> args ! 7 = ''testnet'' \<and> args ! 8 = ''--'' \<and> args ! 9 = ''anchor'')"

definition noop_anchor_always_reports_not_configured_and_never_panics :: "('a env_scheme, unit, unit) action" where
  "noop_anchor_always_reports_not_configured_and_never_panics =
     and_then new_uuid (\<lambda>i.
     and_then (outcome_of (noop_anchor i (replicate 32 (CHR 0x00)))) (\<lambda>result.
       assert_that (result = Inl AncNotConfigured)))"

theorem commitment_tests:
  "decision_hash_is_deterministic X i t"
  "isl (cr_json X (canonical_decision X i ''inv-1'' ''escalated'' ''needs review'' t)) = False \<Longrightarrow>
   isl (cr_json X (canonical_decision X i ''inv-1'' ''escalated'' ''different reason'' t)) = False \<Longrightarrow>
   decision_hash_changes_with_any_field X i t
   \<or> json_collision X (canonical_decision X i ''inv-1'' ''escalated'' ''needs review'' t)
       (canonical_decision X i ''inv-1'' ''escalated'' ''different reason'' t)"
  by (auto simp: decision_hash_is_deterministic_def decision_hash_changes_with_any_field_def json_collision_def
      hash_decision_def canonical_decision_def split: sum.splits)

theorem build_args_test: build_args_shape_matches_stellar_cli_invoke_syntax
  by (simp add: build_args_shape_matches_stellar_cli_invoke_syntax_def build_args_def cli_new_def Let_def)

theorem noop_test: "passes noop_anchor_always_reports_not_configured_and_never_panics s"
  by (simp add: noop_anchor_always_reports_not_configured_and_never_panics_def noop_anchor_def
      new_uuid_def passes_def and_then_def outcome_of_def assert_that_def)

end
