(* ===== verification/TestsReview.thy ===== *)
theory TestsReview
  imports DetectProps TestKit
begin

text \<open>
  The tests of the crates \<open>audit\<close> (\<open>lib.rs\<close> and \<open>store.rs\<close>) and \<open>alerts\<close>, which run on the in-memory
  stores. They hold for any clock and any identifiers; of the third-party functions they rely on
  \<open>serde_json\<close> writing events and objects.
\<close>

section \<open>Appending to the in-memory log\<close>

lemma event_written:
  assumes "codecs_ok X"
  obtains e where "event_text X ev = Inr e" "to_text (cr_event X) ev = Inr e"
proof -
  have "codec_readable (cr_event X)" using assms by (simp add: codecs_ok_def)
  from codec_readableE [OF this] that show ?thesis by (metis event_text_def map_err_simps(2))
qed

lemma mem_append_succeeds:
  assumes "codecs_ok X" "json_writes X"
  obtains r where
    "mem_append X ev s = (Inr r, s\<lparr>env_ticks := Suc (env_ticks s), env_uuids := Suc (env_uuids s), am_records := am_records s @ [r]\<rparr>)"
    "ar_alert_id r = ne_alert_id ev" "ar_tx_id r = ne_tx_id ev" "ar_event r = ne_event ev"
    "to_text (cr_event X) (ne_event ev) = Inr (ar_event_json r)" "ar_sequence r = int (length (am_records s))"
    "ar_prev_hash r = last_hash (mem_log s)" "digest X (canonical_entry X (entry_of r)) = Inr (ar_hash r)"
proof -
  obtain e where e: "event_text X (ne_event ev) = Inr e" using event_written [OF assms(1)] by blast
  have "\<exists>h. compute_hash X p n a t e c = Inr h" for p n a t c
    using assms(2) by (auto simp: compute_hash_def digest_def json_writes_def split: sum.split) (metis sum.distinct(1))
  then obtain g where g: "compute_hash X p n a t e c = Inr (g p n a t c)" for p n a t c by metis
  obtain r where run: "mem_append X ev s = (Inr r, s\<lparr>env_ticks := Suc (env_ticks s), env_uuids := Suc (env_uuids s), am_records := am_records s @ [r]\<rparr>)"
    by (simp add: mem_append_def Let_def e g)
  from that [OF run] mem_append_Inr [OF run] show ?thesis by (simp add: records_event_def)
qed

section \<open>The tests of the log\<close>

text \<open>\<open>InMemoryAuditStore::new()\<close>.\<close>

definition with_new_store :: "('a audit_mem_scheme, unit, unit) action \<Rightarrow> ('a audit_mem_scheme, unit, unit) action" where
  "with_new_store t s = t (s\<lparr>am_records := []\<rparr>)"

definition decision_event :: "decision \<Rightarrow> string \<Rightarrow> audit_event_kind" where
  "decision_event d rationale = InvestigatorDecision ''inv1'' d rationale Open"

definition append_only_chain_is_valid_and_ordered :: "crates \<Rightarrow> ('a audit_mem_scheme, unit, unit) action" where
  "append_only_chain_is_valid_and_ordered X =
     with_new_store (
     and_then new_uuid (\<lambda>alert_id.
     and_then (unwrap (mem_append X
       (for_tx (for_alert (new_event (AlertCreated ''tx1'' [''large_transfer''] High 82)) alert_id) ''tx1''))) (\<lambda>_.
     and_then (unwrap (mem_append X
       (for_alert (new_event (decision_event UnderInvestigation ''looking into it'')) alert_id))) (\<lambda>_.
     and_then (unwrap (mem_list_for_alert alert_id)) (\<lambda>records.
     and_then (assert_that (length records = 2)) (\<lambda>_.
     and_then (assert_that (ar_sequence (records ! 0) = 0)) (\<lambda>_.
     and_then (assert_that (ar_sequence (records ! 1) = 1)) (\<lambda>_.
     and_then (assert_that (ar_prev_hash (records ! 1) = ar_hash (records ! 0))) (\<lambda>_.
     and_then (unwrap (mem_verify_chain X)) (\<lambda>verification.
     and_then (assert_that (cv_valid verification)) (\<lambda>_.
       assert_that (cv_records_checked verification = 2))))))))))))"

definition changing_a_decision_appends_rather_than_overwrites :: "crates \<Rightarrow> ('a audit_mem_scheme, unit, unit) action" where
  "changing_a_decision_appends_rather_than_overwrites X =
     with_new_store (
     and_then new_uuid (\<lambda>alert_id.
     and_then (unwrap (mem_append X (for_alert (new_event (decision_event UnderInvestigation ''updated assessment'')) alert_id))) (\<lambda>_.
     and_then (unwrap (mem_append X (for_alert (new_event (decision_event Escalated ''updated assessment'')) alert_id))) (\<lambda>_.
     and_then (unwrap (mem_list_for_alert alert_id)) (\<lambda>records.
       assert_that (length records = 2))))))"

text \<open>\<open>str::replace\<close> for a non-empty pattern, and the edit of the first record.\<close>

fun replace_text :: "string \<Rightarrow> string \<Rightarrow> string \<Rightarrow> string" where
  "replace_text p r [] = []"
| "replace_text p r (c # s) =
     (if starts_with p (c # s) then r @ replace_text p r (drop (length p - 1) s) else c # replace_text p r s)"

definition with_zero_score :: "audit_event_kind \<Rightarrow> audit_event_kind" where
  "with_zero_score e = (case e of AlertCreated t rules sev _ \<Rightarrow> AlertCreated t rules sev 0 | _ \<Rightarrow> e)"

definition tampered :: "audit_record \<Rightarrow> audit_record" where
  "tampered r = r\<lparr>ar_event_json := replace_text ''55.0'' ''0.0'' (ar_event_json r), ar_event := with_zero_score (ar_event r)\<rparr>"

definition scored_event :: audit_event_kind where
  "scored_event = AlertCreated ''tx1'' [''velocity''] Medium 55"

definition tampering_with_a_record_breaks_verification :: "crates \<Rightarrow> ('a audit_mem_scheme, unit, unit) action" where
  "tampering_with_a_record_breaks_verification X =
     with_new_store (
     and_then (unwrap (mem_append X (new_event scored_event))) (\<lambda>_.
     and_then (unwrap (mem_append X (new_event (AiAdvisoryUnavailable ''timeout'')))) (\<lambda>_.
     and_then (unwrap (mem_verify_chain X)) (\<lambda>before.
     and_then (assert_that (cv_valid before)) (\<lambda>_.
     and_then (\<lambda>s. (Inr (), s\<lparr>am_records := (am_records s)[0 := tampered (am_records s ! 0)]\<rparr>)) (\<lambda>_.
     and_then (unwrap (mem_verify_chain X)) (\<lambda>verification.
     and_then (assert_that (\<not> cv_valid verification)) (\<lambda>_.
       assert_that (cv_broken_at_sequence verification = Some 0)))))))))"

lemma mem_reads:
  "mem_list_for_alert a s = (Inr (filter (\<lambda>r. ar_alert_id r = Some a) (am_records s)), s)"
  "mem_verify_chain X s = (Inr (verify_chain X (am_records s)), s)"
  by (simp_all add: mem_list_for_alert_def mem_verify_chain_def)

lemma two_records_verify:
  assumes "ar_prev_hash q = genesis_hash" "digest X (canonical_entry X (entry_of q)) = Inr (ar_hash q)"
    "ar_prev_hash r = ar_hash q" "digest X (canonical_entry X (entry_of r)) = Inr (ar_hash r)"
  shows "verify_chain X [q, r] = \<lparr>cv_valid = True, cv_records_checked = 2, cv_broken_at_sequence = None, cv_detail = None\<rparr>"
  using assms verify_chain_linked [of X "[q, r]"] by simp

text \<open>Two events written to a new store.\<close>

lemma two_appends:
  assumes "codecs_ok X" "json_writes X" "am_records s = []"
  obtains q r where
    "mem_append X e1 s = (Inr q, s\<lparr>env_ticks := Suc (env_ticks s), env_uuids := Suc (env_uuids s), am_records := [q]\<rparr>)"
    "mem_append X e2 (s\<lparr>env_ticks := Suc (env_ticks s), env_uuids := Suc (env_uuids s), am_records := [q]\<rparr>)
       = (Inr r, s\<lparr>env_ticks := Suc (Suc (env_ticks s)), env_uuids := Suc (Suc (env_uuids s)), am_records := [q, r]\<rparr>)"
    "ar_alert_id q = ne_alert_id e1" "ar_alert_id r = ne_alert_id e2"
    "to_text (cr_event X) (ne_event e1) = Inr (ar_event_json q)"
    "ar_sequence q = 0" "ar_sequence r = 1" "ar_prev_hash q = genesis_hash" "ar_prev_hash r = ar_hash q"
    "digest X (canonical_entry X (entry_of q)) = Inr (ar_hash q)"
    "verify_chain X [q, r] = \<lparr>cv_valid = True, cv_records_checked = 2, cv_broken_at_sequence = None, cv_detail = None\<rparr>"
proof -
  obtain q where q: "mem_append X e1 s = (Inr q, s\<lparr>env_ticks := Suc (env_ticks s), env_uuids := Suc (env_uuids s), am_records := am_records s @ [q]\<rparr>)"
    "ar_alert_id q = ne_alert_id e1" "to_text (cr_event X) (ne_event e1) = Inr (ar_event_json q)"
    "ar_sequence q = int (length (am_records s))" "ar_prev_hash q = last_hash (mem_log s)"
    "digest X (canonical_entry X (entry_of q)) = Inr (ar_hash q)"
    by (rule mem_append_succeeds [OF assms(1,2)])
  let ?t = "s\<lparr>env_ticks := Suc (env_ticks s), env_uuids := Suc (env_uuids s), am_records := [q]\<rparr>"
  obtain r where r: "mem_append X e2 ?t = (Inr r, ?t\<lparr>env_ticks := Suc (env_ticks ?t), env_uuids := Suc (env_uuids ?t), am_records := am_records ?t @ [r]\<rparr>)"
    "ar_alert_id r = ne_alert_id e2" "ar_sequence r = int (length (am_records ?t))" "ar_prev_hash r = last_hash (mem_log ?t)"
    "digest X (canonical_entry X (entry_of r)) = Inr (ar_hash r)"
    by (rule mem_append_succeeds [OF assms(1,2)])
  have qr: "ar_prev_hash q = genesis_hash" "ar_prev_hash r = ar_hash q"
    using q(5) r(4) assms(3) by (simp_all add: last_hash_def mem_log_def)
  show ?thesis
    by (rule that [OF _ _ q(2) r(2) q(3) _ _ qr q(6) two_records_verify [OF qr(1) q(6) qr(2) r(5)]])
      (use q(1,4) r(1,3) assms(3) in simp_all)
qed

lemmas event_fields = new_event_def for_alert_def for_tx_def

lemmas run_test = with_new_store_def passes_def mem_reads unwrap_def map_err_act_def and_then_def new_uuid_def assert_that_def

theorem chain_test:
  assumes "codecs_ok X" "json_writes X"
  shows "passes (append_only_chain_is_valid_and_ordered X) s"
  by (rule two_appends [OF assms, of "s\<lparr>am_records := [], env_uuids := Suc (env_uuids s)\<rparr>"
        "for_tx (for_alert (new_event (AlertCreated ''tx1'' [''large_transfer''] High 82)) (env_uuid_src s (env_uuids s))) ''tx1''"
        "for_alert (new_event (decision_event UnderInvestigation ''looking into it'')) (env_uuid_src s (env_uuids s))"])
    (simp_all add: append_only_chain_is_valid_and_ordered_def run_test event_fields)

theorem changing_decision_test:
  assumes "codecs_ok X" "json_writes X"
  shows "passes (changing_a_decision_appends_rather_than_overwrites X) s"
  by (rule two_appends [OF assms, of "s\<lparr>am_records := [], env_uuids := Suc (env_uuids s)\<rparr>"
        "for_alert (new_event (decision_event UnderInvestigation ''updated assessment'')) (env_uuid_src s (env_uuids s))"
        "for_alert (new_event (decision_event Escalated ''updated assessment'')) (env_uuid_src s (env_uuids s))"])
    (simp_all add: changing_a_decision_appends_rather_than_overwrites_def run_test event_fields)

text \<open>The replacement is visible: the text gets shorter where the pattern occurs.\<close>

lemma replace_text_length: "length r \<le> length p \<Longrightarrow> length (replace_text p r s) \<le> length s"
proof (induction p r s rule: replace_text.induct)
  case (2 p r c s)
  show ?case
  proof (cases "starts_with p (c # s)")
    case True
    then have "length p \<le> Suc (length s)" by (auto simp: starts_with_def dest: arg_cong [of _ _ length])
    then show ?thesis using 2 True by (cases p) (simp_all add: starts_with_def)
  qed (use 2 in simp)
qed simp

lemma replace_text_shorter:
  "length r < length p \<Longrightarrow> str_contains p s \<Longrightarrow> length (replace_text p r s) < length s"
proof (induction p r s rule: replace_text.induct)
  case (2 p r c s)
  show ?case
  proof (cases "starts_with p (c # s)")
    case True
    then have "length p \<le> Suc (length s)" by (auto simp: starts_with_def dest: arg_cong [of _ _ length])
    then show ?thesis using 2(3) True replace_text_length [of r p "drop (length p - 1) s"] by (cases p) auto
  next
    case False
    then show ?thesis using 2 by (simp add: str_contains.simps [of p "c # s"])
  qed
qed (auto simp: str_contains_iff)

text \<open>
  Tampering is found, when \<open>serde_json\<close> writes the score as \<open>55.0\<close>, unless the two canonical objects are
  a collision of the digest.
\<close>

lemma tampered_fields:
  "ar_prev_hash (tampered q) = ar_prev_hash q" "ar_sequence (tampered q) = ar_sequence q" "ar_hash (tampered q) = ar_hash q"
  "ar_event_json (tampered q) = replace_text ''55.0'' ''0.0'' (ar_event_json q)"
  by (simp_all add: tampered_def del: replace_text.simps)

lemma tampered_breaks:
  assumes "json_writes X" "str_contains ''55.0'' (ar_event_json q)"
    and "ar_sequence q = 0" "ar_prev_hash q = genesis_hash" "digest X (canonical_entry X (entry_of q)) = Inr (ar_hash q)"
    and no_collision: "\<not> (\<exists>e f. canonical_entry X e \<noteq> canonical_entry X f \<and> digest X (canonical_entry X e) = digest X (canonical_entry X f))"
  shows "\<not> cv_valid (verify_chain X [tampered q, r])" "cv_broken_at_sequence (verify_chain X [tampered q, r]) = Some 0"
proof -
  let ?q = "tampered q"
  have "ar_event_json ?q \<noteq> ar_event_json q"
    using replace_text_shorter [OF _ assms(2), of "''0.0''"] tampered_fields(4) [of q] by force
  then have "canonical_entry X (entry_of ?q) \<noteq> canonical_entry X (entry_of q)"
    by (simp add: canonical_entry_def canonical_record_def)
  then have no: "digest X (canonical_entry X (entry_of ?q)) \<noteq> Inr (ar_hash q)"
    using no_collision assms(5) by metis
  obtain b where "cr_json X (canonical_entry X (entry_of ?q)) = Inr b"
    using assms(1) unfolding json_writes_def by blast
  with no obtain h where "digest X (canonical_entry X (entry_of ?q)) = Inr h" "h \<noteq> ar_hash q"
    by (auto simp: digest_def)
  then have "compute_hash X (ar_prev_hash ?q) (ar_sequence ?q) (ar_alert_id ?q) (ar_tx_id ?q) (ar_event_json ?q) (ar_created_at ?q) = Inr h"
    "h \<noteq> ar_hash ?q" by (simp_all add: compute_hash_def canonical_entry_def tampered_fields(3))
  then show "\<not> cv_valid (verify_chain X [?q, r])" "cv_broken_at_sequence (verify_chain X [?q, r]) = Some 0"
    using assms(3,4) by (simp_all add: verify_chain_def tampered_fields(1,2))
qed

theorem tampering_test:
  assumes "codecs_ok X" "json_writes X"
    and "\<And>e. to_text (cr_event X) scored_event = Inr e \<Longrightarrow> str_contains ''55.0'' e"
    and "\<not> (\<exists>e f. canonical_entry X e \<noteq> canonical_entry X f \<and> digest X (canonical_entry X e) = digest X (canonical_entry X f))"
  shows "passes (tampering_with_a_record_breaks_verification X) s"
proof (rule two_appends [OF assms(1,2), of "s\<lparr>am_records := []\<rparr>" "new_event scored_event" "new_event (AiAdvisoryUnavailable ''timeout'')"],
    goal_cases)
  case (2 q r)
  have "ne_event (new_event scored_event) = scored_event" by (simp add: new_event_def)
  with 2(5) have "str_contains ''55.0'' (ar_event_json q)" using assms(3) by metis
  note broken = tampered_breaks [OF assms(2) this 2(6,8,10) assms(4), of r]
  show ?case using 2(1,2) 2(11) broken
    by (simp add: tampering_with_a_record_breaks_verification_def run_test)
qed simp

section \<open>The tests of the alert service\<close>

text \<open>\<open>service()\<close>: both in-memory stores, empty.\<close>

definition test_service :: "crates \<Rightarrow> 'a memory_scheme alert_service" where
  "test_service X = \<lparr>svc_store = mem_alert_ops, svc_audit = mem_audit_ops X\<rparr>"

definition with_new_stores :: "('a memory_scheme, unit, unit) action \<Rightarrow> ('a memory_scheme, unit, unit) action" where
  "with_new_stores t s = t (s\<lparr>am_records := [], mm_alerts := [], mm_decisions := []\<rparr>)"

definition test_alert :: "account_id list \<Rightarrow> asset list \<Rightarrow> f64 \<Rightarrow> severity \<Rightarrow> new_alert" where
  "test_alert accounts assets score sev =
     \<lparr>na_tx_id = ''tx1'', na_accounts = accounts, na_assets = assets, na_triggered_rules = [], na_score = score, na_severity = sev\<rparr>"

text \<open>\<open>0.6\<close> is the single-precision number nearest to it.\<close>

definition sample_advisory :: "uuid \<Rightarrow> datetime \<Rightarrow> ai_advisory" where
  "sample_advisory alert_id now =
     \<lparr>adv_alert_id = alert_id, adv_generated_at = now, adv_summary = ''Large payment to a new counterparty.'',
      adv_suspicious_signals = [''large_transfer''],
      adv_relevant_history = ''No prior transactions with this counterparty.'',
      adv_risk_assessment = \<lparr>ra_level = ''elevated'', ra_rationale = ''size + novelty''\<rparr>,
      adv_recommended_next_steps = [''Verify counterparty identity''], adv_confidence = rn32 (3 / 5),
      adv_explanation = ''Based on rule triggers only.'', adv_model = ''test-model'', adv_disclaimer = ai_advisory_disclaimer\<rparr>"

definition is_ready :: "ai_advisory_status \<Rightarrow> bool" where
  "is_ready st = (case st of Ready _ \<Rightarrow> True | _ \<Rightarrow> False)"

definition is_unavailable :: "ai_advisory_status \<Rightarrow> bool" where
  "is_unavailable st = (case st of Unavailable _ _ \<Rightarrow> True | _ \<Rightarrow> False)"

definition reload :: "crates \<Rightarrow> uuid \<Rightarrow> ('a memory_scheme, unit, alert) action" where
  "reload X i = and_then (unwrap (get_alert (test_service X) i)) unwrap_some"

definition new_alert_starts_open_with_pending_ai_status :: "crates \<Rightarrow> ('a memory_scheme, unit, unit) action" where
  "new_alert_starts_open_with_pending_ai_status X =
     with_new_stores (
     and_then (unwrap (create_alert (test_service X) (test_alert [''GALICE''] [asset_native] 10 Low))) (\<lambda>a.
     and_then (assert_that (al_status a = Open)) (\<lambda>_.
       assert_that (al_ai_status a = Pending))))"

definition ai_advisory_never_changes_alert_status :: "crates \<Rightarrow> ('a memory_scheme, unit, unit) action" where
  "ai_advisory_never_changes_alert_status X =
     with_new_stores (
     and_then (unwrap (create_alert (test_service X) (test_alert [''GALICE''] [] 90 Critical))) (\<lambda>a.
     and_then utc_now (\<lambda>now.
     let advisory = (sample_advisory (al_id a) now)\<lparr>adv_risk_assessment :=
           (adv_risk_assessment (sample_advisory (al_id a) now))\<lparr>ra_level := ''confirmed_suspicious''\<rparr>\<rparr> in
     and_then (unwrap (record_ai_advisory (test_service X) (al_id a) (al_tx_id a) advisory)) (\<lambda>_.
     and_then (reload X (al_id a)) (\<lambda>reloaded.
     and_then (assert_that (al_status reloaded = Open)) (\<lambda>_.
       assert_that (is_ready (al_ai_status reloaded))))))))"

definition is_decision_event :: "audit_record \<Rightarrow> bool" where
  "is_decision_event r = (case ar_event r of InvestigatorDecision _ _ _ _ \<Rightarrow> True | _ \<Rightarrow> False)"

definition is_created_event :: "audit_record \<Rightarrow> bool" where
  "is_created_event r = (case ar_event r of AlertCreated _ _ _ _ \<Rightarrow> True | _ \<Rightarrow> False)"

definition only_submit_decision_changes_status_and_it_appends_history :: "crates \<Rightarrow> ('a memory_scheme, unit, unit) action" where
  "only_submit_decision_changes_status_and_it_appends_history X =
     with_new_stores (
     and_then (unwrap (create_alert (test_service X) (test_alert [] [] 50 Medium))) (\<lambda>a.
     and_then (unwrap (submit_decision X (test_service X) (al_id a) ''inv-1'' UnderInvestigation ''checking'')) (\<lambda>_.
     and_then (reload X (al_id a)) (\<lambda>after_first.
     and_then (assert_that (al_status after_first = alert_status.UnderInvestigation)) (\<lambda>_.
     and_then (unwrap (submit_decision X (test_service X) (al_id a) ''inv-2'' ConfirmedSuspicious ''confirmed via off-chain check'')) (\<lambda>_.
     and_then (reload X (al_id a)) (\<lambda>after_second.
     and_then (assert_that (al_status after_second = alert_status.ConfirmedSuspicious)) (\<lambda>_.
     and_then (unwrap (decision_history (test_service X) (al_id a))) (\<lambda>history.
     and_then (assert_that (length history = 2)) (\<lambda>_.
     and_then (assert_that (dr_decision (history ! 0) = UnderInvestigation)) (\<lambda>_.
     and_then (assert_that (dr_decision (history ! 1) = ConfirmedSuspicious)) (\<lambda>_.
     and_then (unwrap (audit_history (test_service X) (al_id a))) (\<lambda>audit_trail.
     and_then (assert_that (list_ex is_created_event audit_trail)) (\<lambda>_.
       assert_that (length (filter is_decision_event audit_trail) = 2)))))))))))))))"

definition unavailable_ai_advisory_does_not_block_alert_creation_or_review :: "crates \<Rightarrow> ('a memory_scheme, unit, unit) action" where
  "unavailable_ai_advisory_does_not_block_alert_creation_or_review X =
     with_new_stores (
     and_then (unwrap (create_alert (test_service X) (test_alert [] [] 20 Low))) (\<lambda>a.
     and_then (unwrap (record_ai_unavailable (test_service X) (al_id a) (al_tx_id a) ''AI provider timed out'')) (\<lambda>_.
     and_then (reload X (al_id a)) (\<lambda>reloaded.
     and_then (assert_that (is_unavailable (al_ai_status reloaded))) (\<lambda>_.
     and_then (unwrap (submit_decision X (test_service X) (al_id a) ''inv-1'' Dismissed ''false positive, verified manually'')) (\<lambda>_.
     and_then (reload X (al_id a)) (\<lambda>decided.
       assert_that (al_status decided = alert_status.Dismissed))))))))"

lemma mem_log_event:
  assumes "codecs_ok X" "json_writes X"
  obtains r where "log_event (test_service X) ev s = (Inr r, s\<lparr>env_ticks := Suc (env_ticks s), env_uuids := Suc (env_uuids s), am_records := am_records s @ [r]\<rparr>)"
    "ar_alert_id r = ne_alert_id ev" "ar_event r = ne_event ev"
  by (rule mem_append_succeeds [OF assms, of ev s]) (simp add: log_event_def test_service_def map_err_act_def)

lemma mem_create:
  assumes "codecs_ok X" "json_writes X"
  obtains r where "create_alert (test_service X) na s = (Inr (opened_alert (env_uuid_src s (env_uuids s)) (env_clock s (env_ticks s)) na),
      s\<lparr>env_uuids := Suc (Suc (env_uuids s)), env_ticks := Suc (Suc (env_ticks s)), am_records := am_records s @ [r],
        mm_alerts := AList.update (env_uuid_src s (env_uuids s)) (opened_alert (env_uuid_src s (env_uuids s)) (env_clock s (env_ticks s)) na) (mm_alerts s)\<rparr>)"
    "ar_alert_id r = Some (env_uuid_src s (env_uuids s))" "is_created_event r" "\<not> is_decision_event r"
proof -
  let ?a = "opened_alert (env_uuid_src s (env_uuids s)) (env_clock s (env_ticks s)) na"
  let ?s = "s\<lparr>env_uuids := Suc (env_uuids s), env_ticks := Suc (env_ticks s), mm_alerts := AList.update (al_id ?a) ?a (mm_alerts s)\<rparr>"
  obtain r where r: "log_event (test_service X) (alert_event (alert_created_event ?a) (al_id ?a) (al_tx_id ?a)) ?s = (Inr r,
      ?s\<lparr>env_ticks := Suc (env_ticks ?s), env_uuids := Suc (env_uuids ?s), am_records := am_records ?s @ [r]\<rparr>)"
    "ar_alert_id r = Some (al_id ?a)" "ar_event r = alert_created_event ?a"
    using mem_log_event [OF assms, of "alert_event (alert_created_event ?a) (al_id ?a) (al_tx_id ?a)" ?s]
    by (auto simp: alert_event_def event_fields)
  have svc: "svc_store (test_service X) = mem_alert_ops" by (simp add: test_service_def)
  show ?thesis
  proof (rule that)
    show "create_alert (test_service X) na s = (Inr ?a,
      s\<lparr>env_uuids := Suc (Suc (env_uuids s)), env_ticks := Suc (Suc (env_ticks s)), am_records := am_records s @ [r],
        mm_alerts := AList.update (env_uuid_src s (env_uuids s)) ?a (mm_alerts s)\<rparr>)"
      using r(1) by (simp add: create_alert_def svc Let_def and_then_def new_uuid_def utc_now_def mem_insert_def) (simp add: opened_alert_def)
  qed (use r(2,3) in \<open>simp_all add: opened_alert_def is_created_event_def is_decision_event_def alert_created_event_def\<close>)
qed

lemma mem_decide:
  assumes "codecs_ok X" "json_writes X" "map_of (mm_alerts s) i = Some a"
  obtains rec r where "submit_decision X (test_service X) i who d why s = (Inr rec,
      s\<lparr>env_uuids := Suc (Suc (env_uuids s)), env_ticks := Suc (Suc (env_ticks s)), am_records := am_records s @ [r],
        mm_decisions := mm_decisions s @ [rec],
        mm_alerts := AList.update i (a\<lparr>al_status := status_of_decision d\<rparr>) (mm_alerts s)\<rparr>)"
    "dr_alert_id rec = i" "dr_decision rec = d" "ar_alert_id r = Some i" "is_decision_event r"
proof -
  let ?rec = "\<lparr>dr_id = env_uuid_src s (env_uuids s), dr_alert_id = i, dr_investigator_id = who, dr_decision = d,
               dr_rationale = why, dr_created_at = env_clock s (env_ticks s)\<rparr>"
  let ?s = "s\<lparr>env_uuids := Suc (env_uuids s), env_ticks := Suc (env_ticks s), mm_decisions := mm_decisions s @ [?rec],
        mm_alerts := AList.update i (a\<lparr>al_status := status_of_decision d\<rparr>) (mm_alerts s)\<rparr>"
  let ?ev = "alert_event (InvestigatorDecision who d why (al_status a)) i (al_tx_id a)"
  obtain r where r: "log_event (test_service X) ?ev ?s = (Inr r,
      ?s\<lparr>env_ticks := Suc (env_ticks ?s), env_uuids := Suc (env_uuids ?s), am_records := am_records ?s @ [r]\<rparr>)"
    "ar_alert_id r = Some i" "ar_event r = InvestigatorDecision who d why (al_status a)"
    using mem_log_event [OF assms(1,2), of ?ev ?s] by (auto simp: alert_event_def event_fields)
  have svc: "svc_store (test_service X) = mem_alert_ops" by (simp add: test_service_def)
  show ?thesis
  proof (rule that)
    show "submit_decision X (test_service X) i who d why s = (Inr ?rec,
      s\<lparr>env_uuids := Suc (Suc (env_uuids s)), env_ticks := Suc (Suc (env_ticks s)), am_records := am_records s @ [r],
        mm_decisions := mm_decisions s @ [?rec],
        mm_alerts := AList.update i (a\<lparr>al_status := status_of_decision d\<rparr>) (mm_alerts s)\<rparr>)"
      using r(1) assms(3)
      by (simp add: submit_decision_def svc Let_def and_then_def new_uuid_def utc_now_def mem_get_def mem_record_decision_def
          modify_alert_def)
  qed (use r(2,3) in \<open>simp_all add: is_decision_event_def\<close>)
qed

lemma passes_reload:
  "map_of (mm_alerts s) i = Some a \<Longrightarrow> passes (and_then (reload X i) k) s \<longleftrightarrow> passes (k a) s"
  by (simp add: reload_def passes_def and_then_def unwrap_def map_err_act_def get_alert_def test_service_def mem_get_def
      unwrap_some_def)

lemma passes_new_stores:
  "passes (with_new_stores t) s \<longleftrightarrow> passes t (s\<lparr>am_records := [], mm_alerts := [], mm_decisions := []\<rparr>)"
  by (simp add: passes_def with_new_stores_def)

text \<open>A test that starts by creating an alert: what the rest of it finds.\<close>

lemma passes_created:
  assumes "codecs_ok X" "json_writes X"
    and "\<And>i now a r t. a = opened_alert i now na \<Longrightarrow> map_of (mm_alerts t) i = Some a \<Longrightarrow> mm_decisions t = []
      \<Longrightarrow> am_records t = [r] \<Longrightarrow> ar_alert_id r = Some i \<Longrightarrow> is_created_event r \<Longrightarrow> \<not> is_decision_event r \<Longrightarrow> passes (k a) t"
  shows "passes (with_new_stores (and_then (unwrap (create_alert (test_service X) na)) k)) s"
  by (rule mem_create [OF assms(1,2), of na "s\<lparr>am_records := [], mm_alerts := [], mm_decisions := []\<rparr>"])
    (simp add: passes_new_stores passes_unwrap assms(3))

text \<open>A decision in a test.\<close>

lemma passes_decided:
  assumes "codecs_ok X" "json_writes X" "map_of (mm_alerts s) i = Some a"
    and "\<And>rec r t. map_of (mm_alerts t) i = Some (a\<lparr>al_status := status_of_decision d\<rparr>) \<Longrightarrow> mm_decisions t = mm_decisions s @ [rec]
      \<Longrightarrow> am_records t = am_records s @ [r] \<Longrightarrow> dr_alert_id rec = i \<Longrightarrow> dr_decision rec = d
      \<Longrightarrow> ar_alert_id r = Some i \<Longrightarrow> is_decision_event r \<Longrightarrow> passes (k rec) t"
  shows "passes (and_then (unwrap (submit_decision X (test_service X) i who d why)) k) s"
  by (rule mem_decide [OF assms(1-3), of who d why]) (simp add: passes_unwrap assms(4) update_conv')

lemma opened_sel [simp]:
  "al_id (opened_alert i now na) = i" "al_status (opened_alert i now na) = Open" "al_ai_status (opened_alert i now na) = Pending"
  "al_tx_id (opened_alert i now na) = na_tx_id na"
  by (simp_all add: opened_alert_def)

theorem new_alert_test:
  assumes "codecs_ok X" "json_writes X"
  shows "passes (new_alert_starts_open_with_pending_ai_status X) s"
  unfolding new_alert_starts_open_with_pending_ai_status_def by (rule passes_created [OF assms]) simp

text \<open>What the adviser left behind.\<close>

lemma mem_set_ai:
  assumes "map_of (mm_alerts s) i = Some a"
  shows "mem_set_ai_status i st s = (Inr (), s\<lparr>mm_alerts := AList.update i (a\<lparr>al_ai_status := st\<rparr>) (mm_alerts s)\<rparr>)"
  using assms by (simp add: mem_set_ai_status_def modify_alert_def)

lemma passes_ai_unavailable:
  assumes "codecs_ok X" "json_writes X" "map_of (mm_alerts s) i = Some a"
    and "\<And>now t. map_of (mm_alerts t) i = Some (a\<lparr>al_ai_status := Unavailable why now\<rparr>) \<Longrightarrow> passes (k ()) t"
  shows "passes (and_then (unwrap (record_ai_unavailable (test_service X) i x why)) k) s"
proof -
  have svc: "svc_store (test_service X) = mem_alert_ops" by (simp add: test_service_def)
  let ?now = "env_clock s (env_ticks s)"
  let ?s = "s\<lparr>env_ticks := Suc (env_ticks s), mm_alerts := AList.update i (a\<lparr>al_ai_status := Unavailable why ?now\<rparr>) (mm_alerts s)\<rparr>"
  obtain r where "log_event (test_service X) (alert_event (AiAdvisoryUnavailable why) i x) ?s = (Inr r,
      ?s\<lparr>env_ticks := Suc (env_ticks ?s), env_uuids := Suc (env_uuids ?s), am_records := am_records ?s @ [r]\<rparr>)"
    by (rule mem_log_event [OF assms(1,2)])
  then have "record_ai_unavailable (test_service X) i x why s = (Inr (),
      ?s\<lparr>env_ticks := Suc (env_ticks ?s), env_uuids := Suc (env_uuids ?s), am_records := am_records ?s @ [r]\<rparr>)"
    using assms(3) by (simp add: record_ai_unavailable_def svc mem_set_ai and_then_def utc_now_def)
  then show ?thesis by (simp add: passes_unwrap assms(4) update_conv')
qed

lemma passes_ai_advisory:
  assumes "codecs_ok X" "json_writes X" "map_of (mm_alerts s) i = Some a"
    and "\<And>t. map_of (mm_alerts t) i = Some (a\<lparr>al_ai_status := Ready adv\<rparr>) \<Longrightarrow> passes (k ()) t"
  shows "passes (and_then (unwrap (record_ai_advisory (test_service X) i x adv)) k) s"
proof -
  have svc: "svc_store (test_service X) = mem_alert_ops" by (simp add: test_service_def)
  let ?s = "s\<lparr>mm_alerts := AList.update i (a\<lparr>al_ai_status := Ready adv\<rparr>) (mm_alerts s)\<rparr>"
  obtain r where "log_event (test_service X) (alert_event (AiAdvisoryReceived adv) i x) ?s = (Inr r,
      ?s\<lparr>env_ticks := Suc (env_ticks ?s), env_uuids := Suc (env_uuids ?s), am_records := am_records ?s @ [r]\<rparr>)"
    by (rule mem_log_event [OF assms(1,2)])
  then have "record_ai_advisory (test_service X) i x adv s = (Inr (),
      ?s\<lparr>env_ticks := Suc (env_ticks ?s), env_uuids := Suc (env_uuids ?s), am_records := am_records ?s @ [r]\<rparr>)"
    using assms(3) by (simp add: record_ai_advisory_def svc mem_set_ai and_then_def)
  then show ?thesis by (simp add: passes_unwrap assms(4) update_conv')
qed

lemma mem_histories:
  "decision_history (test_service X) i u = (Inr (filter (\<lambda>d. dr_alert_id d = i) (mm_decisions u)), u)"
  "audit_history (test_service X) i u = (Inr (filter (\<lambda>r. ar_alert_id r = Some i) (am_records u)), u)"
  by (simp_all add: decision_history_def audit_history_def test_service_def mem_decision_history_def mem_reads map_err_act_def)

theorem decisions_test:
  assumes "codecs_ok X" "json_writes X"
  shows "passes (only_submit_decision_changes_status_and_it_appends_history X) s"
  unfolding only_submit_decision_changes_status_and_it_appends_history_def
proof (rule passes_created [OF assms], goal_cases)
  case (1 i now a r t)
  have id: "al_id a = i" by (simp add: 1(1))
  show ?case unfolding id
    by (rule passes_decided [OF assms 1(2)], simp add: passes_reload status_of_decision_def,
        rule passes_decided [OF assms], assumption)
      (simp add: passes_reload status_of_decision_def passes_unwrap [OF mem_histories(1)] passes_unwrap [OF mem_histories(2)] 1)
qed

theorem unavailable_test:
  assumes "codecs_ok X" "json_writes X"
  shows "passes (unavailable_ai_advisory_does_not_block_alert_creation_or_review X) s"
  unfolding unavailable_ai_advisory_does_not_block_alert_creation_or_review_def
proof (rule passes_created [OF assms], goal_cases)
  case (1 i now a r t)
  have id: "al_id a = i" by (simp add: 1(1))
  show ?case unfolding id
    by (rule passes_ai_unavailable [OF assms 1(2)], simp add: passes_reload is_unavailable_def,
        rule passes_decided [OF assms], assumption) (simp add: passes_reload status_of_decision_def)
qed

theorem advisory_test:
  assumes "codecs_ok X" "json_writes X"
  shows "passes (ai_advisory_never_changes_alert_status X) s"
  unfolding ai_advisory_never_changes_alert_status_def
proof (rule passes_created [OF assms], goal_cases)
  case (1 i now a r t)
  have a: "al_id a = i" "al_status a = Open" by (simp_all add: 1(1))
  have tick: "passes (and_then utc_now f) t = passes (f (env_clock t (env_ticks t))) (t\<lparr>env_ticks := Suc (env_ticks t)\<rparr>)" for f
    by (simp add: passes_def)
  show ?case unfolding tick a(1) Let_def
    by (rule passes_ai_advisory [OF assms, of _ i a]) (simp_all add: 1(2) passes_reload is_ready_def a(2))
qed

end
