(* ===== verification/TestsIngestion.thy ===== *)
theory TestsIngestion
  imports Ingestion TestKit
begin

text \<open>
  The tests of \<open>ingestion/src/lib.rs\<close>: normalisation, the mock source, and the Horizon client against a
  mock server. The deserialisers that \<open>serde\<close> derives are parameters; the tests rely on what \<open>serde\<close>
  documents: a record is read back from an object with its fields, a missing \<open>Option\<close> field is \<open>None\<close>.
\<close>

section \<open>What the deserialisers read\<close>

definition tx_record_json :: "horizon_transaction \<Rightarrow> json" where
  "tx_record_json t =
     JObject [(''hash'', JString (ht_hash t)), (''ledger'', JInt (uint (ht_ledger t))),
       (''created_at'', JString (ht_created_at t)), (''source_account'', JString (ht_source_account t)),
       (''fee_charged'', JString (ht_fee_charged t)), (''operation_count'', JInt (uint (ht_operation_count t))),
       (''successful'', JBool (ht_successful t)), (''memo'', json_opt JString (ht_memo t)),
       (''paging_token'', JString (ht_paging_token t))]"

definition op_record_json :: "horizon_operation \<Rightarrow> json" where
  "op_record_json p =
     JObject ((''type'', JString (ho_type p)) #
       concat (map (\<lambda>(k, v). case v of None \<Rightarrow> [] | Some t \<Rightarrow> [(k, JString t)])
         [(''from'', ho_from p), (''to'', ho_to p), (''funder'', ho_funder p), (''account'', ho_account p),
          (''amount'', ho_amount p), (''starting_balance'', ho_starting_balance p), (''asset_type'', ho_asset_type p),
          (''asset_code'', ho_asset_code p), (''asset_issuer'', ho_asset_issuer p)]))"

definition page_json :: "json list \<Rightarrow> json" where
  "page_json records = JObject [(''_embedded'', JObject [(''records'', JArray records)])]"

definition derived_readers ::
  "(json \<Rightarrow> string + horizon_transaction) \<Rightarrow> (json \<Rightarrow> string + horizon_operation list) \<Rightarrow> horizon_codec \<Rightarrow> bool" where
  "derived_readers read_tx read_ops C \<longleftrightarrow>
     (\<forall>t. read_tx (tx_record_json t) = Inr t)
     \<and> (\<forall>ops. read_ops (JArray (map op_record_json ops)) = Inr ops)
     \<and> (\<forall>ts. hc_tx_page C (page_json (map tx_record_json ts)) = Inr ts)
     \<and> (\<forall>ops. hc_op_page C (page_json (map op_record_json ops)) = Inr ops)"

text \<open>\<open>chrono\<close> reads the dates of the tests, and a \<open>Decimal\<close> keeps the digits it was written with.\<close>

definition reads_test_texts :: "crates \<Rightarrow> bool" where
  "reads_test_texts X \<longleftrightarrow>
     (\<forall>t \<in> {''2026-01-01T12:00:00Z'', ''2026-01-01T00:00:00Z''}. \<exists>d. cr_rfc3339_parse X t = Inr d)
     \<and> (\<forall>t \<in> {''150.5000000'', ''10.0000000'', ''5.0000000''}. \<exists>d. cr_dec_parse X t = Some d \<and> cr_dec_text X d = t)"

section \<open>Normalisation\<close>

definition sample_tx_record :: horizon_transaction where
  "sample_tx_record =
     \<lparr>ht_hash = ''abc123'', ht_ledger = 100, ht_created_at = ''2026-01-01T12:00:00Z'', ht_source_account = ''GALICE'',
      ht_fee_charged = ''100'', ht_operation_count = 1, ht_successful = True, ht_memo = None, ht_paging_token = ''1''\<rparr>"

definition no_fields :: "string \<Rightarrow> horizon_operation" where
  "no_fields ty =
     \<lparr>ho_type = ty, ho_from = None, ho_to = None, ho_funder = None, ho_account = None, ho_amount = None,
      ho_starting_balance = None, ho_asset_type = None, ho_asset_code = None, ho_asset_issuer = None\<rparr>"

definition payment_json :: json where
  "payment_json = JObject
     [(''type'', JString ''payment''), (''from'', JString ''GALICE''), (''to'', JString ''GBOB''),
      (''amount'', JString ''150.5000000''), (''asset_type'', JString ''native'')]"

definition credit_json :: json where
  "credit_json = JObject
     [(''type'', JString ''payment''), (''from'', JString ''GALICE''), (''to'', JString ''GBOB''),
      (''amount'', JString ''10.0000000''), (''asset_type'', JString ''credit_alphanum4''),
      (''asset_code'', JString ''USDC''), (''asset_issuer'', JString ''GISSUER'')]"

definition create_account_json :: json where
  "create_account_json = JObject
     [(''type'', JString ''create_account''), (''funder'', JString ''GALICE''), (''account'', JString ''GNEW''),
      (''starting_balance'', JString ''5.0000000'')]"

definition set_options_json :: json where
  "set_options_json = JObject [(''type'', JString ''set_options'')]"

text \<open>Both tests read the transaction and the operations, and normalise them.\<close>

definition normalized_test ::
  "crates \<Rightarrow> (json \<Rightarrow> string + horizon_transaction) \<Rightarrow> (json \<Rightarrow> string + horizon_operation list) \<Rightarrow> json list \<Rightarrow>
   (normalized_transaction \<Rightarrow> ('s, unit, unit) action) \<Rightarrow> ('s, unit, unit) action" where
  "normalized_test X read_tx read_ops ops_json checks =
     and_then (unwrap_res (read_tx (tx_record_json sample_tx_record))) (\<lambda>tx.
     and_then (unwrap_res (read_ops (JArray ops_json))) (\<lambda>ops.
     and_then (unwrap_res (normalize_transaction X tx ops [])) checks))"

definition normalizes_payment_operation_into_movement ::
  "crates \<Rightarrow> (json \<Rightarrow> string + horizon_transaction) \<Rightarrow> (json \<Rightarrow> string + horizon_operation list) \<Rightarrow> ('s, unit, unit) action" where
  "normalizes_payment_operation_into_movement X read_tx read_ops =
     normalized_test X read_tx read_ops [payment_json] (\<lambda>normalized.
     and_then (assert_that (tx_id normalized = ''abc123'')) (\<lambda>_.
     and_then (assert_that (length (tx_movements normalized) = 1)) (\<lambda>_.
     and_then (assert_that (mv_asset (tx_movements normalized ! 0) = asset_native)) (\<lambda>_.
       assert_that (cr_dec_text X (mv_amount (tx_movements normalized ! 0)) = ''150.5000000'')))))"

definition normalizes_credit_asset_and_create_account ::
  "crates \<Rightarrow> (json \<Rightarrow> string + horizon_transaction) \<Rightarrow> (json \<Rightarrow> string + horizon_operation list) \<Rightarrow> ('s, unit, unit) action" where
  "normalizes_credit_asset_and_create_account X read_tx read_ops =
     normalized_test X read_tx read_ops [credit_json, create_account_json, set_options_json] (\<lambda>normalized.
     and_then (assert_that (length (tx_movements normalized) = 2)) (\<lambda>_.
     and_then (assert_that (as_code (mv_asset (tx_movements normalized ! 0)) = ''USDC'')) (\<lambda>_.
     and_then (assert_that (as_issuer (mv_asset (tx_movements normalized ! 0)) = Some ''GISSUER'')) (\<lambda>_.
       assert_that (mv_asset (tx_movements normalized ! 1) = asset_native)))))"

lemma passes_normalized:
  assumes "derived_readers read_tx read_ops C" "reads_test_texts X" "ops_json = map op_record_json ops"
    and "\<And>d. passes (checks
       \<lparr>tx_id = ''abc123'', tx_ledger = 100, tx_created_at = d, tx_source_account = ''GALICE'', tx_fee_charged = 100, tx_memo = None,
        tx_operation_count = 1, tx_successful = True, tx_movements = List.map_filter (op_movement X) ops, tx_contract_ids = []\<rparr>) s"
  shows "passes (normalized_test X read_tx read_ops ops_json checks) s"
proof -
  obtain d where d: "cr_rfc3339_parse X ''2026-01-01T12:00:00Z'' = Inr d" using assms(2) by (auto simp: reads_test_texts_def)
  have "parse_i64 ''100'' = Inr 100" by (simp add: parse_i64_def is_digit_def)
  then have "normalize_transaction X sample_tx_record ops [] = Inr
       \<lparr>tx_id = ''abc123'', tx_ledger = 100, tx_created_at = d, tx_source_account = ''GALICE'', tx_fee_charged = 100, tx_memo = None,
        tx_operation_count = 1, tx_successful = True, tx_movements = List.map_filter (op_movement X) ops, tx_contract_ids = []\<rparr>"
    by (simp add: normalize_transaction_def sample_tx_record_def d)
  moreover have "read_tx (tx_record_json sample_tx_record) = Inr sample_tx_record" "read_ops (JArray ops_json) = Inr ops"
    using assms(1,3) by (simp_all add: derived_readers_def)
  ultimately show ?thesis using assms(4) by (simp add: normalized_test_def)
qed

lemma operations_json:
  "payment_json = op_record_json ((no_fields ''payment'')
     \<lparr>ho_from := Some ''GALICE'', ho_to := Some ''GBOB'', ho_amount := Some ''150.5000000'', ho_asset_type := Some ''native''\<rparr>)"
  "credit_json = op_record_json ((no_fields ''payment'')
     \<lparr>ho_from := Some ''GALICE'', ho_to := Some ''GBOB'', ho_amount := Some ''10.0000000'', ho_asset_type := Some ''credit_alphanum4'',
      ho_asset_code := Some ''USDC'', ho_asset_issuer := Some ''GISSUER''\<rparr>)"
  "create_account_json = op_record_json ((no_fields ''create_account'')
     \<lparr>ho_funder := Some ''GALICE'', ho_account := Some ''GNEW'', ho_starting_balance := Some ''5.0000000''\<rparr>)"
  "set_options_json = op_record_json (no_fields ''set_options'')"
  by (simp_all add: payment_json_def credit_json_def create_account_json_def set_options_json_def op_record_json_def no_fields_def)

theorem normalization_tests:
  assumes "derived_readers read_tx read_ops C" "reads_test_texts X"
  shows "passes (normalizes_payment_operation_into_movement X read_tx read_ops) s"
    and "passes (normalizes_credit_asset_and_create_account X read_tx read_ops) s"
proof -
  obtain a b c where d: "cr_dec_parse X ''150.5000000'' = Some a" "cr_dec_text X a = ''150.5000000''"
    "cr_dec_parse X ''10.0000000'' = Some b" "cr_dec_parse X ''5.0000000'' = Some c"
    using assms(2) by (auto simp: reads_test_texts_def)
  note move = op_movement_def movement_of_def op_asset_def no_fields_def List.map_filter_simps d
  show "passes (normalizes_payment_operation_into_movement X read_tx read_ops) s"
    unfolding normalizes_payment_operation_into_movement_def
    by (rule passes_normalized [OF assms, of _ "[_]"]) (simp add: operations_json, simp add: move)
  show "passes (normalizes_credit_asset_and_create_account X read_tx read_ops) s"
    unfolding normalizes_credit_asset_and_create_account_def
    by (rule passes_normalized [OF assms, of _ "[_, _, _]"]) (simp add: operations_json, simp add: move)
qed

section \<open>The mock source\<close>

definition mock_test_tx :: "nat \<Rightarrow> datetime \<Rightarrow> normalized_transaction" where
  "mock_test_tx i now =
     \<lparr>tx_id = ''tx'' @ show_nat i, tx_ledger = 1, tx_created_at = now, tx_source_account = ''GALICE'', tx_fee_charged = 100,
      tx_memo = None, tx_operation_count = 1, tx_successful = True, tx_movements = [], tx_contract_ids = []\<rparr>"

text \<open>\<open>stamps\<close> are the five readings of the clock.\<close>

definition mock_source_paginates_via_cursor :: "(nat \<Rightarrow> datetime) \<Rightarrow> ('s, unit, unit) action" where
  "mock_source_paginates_via_cursor stamps =
     (let txs = map (\<lambda>i. mock_test_tx i (stamps i)) [0..<5];
          poll = src_poll (mock_transaction_source (with_batch_size (mock_new txs) 2)) in
      and_then (unwrap (poll None)) (\<lambda>batch1.
      and_then (assert_that (length (fb_transactions batch1) = 2)) (\<lambda>_.
      and_then (assert_that (tx_id (fb_transactions batch1 ! 0) = ''tx0'')) (\<lambda>_.
      and_then (unwrap (poll (fb_next_cursor batch1))) (\<lambda>batch2.
      and_then (assert_that (length (fb_transactions batch2) = 2)) (\<lambda>_.
      and_then (assert_that (tx_id (fb_transactions batch2 ! 0) = ''tx2'')) (\<lambda>_.
      and_then (unwrap (poll (fb_next_cursor batch2))) (\<lambda>batch3.
      and_then (assert_that (length (fb_transactions batch3) = 1)) (\<lambda>_.
      and_then (assert_that (tx_id (fb_transactions batch3 ! 0) = ''tx4'')) (\<lambda>_.
      and_then (unwrap (poll (fb_next_cursor batch3))) (\<lambda>batch4.
        assert_that (fb_transactions batch4 = []))))))))))))"

lemma poll_of_mock: "src_poll (mock_transaction_source m) c s = (mock_poll m c, s)"
  by (simp add: mock_transaction_source_def)

theorem pagination_test: "passes (mock_source_paginates_via_cursor stamps) s"
proof -
  have up: "[0..<5] = [0, 1, 2, 3, 4 :: nat]" by (simp add: upt_rec)
  have parse: "parse_usize (show_nat k) = Some k" if "k < 100" for k
    using that by (intro parse_unsigned_show_nat) simp
  have digits: "show_nat 0 = ''0''" "show_nat 2 = ''2''" "show_nat 4 = ''4''"
    by code_simp+
  show ?thesis
    by (simp add: mock_source_paginates_via_cursor_def passes_def unwrap_def and_then_def map_err_act_def poll_of_mock
        mock_poll_def mock_new_def with_batch_size_def Let_def up parse assert_that_def mock_test_tx_def digits)
qed

section \<open>The Horizon client\<close>

definition horizon_record :: "string \<Rightarrow> string \<Rightarrow> horizon_transaction" where
  "horizon_record hash token =
     \<lparr>ht_hash = hash, ht_ledger = 1, ht_created_at = ''2026-01-01T00:00:00Z'', ht_source_account = ''GALICE'',
      ht_fee_charged = ''100'', ht_operation_count = 1, ht_successful = True, ht_memo = None, ht_paging_token = token\<rparr>"

definition horizon_source_retries_transient_errors_then_succeeds ::
  "crates \<Rightarrow> horizon_codec \<Rightarrow> string \<Rightarrow> ('a env_scheme, unit, unit) action" where
  "horizon_source_retries_transient_errors_then_succeeds X C uri =
     with_server X uri
       [(mock_of ''GET'' ''/transactions'' 503 None)\<lparr>mk_times := Some 1\<rparr>,
        mock_of ''GET'' ''/transactions'' 200 (Some (page_json [tx_record_json (horizon_record ''tx1'' ''1'')])),
        mock_of ''GET'' ''/transactions/tx1/operations'' 200 (Some (page_json []))] (
     and_then (unwrap (src_poll (horizon_transaction_source X C (horizon_new uri)) None)) (\<lambda>batch.
     and_then (assert_that (length (fb_transactions batch) = 1)) (\<lambda>_.
     and_then (assert_that (tx_id (fb_transactions batch ! 0) = ''tx1'')) (\<lambda>_.
       assert_that (fb_failures batch = [])))))"

definition horizon_source_reports_per_transaction_failures_without_losing_the_batch ::
  "crates \<Rightarrow> horizon_codec \<Rightarrow> string \<Rightarrow> ('a env_scheme, unit, unit) action" where
  "horizon_source_reports_per_transaction_failures_without_losing_the_batch X C uri =
     with_server X uri
       [mock_of ''GET'' ''/transactions'' 200 (Some (page_json [tx_record_json (horizon_record ''good'' ''1''),
          tx_record_json (horizon_record ''bad'' ''2'')])),
        mock_of ''GET'' ''/transactions/good/operations'' 200 (Some (page_json [])),
        mock_of ''GET'' ''/transactions/bad/operations'' 500 None] (
     and_then (unwrap (src_poll (horizon_transaction_source X C (horizon_new uri)) None)) (\<lambda>batch.
     and_then (assert_that (length (fb_transactions batch) = 1)) (\<lambda>_.
     and_then (assert_that (tx_id (fb_transactions batch ! 0) = ''good'')) (\<lambda>_.
     and_then (assert_that (length (fb_failures batch) = 1)) (\<lambda>_.
       assert_that (ff_raw_id (fb_failures batch ! 0) = ''bad''))))))"

text \<open>One try of a request, given the answer.\<close>

lemma get_json_answered:
  assumes "env_http s (length (env_sent s)) (http_get url) = Inr (mock_response X 200 (Some v))" "parse v = Inr x"
  shows "get_json_loop X parse n url a s = (Inr x, s\<lparr>env_sent := env_sent s @ [http_get url]\<rparr>)"
  using assms by (subst get_json_loop.simps)
    (simp add: http_send_def get_json_outcome_def mock_response_def is_success_def)

lemma get_json_unavailable:
  assumes "env_http s (length (env_sent s)) (http_get url) = Inr (mock_response X code None)" "500 \<le> code" "code < 600"
  shows "get_json_loop X parse n url a s =
    (if a + 1 \<ge> n then (Inl (IngNetwork (''HTTP '' @ cr_status_text X code @ '' from '' @ url)), s\<lparr>env_sent := env_sent s @ [http_get url]\<rparr>)
     else get_json_loop X parse n url (a + 1) (sleep_ms (200 * 2 ^ a) (s\<lparr>env_sent := env_sent s @ [http_get url]\<rparr>)))"
  using assms by (subst get_json_loop.simps)
    (simp add: http_send_def get_json_outcome_def mock_response_def is_success_def is_server_error_def)

lemma get_json_failing:
  assumes "\<And>k. env_http s k (http_get url) = Inr (mock_response X 500 None)"
  shows "\<exists>t e. get_json_loop X parse n url a s = (Inl e, t) \<and> env_http t = env_http s"
proof -
  obtain r t where run: "get_json_loop X parse n url a s = (r, t)" by (rule prod.exhaust)
  from get_json_loop_run [OF run] obtain b k where out: "get_json_outcome X parse n url b (env_http s k (http_get url)) = Some r"
    and t: "env_http t = env_http s" by auto
  from out have "isl r"
    unfolding assms by (auto simp: get_json_outcome_def mock_response_def is_success_def split: if_splits)
  with run t show ?thesis by (auto simp: isl_def)
qed

lemma mock_answers_get:
  "mock_answers uri n (http_get (uri @ p)) m \<longleftrightarrow>
     mk_method m = ''GET'' \<and> takeWhile (\<lambda>c. c \<noteq> CHR ''?'') p = mk_path m
     \<and> (case mk_times m of None \<Rightarrow> True | Some k \<Rightarrow> n < k)"
  by (auto simp: mock_answers_def http_get_def url_path_of)

lemmas mock_reply = mock_server_def mock_answers_get mock_of_def

text \<open>The addresses that the client asks, and what becomes of a record without operations.\<close>

lemma horizon_urls:
  "poll_url (horizon_new uri) None = uri @ ''/transactions?order=desc&limit='' @ show_nat 50"
  "fetch_operations X C (horizon_new uri) h =
     get_json_loop X (hc_op_page C) 3 (uri @ ''/transactions/'' @ h @ ''/operations?limit=200'') 0"
  by (simp_all add: poll_url_def horizon_new_def fetch_operations_def get_json_def)

lemma plain_record:
  assumes "reads_test_texts X"
  obtains d where "record_outcome X (horizon_record h token) (Inr []) = Inr
       \<lparr>tx_id = h, tx_ledger = 1, tx_created_at = d, tx_source_account = ''GALICE'', tx_fee_charged = 100, tx_memo = None,
        tx_operation_count = 1, tx_successful = True, tx_movements = [], tx_contract_ids = []\<rparr>"
proof -
  obtain d where d: "cr_rfc3339_parse X ''2026-01-01T00:00:00Z'' = Inr d" using assms by (auto simp: reads_test_texts_def)
  have fee: "parse_i64 ''100'' = Inr 100" by (simp add: parse_i64_def is_digit_def)
  show ?thesis
    by (rule that [of d]) (simp add: record_outcome_def normalize_transaction_def horizon_record_def d fee List.map_filter_simps)
qed

lemma polled:
  assumes "get_json_loop X (hc_tx_page C) 3 (uri @ ''/transactions?order=desc&limit='' @ show_nat 50) 0 s = (Inr page, t)"
    and "poll_records X C (horizon_new uri) (rev page) \<lparr>fb_transactions = [], fb_failures = [], fb_next_cursor = None\<rparr> t = (b, u)"
  shows "src_poll (horizon_transaction_source X C (horizon_new uri)) None s = (Inr b, u)"
proof -
  have "hz_max_retries (horizon_new uri) = 3" by (simp add: horizon_new_def)
  with assms show ?thesis
    by (simp add: horizon_transaction_source_def horizon_poll_def get_json_def horizon_urls(1) and_then_Inr)
qed

lemma horizon_pages:
  assumes "derived_readers read_tx read_ops C"
  shows "hc_tx_page C (page_json [tx_record_json t]) = Inr [t]" "hc_tx_page C (page_json [tx_record_json t, tx_record_json t']) = Inr [t, t']"
    "hc_op_page C (page_json []) = Inr []"
proof -
  have p: "hc_tx_page C (page_json (map tx_record_json ts)) = Inr ts" "hc_op_page C (page_json (map op_record_json ops)) = Inr ops" for ts ops
    using assms by (simp_all add: derived_readers_def)
  show "hc_tx_page C (page_json [tx_record_json t]) = Inr [t]" "hc_tx_page C (page_json [tx_record_json t, tx_record_json t']) = Inr [t, t']"
    "hc_op_page C (page_json []) = Inr []"
    using p(1) [of "[t]"] p(1) [of "[t, t']"] p(2) [of "[]"] by simp_all
qed

text \<open>The page of transactions, at the second try or at the first, and the operations of one of them.\<close>

lemma page_at_second_try:
  assumes "env_http s 0 (http_get u) = Inr (mock_response X 503 None)" "env_sent s = []"
    and "env_http s (Suc 0) (http_get u) = Inr (mock_response X 200 (Some v))" "parse v = Inr page"
  shows "\<exists>t. get_json_loop X parse 3 u 0 s = (Inr page, t) \<and> env_http t = env_http s"
proof -
  let ?t = "sleep_ms 200 (s\<lparr>env_sent := [http_get u]\<rparr>)"
  have "get_json_loop X parse 3 u (Suc 0) ?t = (Inr page, ?t\<lparr>env_sent := env_sent ?t @ [http_get u]\<rparr>)"
    by (rule get_json_answered [where parse = parse, OF _ assms(4)]) (use assms(3) in \<open>simp add: sleep_ms_def\<close>)
  then show ?thesis using get_json_unavailable [where parse = parse and s = s and url = u and X = X and code = 503 and n = 3 and a = 0] assms(1,2) by (simp add: sleep_ms_def)
qed

lemma answered_at_once:
  assumes "\<And>k. env_http s k (http_get u) = Inr (mock_response X 200 (Some v))" "parse v = Inr page"
  shows "\<exists>t. get_json_loop X parse 3 u 0 s = (Inr page, t) \<and> env_http t = env_http s"
  using get_json_answered [where parse = parse and s = s and url = u, OF _ assms(2)] assms(1) by auto

theorem retry_test:
  assumes "derived_readers read_tx read_ops C" "reads_test_texts X"
  shows "passes (horizon_source_retries_transient_errors_then_succeeds X C uri) s"
proof -
  let ?rec = "horizon_record ''tx1'' ''1''"
  let ?mocks = "[(mock_of ''GET'' ''/transactions'' 503 None)\<lparr>mk_times := Some 1\<rparr>,
        mock_of ''GET'' ''/transactions'' 200 (Some (page_json [tx_record_json ?rec])),
        mock_of ''GET'' ''/transactions/tx1/operations'' 200 (Some (page_json []))]"
  let ?s = "s\<lparr>env_http := mock_server X uri ?mocks, env_sent := []\<rparr>"
  note pages = horizon_pages [OF assms(1)]
  obtain u v where uv: "u = uri @ ''/transactions?order=desc&limit='' @ show_nat 50" "v = uri @ ''/transactions/'' @ ''tx1'' @ ''/operations?limit=200''"
    by blast
  have reply: "mock_server X uri ?mocks 0 (http_get u) = Inr (mock_response X 503 None)"
    "mock_server X uri ?mocks (Suc 0) (http_get u) = Inr (mock_response X 200 (Some (page_json [tx_record_json ?rec])))"
    "mock_server X uri ?mocks n (http_get v) = Inr (mock_response X 200 (Some (page_json [])))" for n
    by (simp_all add: uv mock_reply)
  obtain t where t: "get_json_loop X (hc_tx_page C) 3 u 0 ?s = (Inr [?rec], t)" "env_http t = env_http ?s"
    using page_at_second_try [where s = ?s and u = u and X = X and parse = "hc_tx_page C", OF _ _ _ pages(1)] reply(1,2) by auto
  obtain w where w: "get_json_loop X (hc_op_page C) 3 v 0 t = (Inr [], w)"
    using answered_at_once [where s = t and u = v and X = X and parse = "hc_op_page C", OF _ pages(3)] t(2) reply(3) by auto
  obtain d where d: "record_outcome X ?rec (Inr []) = Inr
       \<lparr>tx_id = ''tx1'', tx_ledger = 1, tx_created_at = d, tx_source_account = ''GALICE'', tx_fee_charged = 100, tx_memo = None,
        tx_operation_count = 1, tx_successful = True, tx_movements = [], tx_contract_ids = []\<rparr>"
    by (rule plain_record [OF assms(2)])
  have hash: "ht_hash ?rec = ''tx1''" by (simp add: horizon_record_def)
  have fetched: "fetch_operations X C (horizon_new uri) ''tx1'' t = (Inr [], w)"
    unfolding horizon_urls(2) uv(2) [symmetric] by (rule w)
  have "poll_records X C (horizon_new uri) (rev [?rec]) \<lparr>fb_transactions = [], fb_failures = [], fb_next_cursor = None\<rparr> t =
      (add_outcome (record_outcome X ?rec (Inr [])) (ht_paging_token ?rec) \<lparr>fb_transactions = [], fb_failures = [], fb_next_cursor = None\<rparr>, w)"
    using fetched by (simp add: hash)
  from polled [OF t(1) [unfolded uv(1)] this] show ?thesis
    unfolding horizon_source_retries_transient_errors_then_succeeds_def passes_with_server
    by (simp only: passes_unwrap) (simp add: d add_outcome_def)
qed

theorem failures_test:
  assumes "derived_readers read_tx read_ops C" "reads_test_texts X"
  shows "passes (horizon_source_reports_per_transaction_failures_without_losing_the_batch X C uri) s"
proof -
  let ?good = "horizon_record ''good'' ''1''" and ?bad = "horizon_record ''bad'' ''2''"
  let ?page = "page_json [tx_record_json ?good, tx_record_json ?bad]"
  let ?mocks = "[mock_of ''GET'' ''/transactions'' 200 (Some ?page),
        mock_of ''GET'' ''/transactions/good/operations'' 200 (Some (page_json [])),
        mock_of ''GET'' ''/transactions/bad/operations'' 500 None]"
  let ?s = "s\<lparr>env_http := mock_server X uri ?mocks, env_sent := []\<rparr>"
  note pages = horizon_pages [OF assms(1)]
  obtain u v w where uv: "u = uri @ ''/transactions?order=desc&limit='' @ show_nat 50"
    "v = uri @ ''/transactions/'' @ ''good'' @ ''/operations?limit=200''" "w = uri @ ''/transactions/'' @ ''bad'' @ ''/operations?limit=200''"
    by blast
  have reply: "mock_server X uri ?mocks n (http_get u) = Inr (mock_response X 200 (Some ?page))"
    "mock_server X uri ?mocks n (http_get v) = Inr (mock_response X 200 (Some (page_json [])))"
    "mock_server X uri ?mocks n (http_get w) = Inr (mock_response X 500 None)" for n
    by (simp_all add: uv mock_reply)
  obtain t where t: "get_json_loop X (hc_tx_page C) 3 u 0 ?s = (Inr [?good, ?bad], t)" "env_http t = env_http ?s"
    using answered_at_once [where s = ?s and u = u and X = X and parse = "hc_tx_page C" and v = ?page, OF _ pages(2)] reply(1) by auto
  obtain e b where b: "get_json_loop X (hc_op_page C) 3 w 0 t = (Inl e, b)" "env_http b = env_http t"
    using get_json_failing [where s = t and url = w and X = X and parse = "hc_op_page C" and n = 3 and a = 0] t(2) reply(3) by auto
  obtain g where g: "get_json_loop X (hc_op_page C) 3 v 0 b = (Inr [], g)"
    using answered_at_once [where s = b and u = v and X = X and parse = "hc_op_page C", OF _ pages(3)] t(2) b(2) reply(2) by auto
  obtain d where d: "record_outcome X ?good (Inr []) = Inr
       \<lparr>tx_id = ''good'', tx_ledger = 1, tx_created_at = d, tx_source_account = ''GALICE'', tx_fee_charged = 100, tx_memo = None,
        tx_operation_count = 1, tx_successful = True, tx_movements = [], tx_contract_ids = []\<rparr>"
    by (rule plain_record [OF assms(2)])
  let ?start = "\<lparr>fb_transactions = [], fb_failures = [], fb_next_cursor = None\<rparr>"
  have hash: "ht_hash ?good = ''good''" "ht_hash ?bad = ''bad''" by (simp_all add: horizon_record_def)
  have fetched: "fetch_operations X C (horizon_new uri) ''bad'' t = (Inl e, b)"
    "fetch_operations X C (horizon_new uri) ''good'' b = (Inr [], g)"
    unfolding horizon_urls(2) uv(2,3) [symmetric] by (rule b(1), rule g)
  have "poll_records X C (horizon_new uri) (rev [?good, ?bad]) ?start t =
      (add_outcome (record_outcome X ?good (Inr [])) (ht_paging_token ?good)
        (add_outcome (record_outcome X ?bad (Inl e)) (ht_paging_token ?bad) ?start), g)"
    using fetched by (simp add: hash)
  from polled [OF t(1) [unfolded uv(1)] this] show ?thesis
    unfolding horizon_source_reports_per_transaction_failures_without_losing_the_batch_def passes_with_server
    by (simp only: passes_unwrap) (simp add: d add_outcome_def, simp add: record_outcome_def hash)
qed

end
