(* ===== verification/TestsStorage.thy ===== *)
theory TestsStorage
  imports WorkingProps TestsReview
begin

text \<open>
  The tests of \<open>storage/src/lib.rs\<close>, on a new in-memory database. What is relied on about \<open>sqlx\<close>: the URL
  \<open>sqlite::memory:\<close> is valid, and opening it gives a database in which the migrations create empty
  tables; no statement fails, and the identifiers drawn differ.
\<close>

definition opens_memory :: "'a db_scheme sqlx \<Rightarrow> bool" where
  "opens_memory Q \<longleftrightarrow> (\<exists>options. sx_parse Q ''sqlite::memory:'' = Inr options)
     \<and> (\<forall>options n s. sx_open Q options n s = (Inr (), empty_db s)) \<and> (\<forall>s. sx_migrate Q s = (Inr (), s))"

definition test_pool :: "'a db_scheme sqlx \<Rightarrow> ('a db_scheme, unit, unit) action" where
  "test_pool Q = unwrap (connect Q ''sqlite::memory:'')"

text \<open>An environment without faults, whose identifiers differ.\<close>

definition test_env :: "'a db_scheme \<Rightarrow> bool" where
  "test_env s \<longleftrightarrow> healthy s \<and> inj_on (env_uuid_src s) {..env_uuids s + 20}"

lemma passes_pool:
  "opens_memory Q \<Longrightarrow> passes (and_then (test_pool Q) k) s \<longleftrightarrow> passes (k ()) (empty_db s)"
  unfolding test_pool_def
  by (rule passes_unwrap) (auto simp: opens_memory_def connect_def Let_def and_then_def)

lemma empty_db_fields [simp]:
  "env_faults (empty_db s) = env_faults s" "env_uuids (empty_db s) = env_uuids s" "env_uuid_src (empty_db s) = env_uuid_src s"
  "env_ticks (empty_db s) = env_ticks s" "env_clock (empty_db s) = env_clock s" "healthy (empty_db s) = healthy s"
  "db_investigators (empty_db s) = []" "db_transactions (empty_db s) = []" "db_cursors (empty_db s) = []"
  "db_dead_letters (empty_db s) = []" "db_flagged (empty_db s) = []"
  by (simp_all add: empty_db_def healthy_def)

lemma empty_db_working: "codecs_ok X \<Longrightarrow> json_writes X \<Longrightarrow> healthy s \<Longrightarrow> working X (empty_db s)"
  by (rule working_empty) (simp_all add: empty_review_def, simp_all add: empty_db_def)

section \<open>The scenarios\<close>

definition migrations_and_round_trip_alert_and_audit :: "crates \<Rightarrow> 'a db_scheme sqlx \<Rightarrow> ('a db_scheme, unit, unit) action" where
  "migrations_and_round_trip_alert_and_audit X Q =
     and_then (test_pool Q) (\<lambda>_.
     let service = alert_service_new (sqlite_alert_ops X) (sqlite_audit_ops X) in
     and_then (unwrap (create_alert service (test_alert [''GALICE''] [asset_native] 70 High))) (\<lambda>a.
     and_then (unwrap (get_alert service (al_id a))) (\<lambda>found.
     and_then (unwrap_some found) (\<lambda>reloaded.
     and_then (assert_that (al_tx_id reloaded = ''tx1'')) (\<lambda>_.
     and_then (unwrap (submit_decision X service (al_id a) ''inv-1'' Escalated ''needs senior review'')) (\<lambda>_.
     and_then (unwrap (get_alert service (al_id a))) (\<lambda>found.
     and_then (unwrap_some found) (\<lambda>after.
     and_then (assert_that (al_status after = alert_status.Escalated)) (\<lambda>_.
     and_then (unwrap (au_verify_chain (sqlite_audit_ops X))) (\<lambda>verification.
     and_then (assert_that (cv_valid verification)) (\<lambda>_.
       assert_that (cv_records_checked verification \<ge> 2))))))))))))"

definition history_tx :: "datetime \<Rightarrow> decimal \<Rightarrow> nat \<Rightarrow> normalized_transaction" where
  "history_tx now amount i =
     \<lparr>tx_id = ''tx-'' @ show_nat i, tx_ledger = 1, tx_created_at = now - seconds (10 * int i), tx_source_account = ''GALICE'',
      tx_fee_charged = 100, tx_memo = None, tx_operation_count = 1, tx_successful = True,
      tx_movements = [\<lparr>mv_asset = asset_native, mv_from = ''GALICE'', mv_to = ''GBOB'', mv_amount = amount\<rparr>],
      tx_contract_ids = []\<rparr>"

fun save_each :: "crates \<Rightarrow> datetime \<Rightarrow> nat list \<Rightarrow> ('a db_scheme, unit, unit) action" where
  "save_each X now [] = ok ()"
| "save_each X now (i # is) =
     and_then (unwrap_some (cr_dec_parse X ''50'')) (\<lambda>amount.
     and_then (unwrap (tx_save X (history_tx now amount i))) (\<lambda>_. save_each X now is))"

definition transaction_repository_round_trip_and_history :: "crates \<Rightarrow> 'a db_scheme sqlx \<Rightarrow> ('a db_scheme, unit, unit) action" where
  "transaction_repository_round_trip_and_history X Q =
     and_then (test_pool Q) (\<lambda>_.
     and_then utc_now (\<lambda>now.
     and_then (save_each X now [0..<3]) (\<lambda>_.
     and_then (unwrap (tx_get X ''tx-0'')) (\<lambda>found.
     and_then (unwrap_some found) (\<lambda>fetched.
     and_then (assert_that (tx_source_account fetched = ''GALICE'')) (\<lambda>_.
     and_then (unwrap (build_account_history X ''GALICE'' now (minutes 5) (hours 24))) (\<lambda>history.
     and_then (assert_that (length (ah_recent_transactions history) = 3)) (\<lambda>_.
       assert_that (''native'' \<in> ah_known_assets history)))))))))"

definition investigator_repository_round_trip :: "crates \<Rightarrow> 'a db_scheme sqlx \<Rightarrow> ('a db_scheme, unit, unit) action" where
  "investigator_repository_round_trip X Q =
     and_then (test_pool Q) (\<lambda>_.
     and_then (unwrap (investigator_create X ''alice'' ''hash123'' Investigator)) (\<lambda>_.
     and_then (unwrap (find_by_username ''alice'')) (\<lambda>found.
     and_then (unwrap_some found) (\<lambda>found.
     and_then (assert_that (inv_role (iw_investigator found) = Investigator)) (\<lambda>_.
     and_then (assert_that (iw_password_hash found = ''hash123'')) (\<lambda>_.
     and_then (unwrap (find_by_username ''nobody'')) (\<lambda>found.
       assert_that (found = None))))))))"

definition ingestion_dead_letter_and_cursor :: "crates \<Rightarrow> 'a db_scheme sqlx \<Rightarrow> ('a db_scheme, unit, unit) action" where
  "ingestion_dead_letter_and_cursor X Q =
     and_then (test_pool Q) (\<lambda>_.
     and_then (unwrap (get_cursor ''horizon'')) (\<lambda>cursor.
     and_then (assert_that (cursor = None)) (\<lambda>_.
     and_then (unwrap (set_cursor X ''horizon'' ''cursor-1'')) (\<lambda>_.
     and_then (unwrap (get_cursor ''horizon'')) (\<lambda>cursor.
     and_then (unwrap_some cursor) (\<lambda>cursor.
     and_then (assert_that (cursor = ''cursor-1'')) (\<lambda>_.
     and_then (unwrap (add_dead_letter X ''horizon'' ''{}'' ''normalize failed'')) (\<lambda>_.
     and_then (unwrap (list_dead_letters 10)) (\<lambda>letters.
     and_then (assert_that (length letters = 1)) (\<lambda>_.
       assert_that (dl_error (letters ! 0) = ''normalize failed'')))))))))))"

section \<open>The model passes them\<close>

lemmas run_statements = passes_def unwrap_def map_err_act_def and_then_def query_def execute_def sql_call_def healthy_def
  assert_that_def unwrap_some_def utc_now_def new_uuid_def

theorem investigator_test:
  assumes "opens_memory Q" "healthy s"
  shows "passes (investigator_repository_round_trip X Q) s"
  using assms(2) unfolding investigator_repository_round_trip_def passes_pool [OF assms(1)]
  by (simp add: run_statements investigator_create_def insert_investigator_def find_by_username_def row_to_investigator_def
      role_from_str_def role_str_def transpose_opt_def)

theorem ingestion_bookkeeping_test:
  assumes "opens_memory Q" "healthy s"
  shows "passes (ingestion_dead_letter_and_cursor X Q) s"
  using assms(2) unfolding ingestion_dead_letter_and_cursor_def passes_pool [OF assms(1)]
  by (simp add: run_statements get_cursor_def set_cursor_def upsert_cursor_def add_dead_letter_def insert_dead_letter_def
      list_dead_letters_def sort_desc_key_def sql_limit_def dead_letter_of_row_def)

lemma passes_get:
  assumes "working X s" "sql_amap X s i = Some a"
    and "working X (s\<lparr>env_calls := Suc (env_calls s)\<rparr>) \<Longrightarrow> sql_amap X (s\<lparr>env_calls := Suc (env_calls s)\<rparr>) = sql_amap X s \<Longrightarrow>
      passes (k a) (s\<lparr>env_calls := Suc (env_calls s)\<rparr>)"
  shows "passes (and_then (unwrap (get_alert (sqlite_service X) i)) (\<lambda>found. and_then (unwrap_some found) k)) s"
proof -
  let ?t = "s\<lparr>env_calls := Suc (env_calls s)\<rparr>"
  have o: "outside_db s ?t" by (simp add: outside_db_def same_oracles_def)
  have "get_alert (sqlite_service X) i s = (Inr (Some a), ?t)"
    using get_healthy [OF workingD(1) [OF assms(1)] workingD(3) [OF assms(1)] assms(2)] by (simp add: get_alert_def sqlite_service_def)
  then show ?thesis
    using assms(3) working_outside [OF assms(1) o] outside_invs(2) [OF o, of X] by (simp add: passes_unwrap)
qed

lemma passes_create:
  assumes "working X s" "no_repeats (s\<lparr>env_uuids := Suc (env_uuids s)\<rparr>)"
    and "\<And>t. working X t \<Longrightarrow> same_oracles s t \<Longrightarrow> env_uuids t = Suc (Suc (env_uuids s))
      \<Longrightarrow> sql_amap X t (al_id (drawn_alert s na)) = Some (stored_alert X (drawn_alert s na))
      \<Longrightarrow> length (sql_log X t) = Suc (length (sql_log X s)) \<Longrightarrow> passes (k (drawn_alert s na)) t"
  shows "passes (and_then (unwrap (create_alert (sqlite_service X) na)) k) s"
proof -
  obtain t where t: "create_alert (sqlite_service X) na s = (Inr (drawn_alert s na), t)" "same_oracles s t" "working X t"
    "env_uuids t = Suc (Suc (env_uuids s))" "sql_amap X t (al_id (drawn_alert s na)) = Some (stored_alert X (drawn_alert s na))"
    "length (sql_log X t) = Suc (length (sql_log X s))"
    using create_run [OF assms(1,2), of na] by (auto simp: drawn_alert_def opened_alert_def)
  have "passes (k (drawn_alert s na)) t" by (rule assms(3) [OF t(3,2,4-6)])
  with t(1) show ?thesis by (simp add: passes_unwrap)
qed

lemma passes_decision:
  assumes "working X s" "no_repeats (s\<lparr>env_uuids := Suc (env_uuids s)\<rparr>)" "sql_amap X s i = Some a"
    and "\<And>rec t. working X t \<Longrightarrow> decision_stored X s i who d why rec t \<Longrightarrow> passes (k rec) t"
  shows "passes (and_then (unwrap (submit_decision X (sqlite_service X) i who d why)) k) s"
proof -
  obtain rec t where t: "submit_decision X (sqlite_service X) i who d why s = (Inr rec, t)" "working X t"
    "decision_stored X s i who d why rec t"
    using decision_run [OF assms(1-3), of who d why] by blast
  have "passes (k rec) t" by (rule assms(4) [OF t(2,3)])
  with t(1) show ?thesis by (simp add: passes_unwrap)
qed

lemma passes_verify:
  assumes "working X s"
    and "\<And>v t. cv_valid v \<Longrightarrow> cv_records_checked v = length (sql_log X s) \<Longrightarrow> passes (k v) t"
  shows "passes (and_then (unwrap (au_verify_chain (sqlite_audit_ops X))) k) s"
proof -
  obtain v t where t: "sqlite_verify_chain X s = (Inr v, t)"
    using list_reads_answer(2) [OF assms(1)] by (auto simp: answers_def)
  then have "v = \<lparr>cv_valid = True, cv_records_checked = length (sql_log X s), cv_broken_at_sequence = None, cv_detail = None\<rparr>"
    using sqlite_review.verify_ok [of X s v t] workingD(1) [OF assms(1)] by simp
  then have "passes (k v) t" by (intro assms(2)) simp_all
  with t show ?thesis by (simp add: passes_unwrap)
qed

theorem alert_and_audit_test:
  assumes "opens_memory Q" "test_env s" "codecs_ok X" "json_writes X"
  shows "passes (migrations_and_round_trip_alert_and_audit X Q) s"
proof -
  let ?na = "test_alert [''GALICE''] [asset_native] 70 High" and ?s = "empty_db s"
  have h: "healthy s" using assms(2) by (simp add: test_env_def)
  have drawn: "no_repeats u" if "env_uuid_src u = env_uuid_src s" "env_uuids u \<le> env_uuids s + 20" for u
    using assms(2) that by (auto simp: test_env_def no_repeats_def intro: inj_on_subset)
  show ?thesis
    unfolding migrations_and_round_trip_alert_and_audit_def passes_pool [OF assms(1)] Let_def sqlite_service_def [symmetric]
  proof (rule passes_create [OF empty_db_working [OF assms(3,4) h]], goal_cases)
    case 1
    show ?case by (rule drawn) simp_all
  next
    case (2 t)
    note length = 2(5)
    show ?case
    proof (rule passes_get [OF 2(1,4)], goal_cases)
      case 1
      let ?t = "t\<lparr>env_calls := Suc (env_calls t)\<rparr>"
      have n: "no_repeats (?t\<lparr>env_uuids := Suc (env_uuids ?t)\<rparr>)"
        by (rule drawn) (use 2(2,3) in \<open>simp_all add: same_oracles_def\<close>)
      have found: "sql_amap X ?t (al_id (drawn_alert ?s ?na)) = Some (stored_alert X (drawn_alert ?s ?na))"
        using 1(2) 2(4) by simp
      show ?case unfolding passes_assert(2)
      proof (intro conjI passes_decision [OF 1(1) n found], goal_cases)
        case 1
        show ?case by (simp add: stored_alert_def drawn_alert_def opened_alert_def test_alert_def)
      next
        case (2 rec u)
        have after: "sql_amap X u (al_id (drawn_alert ?s ?na)) = Some ((stored_alert X (drawn_alert ?s ?na))\<lparr>al_status := alert_status.Escalated\<rparr>)"
          and len: "2 \<le> length (sql_log X u)"
          using 2(2) found length
          by (auto simp: sqlite_calls_frame decision_stored_def update_alert_def status_of_decision_def)
        show ?case
        proof (rule passes_get [OF 2(1) after], goal_cases)
          case 1
          show ?case unfolding passes_assert(2)
            by (intro conjI passes_verify [OF 1(1)]) (use len in \<open>simp_all add: sqlite_calls_frame\<close>)
        qed
      qed
    qed
  qed
qed

text \<open>Saving the transactions of the history test.\<close>

lemma save_one:
  assumes "sql_tx_inv X s" "healthy s" "tx_id tx \<notin> tx_id ` set (sql_txs X s)"
  shows "\<exists>t. tx_save X tx s = (Inr (), t) \<and> sql_tx_inv X t \<and> healthy t \<and> sql_txs X t = sql_txs X s @ [tx]"
proof -
  have "codecs_ok X" using assms(1) by (simp add: sql_tx_inv_def)
  from save_undrawn [OF this assms(2), of tx] obtain t where t: "tx_save X tx s = (Inr (), t)" "undrawn s t" by blast
  with tx_save_result [OF assms(1) t(1)] undrawn_healthy [OF t(2) assms(2)] assms(3) show ?thesis by simp
qed

lemma save_each_run:
  assumes "sql_tx_inv X s" "healthy s" "cr_dec_parse X ''50'' = Some amount" "distinct is"
    and "\<forall>i \<in> set is. tx_id (history_tx now amount i) \<notin> tx_id ` set (sql_txs X s)"
  shows "\<exists>t. save_each X now is s = (Inr (), t) \<and> sql_tx_inv X t \<and> healthy t
    \<and> sql_txs X t = sql_txs X s @ map (history_tx now amount) is"
  using assms(1,2,4,5)
proof (induction "is" arbitrary: s)
  case Nil
  then show ?case by simp
next
  case (Cons i "is")
  obtain t where t: "tx_save X (history_tx now amount i) s = (Inr (), t)" "sql_tx_inv X t" "healthy t"
    "sql_txs X t = sql_txs X s @ [history_tx now amount i]"
    using save_one [OF Cons.prems(1,2), of "history_tx now amount i"] Cons.prems(4) by auto
  have "tx_id (history_tx now amount j) \<notin> tx_id ` set (sql_txs X t)" if "j \<in> set is" for j
    using that Cons.prems(3,4) t(4) by (auto simp: history_tx_def)
  with Cons.IH [OF t(2,3)] Cons.prems(3) obtain u where "save_each X now is t = (Inr (), u)" "sql_tx_inv X u" "healthy u"
    "sql_txs X u = sql_txs X t @ map (history_tx now amount) is" by auto
  then show ?case using t(1,4) assms(3)
    by (simp add: unwrap_some_def unwrap_def map_err_act_def and_then_def lift_res_def ok_or_def)
qed

lemma passes_tx_get:
  assumes "sql_tx_inv X s" "healthy s" "find (\<lambda>t. tx_id t = i) (sql_txs X s) = Some tx"
    and "\<And>t. outside_db s t \<Longrightarrow> passes (k tx) t"
  shows "passes (and_then (unwrap (tx_get X i)) (\<lambda>found. and_then (unwrap_some found) k)) s"
proof -
  obtain found t where t: "tx_get X i s = (Inr found, t)" "outside_db s t"
    using tx_read_answers [OF assms(1,2), of i] unfolding answers_def by blast
  then have "found = Some tx" using tx_get_result(2) [OF assms(1) t(1) HOL.refl] assms(3) by simp
  with t assms(4) show ?thesis by (simp add: passes_unwrap)
qed

theorem history_test:
  assumes "opens_memory Q" "healthy s" "codecs_ok X" "rfc3339_ordered X" "cr_dec_parse X ''50'' = Some amount"
    and "four_digit_year (env_clock s (env_ticks s))" "four_digit_year (env_clock s (env_ticks s) - hours 24)"
  shows "passes (transaction_repository_round_trip_and_history X Q) s"
proof -
  let ?now = "env_clock s (env_ticks s)" and ?u = "(empty_db s)\<lparr>env_ticks := Suc (env_ticks s)\<rparr>"
  let ?txs = "map (history_tx ?now amount) [0..<3]"
  have year: "four_digit_year d" if "?now - hours 24 \<le> d" "d \<le> ?now" for d
    using assms(6,7) that by (simp add: four_digit_year_def)
  have u: "sql_tx_inv X ?u" "healthy ?u" "sql_txs X ?u = []"
    using assms(2,3) by (simp_all add: sql_tx_inv_def sql_txs_def)
  from save_each_run [OF u(1,2) assms(5), of "[0..<3]" ?now] u(3) obtain t where
    t: "save_each X ?now [0..<3] ?u = (Inr (), t)" "sql_tx_inv X t" "healthy t" "sql_txs X t = ?txs" by auto
  have digits: "show_nat 0 = ''0''" "show_nat 1 = ''1''" "show_nat 2 = ''2''" by code_simp+
  have list: "[0..<3] = [0, 1, 2 :: nat]" by code_simp
  have first: "find (\<lambda>x. tx_id x = ''tx-0'') (sql_txs X t) = Some (history_tx ?now amount 0)"
    unfolding t(4) list by (simp add: history_tx_def digits)
  have rest: "passes (and_then (unwrap (build_account_history X ''GALICE'' ?now (minutes 5) (hours 24))) (\<lambda>history.
     and_then (assert_that (length (ah_recent_transactions history) = 3)) (\<lambda>_.
       assert_that (''native'' \<in> ah_known_assets history)))) v" if o: "outside_db t v" for v
  proof -
    have v: "sql_tx_inv X v" "healthy v" "sql_txs X v = ?txs" using outside_invs [OF o, of X] outside_healthy [OF o] t(2-4) by simp_all
    obtain h w where h: "build_account_history X ''GALICE'' ?now (minutes 5) (hours 24) v = (Inr h, w)"
      using history_undrawn [OF v(1,2)] by blast
    have "times_ok X v [?now - minutes 5, ?now - hours 24, ?now]"
      using assms(4) v(3) year by (auto simp: times_ok_def list history_tx_def minutes_def hours_def seconds_def)
    from account_history_exact [OF v(1) this, of "''GALICE''"] h v(3)
    have "mset (ah_recent_transactions h) = mset (concat (map (recent_of_tx ''GALICE'') ?txs))"
      "ah_known_assets h = \<Union> (asset_keys_of_tx ` set ?txs)"
      by (simp_all add: Let_def window_txs_def list history_tx_def minutes_def hours_def seconds_def)
    moreover from this(1) have "length (ah_recent_transactions h) = length (concat (map (recent_of_tx ''GALICE'') ?txs))"
      by (metis size_mset)
    ultimately have "length (ah_recent_transactions h) = 3" "''native'' \<in> ah_known_assets h"
      by (simp_all add: list history_tx_def recent_of_tx_def asset_keys_of_tx_def asset_key_def asset_native_def)
    with h show ?thesis by (simp add: passes_unwrap)
  qed
  have now: "passes (and_then utc_now k) (empty_db s) \<longleftrightarrow> passes (k ?now) ?u" for k
    by (simp add: passes_def and_then_def utc_now_def)
  have saved: "passes (and_then (save_each X ?now [0..<3]) k) ?u \<longleftrightarrow> passes (k ()) t" for k
    using t(1) by (simp add: passes_def and_then_def)
  show ?thesis
    unfolding transaction_repository_round_trip_and_history_def passes_pool [OF assms(1)] now saved
    by (rule passes_tx_get [OF t(2,3) first], unfold passes_assert(2), rule conjI)
      (simp add: history_tx_def, rule rest)
qed

end
