(* ===== verification/TestsApi.thy ===== *)
theory TestsApi
  imports TestsStorage TestsIngestion "HOL-Library.Countable"
begin

text \<open>
  The end-to-end tests of \<open>api/src/lib.rs\<close>: \<open>bootstrap\<close> on an in-memory database without credentials,
  then calls of the pipeline and requests to the router. The first part says what the calls of these
  tests do on a working database; the second part has the tests.
\<close>

section \<open>An alert with an advisor that is not configured\<close>

lemma requested_run:
  assumes "working X s" "no_repeats s"
  shows "\<exists>t q. record_ai_advisory_requested (sqlite_service X) i x payload s = (Inr (), t) \<and> working X t \<and> same_oracles s t
    \<and> env_uuids t = Suc (env_uuids s) \<and> sql_amap X t = sql_amap X s \<and> sql_log X t = sql_log X s @ [entry_of q]"
proof -
  from append_run [OF assms, of "alert_event (AiAdvisoryRequested payload) i x"] obtain q t where
    t: "sqlite_append X (alert_event (AiAdvisoryRequested payload) i x) s = (Inr q, t)" "same_oracles s t" "working X t"
    "env_uuids t = Suc (env_uuids s)" "sql_amap X t = sql_amap X s" "sql_log X t = sql_log X s @ [entry_of q]" by blast
  then show ?thesis
    by (intro exI [of _ t] exI [of _ q]) (simp add: record_ai_advisory_requested_def log_event_sqlite and_then_def map_err_act_def)
qed

lemma unavailable_run:
  assumes "working X s" "no_repeats s"
  shows "\<exists>t q now. record_ai_unavailable (sqlite_service X) i x reason s = (Inr (), t) \<and> working X t \<and> same_oracles s t
    \<and> env_uuids t = Suc (env_uuids s)
    \<and> sql_amap X t = update_alert i (\<lambda>a. a\<lparr>al_ai_status := stored_ai X (Unavailable reason now)\<rparr>) (sql_amap X s)
    \<and> sql_log X t = sql_log X s @ [entry_of q] \<and> records_event X (alert_event (AiAdvisoryUnavailable reason) i x) q"
proof -
  let ?now = "env_clock s (env_ticks s)" and ?s = "s\<lparr>env_ticks := Suc (env_ticks s)\<rparr>"
  have o: "outside_db s ?s" by simp
  note w = working_outside [OF assms(1) o] and same = outside_invs [OF o, of X]
  obtain r u where u: "sqlite_set_ai_status X i (Unavailable reason ?now) ?s = (r, u)" by fastforce
  have ou: "same_oracles ?s u" by (rule letters_oracles [OF preservesD [OF letters_stores(2) u]])
  have n: "env_uuids u = env_uuids s"
    using u workingD(3) [OF w]
    by (auto simp: sqlite_set_ai_status_def and_then_def lift_res_def map_err_act_def execute_def sql_call_def healthy_def
        update_ai_status_def split: sum.splits)
  have "env_uuid_src u = env_uuid_src s" using ou by (simp add: same_oracles_def)
  then have nr: "no_repeats u" using assms(2) n by (simp add: no_repeats_def)
  note c = completesD [OF set_ai_completes [of X never i "Unavailable reason ?now"] u]
  obtain x' where r: "r = Inr x'" using c(2) [OF w nr] by (cases r) auto
  have wu: "working X u" using c(1) w nr by (simp add: works_on_def)
  note ai = sqlite_review.set_ai_ok [of X ?s i "Unavailable reason ?now" x' u] sqlite_review.set_ai_frame [of X ?s i "Unavailable reason ?now" r u]
  from append_run [OF wu nr, of "alert_event (AiAdvisoryUnavailable reason) i x"] obtain q t where
    t: "sqlite_append X (alert_event (AiAdvisoryUnavailable reason) i x) u = (Inr q, t)" "same_oracles u t" "working X t"
    "env_uuids t = Suc (env_uuids u)" "sql_amap X t = sql_amap X u" "sql_log X t = sql_log X u @ [entry_of q]"
    "records_event X (alert_event (AiAdvisoryUnavailable reason) i x) q" by blast
  have "record_ai_unavailable (sqlite_service X) i x reason s = (Inr (), t)"
    using u r t(1) by (simp add: record_ai_unavailable_def log_event_sqlite sqlite_service_def log_event_def and_then_def utc_now_def map_err_act_def)
  moreover have "same_oracles s t"
    using oracles.trans [OF oracles.trans [OF _ ou] t(2)] o by (simp add: outside_db_def)
  ultimately show ?thesis using t(3-7) n ai same workingD(1) [OF w] u r
    by (intro exI [of _ t] exI [of _ q] exI [of _ ?now]) auto
qed

text \<open>With an advisor that is not configured: two log entries, and why there is no advice.\<close>

lemma unconfigured_run:
  assumes "app_alerts st = sqlite_service X" "app_advisor st = null_advisor" "working X s"
    and "no_repeats (s\<lparr>env_uuids := Suc (env_uuids s)\<rparr>)"
  shows "\<exists>t q1 q2 now. request_ai_advisory X st a tx h s = t \<and> working X t \<and> same_oracles s t
    \<and> env_uuids t = env_uuids s + 2
    \<and> sql_amap X t = update_alert (al_id a)
        (\<lambda>a. a\<lparr>al_ai_status := stored_ai X (Unavailable (advisor_error_text AdvNotConfigured) now)\<rparr>) (sql_amap X s)
    \<and> sql_log X t = sql_log X s @ [entry_of q1, entry_of q2]
    \<and> records_event X (alert_event (AiAdvisoryUnavailable (advisor_error_text AdvNotConfigured)) (al_id a) (tx_id tx)) q2"
proof -
  let ?na = "advisor_error_text AdvNotConfigured"
  have "same_oracles s (s\<lparr>env_uuids := Suc (env_uuids s)\<rparr>)" by (simp add: same_oracles_def)
  from requested_run [OF assms(3) no_repeats_mono [OF this assms(4)], of "al_id a" "tx_id tx"
      "to_payload X (advisory_request_of X a tx h)"] obtain w q1 where
    w: "record_ai_advisory_requested (sqlite_service X) (al_id a) (tx_id tx) (to_payload X (advisory_request_of X a tx h)) s = (Inr (), w)"
      "working X w" "same_oracles s w" "env_uuids w = Suc (env_uuids s)" "sql_amap X w = sql_amap X s" "sql_log X w = sql_log X s @ [entry_of q1]"
    by blast
  have "no_repeats w" using assms(4) w(3,4) by (simp add: no_repeats_def same_oracles_def)
  from unavailable_run [OF w(2) this, of "al_id a" "tx_id tx" ?na] obtain t q2 now where
    t: "record_ai_unavailable (sqlite_service X) (al_id a) (tx_id tx) ?na w = (Inr (), t)" "working X t" "same_oracles w t"
      "env_uuids t = Suc (env_uuids w)"
      "sql_amap X t = update_alert (al_id a) (\<lambda>a. a\<lparr>al_ai_status := stored_ai X (Unavailable ?na now)\<rparr>) (sql_amap X w)"
      "sql_log X t = sql_log X w @ [entry_of q2]" "records_event X (alert_event (AiAdvisoryUnavailable ?na) (al_id a) (tx_id tx)) q2"
    by blast
  have "request_ai_advisory X st a tx h s = t"
    using w(1) t(1) by (simp add: request_ai_advisory_def assms(1,2) null_advisor_def Let_def)
  with t w oracles.trans [OF w(3) t(3)] show ?thesis
    by (intro exI [of _ t] exI [of _ q1] exI [of _ q2] exI [of _ now]) simp
qed

text \<open>A suspicious transaction: the alert, its three log entries, and the four identifiers drawn.\<close>

definition alert_opened ::
  "crates \<Rightarrow> 'a db_scheme app_state \<Rightarrow> normalized_transaction \<Rightarrow> 'a db_scheme \<Rightarrow> uuid \<Rightarrow> 'a db_scheme \<Rightarrow> bool" where
  "alert_opened X st tx s i t \<longleftrightarrow>
     (\<exists>a h now q1 q2 q3 rs sev score. sql_amap X t i = Some a \<and> al_status a = Open
        \<and> al_ai_status a = stored_ai X (Unavailable (advisor_error_text AdvNotConfigured) now)
        \<and> al_triggered_rules a = reread (cr_triggers X)
             (evaluate_all (with_built_ins X) (evaluation_ctx st tx h (set (map flr_account_id (db_flagged s)))))
        \<and> sql_log X t = sql_log X s @ [entry_of q1, entry_of q2, entry_of q3]
        \<and> records_event X (alert_event (AlertCreated (tx_id tx) rs sev score) i (tx_id tx)) q1
        \<and> records_event X (alert_event (AiAdvisoryUnavailable (advisor_error_text AdvNotConfigured)) i (tx_id tx)) q3)"

lemma process_run:
  assumes "app_alerts st = sqlite_service X" "app_advisor st = null_advisor" "app_registry st = with_built_ins X"
    and "app_scoring st = scoring_config_default"
    and "working X s" "no_repeats (s\<lparr>env_uuids := env_uuids s + 3\<rparr>)"
    and "suspicious (app_rules st) (set (map flr_account_id (db_flagged s))) tx"
  shows "\<exists>i t. process_transaction X st tx s = (Inr (Some i), t) \<and> working X t \<and> same_oracles s t
    \<and> env_uuids t = env_uuids s + 4 \<and> db_investigators t = db_investigators s
    \<and> alert_opened X st tx s i t"
proof -
  let ?flagged = "set (map flr_account_id (db_flagged s))" and ?na = "advisor_error_text AdvNotConfigured"
  have fresh: "no_repeats v" if "env_uuid_src v = env_uuid_src s" "env_uuids v \<le> env_uuids s + 3" for v
    using assms(6) that by (auto simp: no_repeats_def intro: inj_on_subset)
  obtain h u where run: "assess_transaction X st tx s =
      (Inr (h, evaluate (with_built_ins X) (evaluation_ctx st tx h ?flagged) scoring_config_default), u)" and u: "undrawn s u"
    using assess_undrawn [OF workingD(2) [OF assms(5)] workingD(3) [OF assms(5)], of st tx] unfolding assms(3,4) by blast
  let ?ev = "evaluate (with_built_ins X) (evaluation_ctx st tx h ?flagged) scoring_config_default"
  have us: "env_uuid_src u = env_uuid_src s" "env_uuids u = env_uuids s" "sql_amap X u = sql_amap X s" "sql_log X u = sql_log X s"
    using u review_kept_same [of s u X] by (simp_all add: undrawn_def)
  have "no_repeats u" by (rule fresh) (simp_all add: us)
  then have wu: "working X u" using completesD(1) [OF assess_completes run] assms(5) by (simp add: works_on_def)
  have ou: "same_oracles s u" using completesD(1) [OF assess_completes run] by (simp add: works_on_def)
  have "\<exists>sev. er_severity ?ev = Some sev \<and> Medium \<le> sev"
    by (intro suspicious_score) (use assms(7) in \<open>simp add: evaluation_ctx_def\<close>)
  then obtain sev where sev: "er_severity ?ev = Some sev" by blast
  let ?new = "new_alert_of tx ?ev sev" let ?a = "drawn_alert u ?new"
  have "no_repeats (u\<lparr>env_uuids := Suc (env_uuids u)\<rparr>)" by (rule fresh) (simp_all add: us)
  from create_run [OF wu this, of ?new] obtain v q1 where v: "create_alert (sqlite_service X) ?new u = (Inr ?a, v)" "same_oracles u v"
    "working X v" "env_uuids v = Suc (Suc (env_uuids u))" "sql_amap X v = (sql_amap X u)(env_uuid_src u (env_uuids u) \<mapsto> stored_alert X ?a)"
    "sql_log X v = sql_log X u @ [entry_of q1]" "records_event X (created_event ?a) q1" by blast
  have fields: "al_id ?a = env_uuid_src u (env_uuids u)" "al_status ?a = Open" "al_tx_id ?a = tx_id tx"
    "al_triggered_rules ?a = er_triggers ?ev"
    by (simp_all add: drawn_alert_def opened_alert_def new_alert_of_def Let_def split_def)
  let ?i = "al_id ?a"
  have "no_repeats (v\<lparr>env_uuids := Suc (env_uuids v)\<rparr>)" by (rule fresh) (use v(2,4) us in \<open>simp_all add: same_oracles_def\<close>)
  from unconfigured_run [OF assms(1,2) v(3) this, of ?a tx h] obtain t q2 q3 now where
    t: "request_ai_advisory X st ?a tx h v = t" "working X t" "same_oracles v t" "env_uuids t = env_uuids v + 2"
      "sql_amap X t = update_alert ?i (\<lambda>a. a\<lparr>al_ai_status := stored_ai X (Unavailable ?na now)\<rparr>) (sql_amap X v)"
      "sql_log X t = sql_log X v @ [entry_of q2, entry_of q3]" "records_event X (alert_event (AiAdvisoryUnavailable ?na) ?i (tx_id tx)) q3"
    by blast
  from t(1) have proc: "process_transaction X st tx s = (Inr (Some ?i), t)"
    using run sev v(1) assms(1) by (simp add: process_transaction_def and_then_def display_err_def map_err_act_def del: evaluate_sel)
  have adv: "outside_call (app_advisor st)" unfolding assms(2) by (rule null_outside.outside_call_axioms)
  have "same_oracles s t" by (rule oracles.trans [OF oracles.trans [OF ou v(2)] t(3)])
  moreover have "db_investigators t = db_investigators s"
    using preservesD [OF rows.process [OF assms(1) adv] proc] by (simp add: rows_kept_def)
  moreover have "sql_amap X t ?i = Some ((stored_alert X ?a)\<lparr>al_ai_status := stored_ai X (Unavailable ?na now)\<rparr>)"
    using t(5) v(5) fields(1) by (simp add: update_alert_def)
  then have "alert_opened X st tx s ?i t"
    using t(6,7) v(6,7) us fields unfolding alert_opened_def
    by (intro exI [of _ "(stored_alert X ?a)\<lparr>al_ai_status := stored_ai X (Unavailable ?na now)\<rparr>"] exI [of _ h] exI [of _ now]
        exI [of _ q1] exI [of _ q2] exI [of _ q3] exI [of _ "map rt_rule_id (al_triggered_rules ?a)"] exI [of _ "al_severity ?a"]
        exI [of _ "al_score ?a"])
      (simp add: stored_alert_def created_event_def alert_created_event_def)
  ultimately show ?thesis using proc t(2,4) v(4) us by (intro exI [of _ ?i] exI [of _ t]) simp
qed

section \<open>The scenarios\<close>

definition test_config :: config where
  "test_config =
     \<lparr>cf_database_url = ''sqlite::memory:'', cf_bind_addr = ''127.0.0.1:0'', cf_jwt_secret = ''test-secret'',
      cf_anthropic_api_key = None, cf_anthropic_model = None, cf_horizon_url = None,
      cf_admin_username = ''admin'', cf_admin_password = ''admin-password'', cf_soroban_contract_id = None,
      cf_soroban_network = None, cf_soroban_source_account = None, cf_poll_interval_secs = 15\<rparr>"

text \<open>
  The parser of the model's answer and the decoders of Horizon's pages, which no test calls, the \<open>sqlx\<close> calls and the two
  salts are arguments.
\<close>

record 's test_libs =
  tl_auth :: auth_crates
  tl_parse_raw :: "json \<Rightarrow> string + raw_advisory_input"
  tl_pages :: horizon_codec
  tl_sqlx :: "'s sqlx"
  tl_admin_salt :: string
  tl_user_salt :: string

type_synonym ('a, 'r) node_test = "('a node_scheme, unit, 'r) action"

definition test_state :: "crates \<Rightarrow> 'a node_scheme test_libs \<Rightarrow> ('a, 'a node_scheme app_state) node_test" where
  "test_state X L =
     and_then (unwrap (bootstrap X (tl_auth L) (tl_parse_raw L) (tl_pages L) (tl_sqlx L) (tl_admin_salt L) test_config))
       (\<lambda>(st, _, _). ok st)"

text \<open>\<open>resp.status()\<close>: none after a panic, which ends the test.\<close>

definition status_of :: "failure + response \<Rightarrow> nat option" where
  "status_of r =
     (case r of Inl f \<Rightarrow> map_option fst (failure_response f) | Inr (Redirect _ _) \<Rightarrow> Some 303 | Inr _ \<Rightarrow> Some 200)"

definition bearer :: "string \<Rightarrow> parts" where
  "bearer token = \<lparr>pt_authorization = Some (''Bearer '' @ token), pt_cookie = None\<rparr>"

definition oneshot ::
  "crates \<Rightarrow> 'a node_scheme test_libs \<Rightarrow> 'a node_scheme app_state \<Rightarrow> parts \<Rightarrow> request \<Rightarrow> ('a, failure + response) node_test" where
  "oneshot X L st p q = outcome_of (serve X (tl_auth L) st p q)"

definition test_login ::
  "crates \<Rightarrow> 'a node_scheme test_libs \<Rightarrow> 'a node_scheme app_state \<Rightarrow> string \<Rightarrow> string \<Rightarrow> ('a, string) node_test" where
  "test_login X L st username password =
     and_then (oneshot X L st no_parts (Login \<lparr>lg_username = username, lg_password = password\<rparr>)) (\<lambda>resp.
     and_then (assert_that (status_of resp = Some 200)) (\<lambda>_.
       unwrap_some (case resp of Inr (JsonLogin r) \<Rightarrow> Some (lr_token r) | _ \<Rightarrow> None)))"

definition health_check_is_public :: "crates \<Rightarrow> 'a node_scheme test_libs \<Rightarrow> ('a, unit) node_test" where
  "health_check_is_public X L =
     and_then (test_state X L) (\<lambda>st.
     and_then (oneshot X L st no_parts Health) (\<lambda>resp.
       assert_that (status_of resp = Some 200)))"

definition unauthenticated_requests_to_alerts_are_rejected ::
  "crates \<Rightarrow> 'a node_scheme test_libs \<Rightarrow> ('a, unit) node_test" where
  "unauthenticated_requests_to_alerts_are_rejected X L =
     and_then (test_state X L) (\<lambda>st.
     and_then (oneshot X L st no_parts (ListAlerts Map.empty)) (\<lambda>resp.
       assert_that (status_of resp = Some 401)))"

definition pipeline_tx :: "string \<Rightarrow> datetime \<Rightarrow> string \<Rightarrow> string \<Rightarrow> asset \<Rightarrow> decimal \<Rightarrow> normalized_transaction" where
  "pipeline_tx i now source target asset amount =
     \<lparr>tx_id = i, tx_ledger = 1, tx_created_at = now, tx_source_account = source, tx_fee_charged = 100, tx_memo = None,
      tx_operation_count = 1, tx_successful = True,
      tx_movements = [\<lparr>mv_asset = asset, mv_from = source, mv_to = target, mv_amount = amount\<rparr>], tx_contract_ids = []\<rparr>"

text \<open>The start of the last three tests: the server and a user.\<close>

definition test_user ::
  "crates \<Rightarrow> 'a node_scheme test_libs \<Rightarrow> string \<Rightarrow> string \<Rightarrow> role \<Rightarrow> ('a, 'a node_scheme app_state) node_test" where
  "test_user X L username password role =
     and_then (test_state X L) (\<lambda>st.
     and_then (unwrap_res (hash_password (tl_auth L) (tl_user_salt L) password)) (\<lambda>hash.
     and_then (unwrap (investigator_create X username hash role)) (\<lambda>_. ok st)))"

definition viewer_role_can_read_but_not_decide :: "crates \<Rightarrow> 'a node_scheme test_libs \<Rightarrow> ('a, unit) node_test" where
  "viewer_role_can_read_but_not_decide X L =
     and_then (test_user X L ''viewer1'' ''viewer-pass'' Viewer) (\<lambda>st.
     and_then utc_now (\<lambda>now.
     and_then (unwrap_some (cr_dec_parse X ''999999'')) (\<lambda>amount.
     and_then (unwrap (process_transaction X st (pipeline_tx ''tx-viewer-test'' now ''GWHALE'' ''GNEW'' asset_native amount))) (\<lambda>found.
     and_then (unwrap_some found) (\<lambda>alert_id.
     and_then (test_login X L st ''viewer1'' ''viewer-pass'') (\<lambda>token.
     and_then (oneshot X L st (bearer token) (GetAlert alert_id)) (\<lambda>resp.
     and_then (assert_that (status_of resp = Some 200)) (\<lambda>_.
     and_then (oneshot X L st (bearer token)
         (SubmitDecision alert_id \<lparr>dq_decision = ''dismissed'', dq_rationale = ''looks fine''\<rparr>)) (\<lambda>resp.
       assert_that (status_of resp = Some 403))))))))))"

definition ai_advisory_cannot_be_submitted_as_a_decision :: "crates \<Rightarrow> 'a node_scheme test_libs \<Rightarrow> ('a, unit) node_test" where
  "ai_advisory_cannot_be_submitted_as_a_decision X L =
     and_then (test_user X L ''inv1'' ''inv-pass'' Investigator) (\<lambda>st.
     and_then utc_now (\<lambda>now.
     and_then (unwrap_some (cr_dec_parse X ''999999'')) (\<lambda>amount.
     and_then (unwrap (process_transaction X st (pipeline_tx ''tx-ai-boundary'' now ''GWHALE2'' ''GNEW2'' asset_native amount))) (\<lambda>found.
     and_then (unwrap_some found) (\<lambda>alert_id.
     and_then (test_login X L st ''inv1'' ''inv-pass'') (\<lambda>token.
     and_then (oneshot X L st (bearer token) (GetAlertAi alert_id)) (\<lambda>ai_resp.
     and_then (assert_that (status_of ai_resp = Some 200)) (\<lambda>_.
     and_then (oneshot X L st (bearer token) (SubmitDecision alert_id
         \<lparr>dq_decision = ''risk_level_critical_recommend_freeze'', dq_rationale = ''trying to sneak this in''\<rparr>)) (\<lambda>resp.
     and_then (assert_that (status_of resp = Some 400)) (\<lambda>_.
     and_then (oneshot X L st (bearer token) (SubmitDecision alert_id
         \<lparr>dq_decision = ''escalated'', dq_rationale = ''confirmed via manual review''\<rparr>)) (\<lambda>resp.
       assert_that (status_of resp = Some 200))))))))))))"

definition full_pipeline_creates_alert_with_unavailable_ai_and_investigator_can_decide ::
  "crates \<Rightarrow> 'a node_scheme test_libs \<Rightarrow> ('a, unit) node_test" where
  "full_pipeline_creates_alert_with_unavailable_ai_and_investigator_can_decide X L =
     and_then (test_user X L ''inv1'' ''inv-pass'' Investigator) (\<lambda>st.
     and_then utc_now (\<lambda>now.
     and_then (unwrap_some (cr_dec_parse X ''10'')) (\<lambda>amount.
     let tx = pipeline_tx ''tx-full-pipeline'' now ''GFLAGGEDSRC'' ''GBADACTOR''
       \<lparr>as_code = ''USDC'', as_issuer = Some ''GISSUER''\<rparr> amount in
     and_then (unwrap (flagged_add X ''GBADACTOR'' ''test seed'' None)) (\<lambda>_.
     and_then (unwrap (process_transaction X st tx)) (\<lambda>found.
     and_then (unwrap_some found) (\<lambda>alert_id.
     and_then (unwrap (get_alert (app_alerts st) alert_id)) (\<lambda>found.
     and_then (unwrap_some found) (\<lambda>alert.
     and_then (assert_that (list_ex (\<lambda>r. rt_rule_id r = ''flagged_account_interaction'') (al_triggered_rules alert))) (\<lambda>_.
     and_then (assert_that (case al_ai_status alert of Unavailable _ _ \<Rightarrow> True | _ \<Rightarrow> False)) (\<lambda>_.
     and_then (assert_that (al_status alert = Open)) (\<lambda>_.
     and_then (unwrap (audit_history (app_alerts st) alert_id)) (\<lambda>audit_trail.
     and_then (assert_that (list_ex (\<lambda>r. case ar_event r of AlertCreated _ _ _ _ \<Rightarrow> True | _ \<Rightarrow> False) audit_trail)) (\<lambda>_.
     and_then (assert_that (list_ex (\<lambda>r. case ar_event r of AiAdvisoryUnavailable _ \<Rightarrow> True | _ \<Rightarrow> False) audit_trail)) (\<lambda>_.
     and_then (test_login X L st ''inv1'' ''inv-pass'') (\<lambda>token.
     and_then (oneshot X L st (bearer token) (SubmitDecision alert_id
         \<lparr>dq_decision = ''confirmed_suspicious'', dq_rationale = ''known bad counterparty, confirmed''\<rparr>)) (\<lambda>resp.
     and_then (assert_that (status_of resp = Some 200)) (\<lambda>_.
     and_then (oneshot X L st (bearer token) (GetAlert alert_id)) (\<lambda>get_resp.
       assert_that (case get_resp of
           Inr (JsonAlert a) \<Rightarrow> alert_status_str (al_status a) = ''confirmed_suspicious''
         | _ \<Rightarrow> False)))))))))))))))))))"

section \<open>The server of a test\<close>

text \<open>
  What is relied on: the in-memory database opens, claims are encoded and tokens hold what was
  encoded, a password is hashed and its hash verifies it, the codecs read what they write; and of the environment: no
  statement fails, identifiers differ, and the clock moves by less than twelve hours.
\<close>

definition libs_ok :: "crates \<Rightarrow> 'a node_scheme test_libs \<Rightarrow> bool" where
  "libs_ok X L \<longleftrightarrow> codecs_ok X \<and> json_writes X \<and> opens_memory (tl_sqlx L) \<and> tokens_ok (tl_auth L)
     \<and> (\<forall>c. \<exists>token. ac_encode (tl_auth L) c ''test-secret'' = Inr token)
     \<and> (\<forall>salt p. \<exists>h. ac_hash_password (tl_auth L) salt p = Inr h \<and> ac_verify_password (tl_auth L) p h = Some True)"

definition one_session :: "'a env_scheme \<Rightarrow> bool" where
  "one_session s \<longleftrightarrow> (\<forall>m n. 0 \<le> env_clock s m \<and> env_clock s m < 2 ^ 63
     \<and> env_clock s n div 1000000000 < (env_clock s m + hours 12) div 1000000000)"

definition during :: "crates \<Rightarrow> 'a db_scheme \<Rightarrow> nat \<Rightarrow> 'a db_scheme \<Rightarrow> bool" where
  "during X s0 n s \<longleftrightarrow> working X s \<and> env_uuid_src s = env_uuid_src s0 \<and> env_uuids s \<le> env_uuids s0 + n \<and> env_clock s = env_clock s0"

abbreviation test_app :: "crates \<Rightarrow> 'a node_scheme test_libs \<Rightarrow> 'a node_scheme app_state" where
  "test_app X L \<equiv> new_app_state X (tl_parse_raw L) test_config"

lemma test_app [simp]:
  "app_alerts (test_app X L) = sqlite_service X" "app_advisor (test_app X L) = null_advisor"
  "app_registry (test_app X L) = with_built_ins X" "app_scoring (test_app X L) = scoring_config_default"
  "app_rules (test_app X L) = rules_config_default" "app_jwt_secret (test_app X L) = ''test-secret''"
  "app_anchor (test_app X L) = noop_anchor"
  by (simp_all add: new_app_state_def chosen_advisor_def chosen_anchor_def test_config_def sqlite_service_def)

lemma during_fresh: "test_env s0 \<Longrightarrow> during X s0 n s \<Longrightarrow> n + k \<le> 20 \<Longrightarrow> no_repeats (s\<lparr>env_uuids := env_uuids s + k\<rparr>)"
  by (auto simp: test_env_def during_def no_repeats_def intro: inj_on_subset)

lemma during_read: "during X s0 n s \<Longrightarrow> outside_db s t \<Longrightarrow> env_uuids t = env_uuids s \<Longrightarrow> during X s0 n t"
  using working_outside [of X s t] by (simp add: during_def outside_db_def same_oracles_def)

lemma boot_run:
  assumes "libs_ok X L" "test_env s0"
  shows "\<exists>src name t row. bootstrap X (tl_auth L) (tl_parse_raw L) (tl_pages L) (tl_sqlx L) (tl_admin_salt L) test_config s0
      = (Inr (test_app X L, src, name), t)
    \<and> during X s0 1 t \<and> db_investigators t = [row] \<and> inr_username row = ''admin''
    \<and> inr_id row = cr_uuid_text X (env_uuid_src s0 (env_uuids s0)) \<and> env_uuids t = Suc (env_uuids s0)"
proof -
  obtain hash where hash: "ac_hash_password (tl_auth L) (tl_admin_salt L) ''admin-password'' = Inr hash"
    using assms(1) unfolding libs_ok_def by metis
  have c: "connect (tl_sqlx L) ''sqlite::memory:'' s0 = (Inr (), empty_db s0)"
    using assms(1) by (auto simp: libs_ok_def opens_memory_def connect_def Let_def and_then_def)
  have h: "env_faults s0 = (\<lambda>_. None)" using assms(2) by (auto simp: test_env_def healthy_def)
  let ?row = "\<lparr>inr_id = cr_uuid_text X (env_uuid_src s0 (env_uuids s0)), inr_username = ''admin'', inr_password_hash = hash,
    inr_role = role_str Admin, inr_created_at = cr_rfc3339 X (env_clock s0 (env_ticks s0))\<rparr>"
  obtain src name t where b: "bootstrap X (tl_auth L) (tl_parse_raw L) (tl_pages L) (tl_sqlx L) (tl_admin_salt L) test_config s0
      = (Inr (test_app X L, src, name), t)"
    and t: "db_investigators t = [?row]" "env_uuids t = Suc (env_uuids s0)" "env_uuid_src t = env_uuid_src s0"
      "env_clock t = env_clock s0" "healthy t" "db_transactions t = []" "empty_review t"
    by (simp add: bootstrap_def c and_then_def [of "connect Q u" for Q u] test_config_def)
      (simp add: h hash seed_admin_def chosen_source_def and_then_def display_err_def map_err_act_def investigator_count_def query_def
        sql_call_def hash_password_def investigator_create_def new_uuid_def utc_now_def execute_def insert_investigator_def
        demo_flagged_accounts_def flagged_add_def upsert_flagged_def healthy_def empty_review_def empty_db_def)
  have "\<exists>w. row_to_investigator ?row = Inr w" by (simp add: row_to_investigator_def)
  then have "working X t"
    using assms(1) t(1) by (intro working_empty t(5-7)) (simp_all add: libs_ok_def)
  then have "during X s0 1 t" using t by (simp add: during_def)
  with b t(1,2) show ?thesis by (intro exI conjI) auto
qed

text \<open>The user a test creates.\<close>

definition registered :: "auth_crates \<Rightarrow> 'a db_scheme \<Rightarrow> string \<Rightarrow> string \<Rightarrow> investigator \<Rightarrow> bool" where
  "registered A s username password who \<longleftrightarrow>
     (\<exists>row hash. find (\<lambda>r. inr_username r = username) (db_investigators s) = Some row
        \<and> row_to_investigator row = Inr \<lparr>iw_investigator = who, iw_password_hash = hash\<rparr>
        \<and> verify_password A password hash)"

lemma passes_state:
  assumes "libs_ok X L" "test_env s0"
    and "\<And>t. during X s0 1 t \<Longrightarrow> passes (k (test_app X L)) t"
  shows "passes (and_then (test_state X L) k) s0"
proof -
  from boot_run [OF assms(1,2)] obtain src name t where
    "bootstrap X (tl_auth L) (tl_parse_raw L) (tl_pages L) (tl_sqlx L) (tl_admin_salt L) test_config s0 = (Inr (test_app X L, src, name), t)"
    "during X s0 1 t" by blast
  then show ?thesis using assms(3) by (simp add: passes_def test_state_def unwrap_def map_err_act_def and_then_def)
qed

lemma working_users:
  assumes "working X s" "same_oracles s t" "review_kept s t" "db_transactions t = db_transactions s"
    and "list_all (\<lambda>r. \<exists>w. row_to_investigator r = Inr w) (db_investigators t)"
  shows "working X t"
  using assms review_kept_same [OF assms(3), of X] drawn_ids_mono [OF assms(2), of X]
  by (auto simp: working_def review_ids_def review_kept_def sql_tx_inv_def healthy_def same_oracles_def)

lemma user_run:
  assumes "libs_ok X L" "test_env s0" "username \<noteq> ''admin''"
  shows "\<exists>t who. test_user X L username password role s0 = (Inr (test_app X L), t) \<and> during X s0 2 t
    \<and> registered (tl_auth L) t username password who \<and> inv_role who = role"
proof -
  from boot_run [OF assms(1,2)] obtain src name s row where
    b: "bootstrap X (tl_auth L) (tl_parse_raw L) (tl_pages L) (tl_sqlx L) (tl_admin_salt L) test_config s0 = (Inr (test_app X L, src, name), s)"
    and s: "during X s0 1 s" "db_investigators s = [row]" "inr_username row = ''admin''"
      "inr_id row = cr_uuid_text X (env_uuid_src s0 (env_uuids s0))" "env_uuids s = Suc (env_uuids s0)" by blast
  obtain hash where hash: "ac_hash_password (tl_auth L) (tl_user_salt L) password = Inr hash" "ac_verify_password (tl_auth L) password hash = Some True"
    using assms(1) unfolding libs_ok_def by metis
  have w: "working X s" "env_uuid_src s = env_uuid_src s0" "env_clock s = env_clock s0" using s(1) by (simp_all add: during_def)
  have "codecs_ok X" "env_uuid_src s0 (Suc (env_uuids s0)) \<noteq> env_uuid_src s0 (env_uuids s0)"
    using assms(1,2) by (auto simp: libs_ok_def test_env_def inj_on_eq_iff)
  then have new: "cr_uuid_text X (env_uuid_src s (env_uuids s)) \<noteq> inr_id row" using s(4,5) w(2) by (simp add: uuid_text_inject)
  let ?i = "cr_uuid_text X (env_uuid_src s (env_uuids s))"
  let ?row = "\<lparr>inr_id = ?i, inr_username = username, inr_password_hash = hash, inr_role = role_str role,
    inr_created_at = cr_rfc3339 X (env_clock s (env_ticks s))\<rparr>"
  let ?who = "\<lparr>inv_id = ?i, inv_username = username, inv_role = role\<rparr>"
  let ?t = "s\<lparr>env_uuids := Suc (env_uuids s), env_ticks := Suc (env_ticks s), env_calls := Suc (env_calls s), db_investigators := [row, ?row]\<rparr>"
  have create: "investigator_create X username hash role s = (Inr ?who, ?t)"
    using workingD(3) [OF w(1)] new s(2,3) assms(3)
    by (simp add: investigator_create_def and_then_def new_uuid_def utc_now_def map_err_act_def execute_def sql_call_def healthy_def
        insert_investigator_def)
  have row: "row_to_investigator ?row = Inr \<lparr>iw_investigator = ?who, iw_password_hash = hash\<rparr>"
    by (simp add: row_to_investigator_def)
  have "registered (tl_auth L) ?t username password ?who"
    using row s(3) assms(3) hash(2) by (auto simp: registered_def verify_password_def)
  moreover have "working X ?t"
    using workingD(6) [OF w(1)] row s(2)
    by (intro working_users [OF w(1)]) (auto simp: same_oracles_def review_kept_def)
  then have "during X s0 2 ?t" using w s(5) by (simp add: during_def)
  moreover have "test_user X L username password role s0 = (Inr (test_app X L), ?t)"
    using b create hash(1) by (simp add: test_user_def test_state_def unwrap_def unwrap_res_def map_err_act_def and_then_def hash_password_def)
  ultimately show ?thesis by (intro exI [of _ ?t] exI [of _ ?who]) simp
qed

section \<open>The calls of a test\<close>

lemma passes_user:
  assumes "libs_ok X L" "test_env s0" "username \<noteq> ''admin''"
    and "\<And>t who. during X s0 2 t \<Longrightarrow> registered (tl_auth L) t username password who \<Longrightarrow> inv_role who = role
      \<Longrightarrow> passes (k (test_app X L)) t"
  shows "passes (and_then (test_user X L username password role) k) s0"
proof -
  from user_run [OF assms(1-3), of password role] obtain t who where
    t: "test_user X L username password role s0 = (Inr (test_app X L), t)" "during X s0 2 t"
      "registered (tl_auth L) t username password who" "inv_role who = role" by blast
  from assms(4) [OF t(2-4)] t(1) show ?thesis by (simp add: passes_def and_then_def)
qed

lemma passes_now:
  assumes "during X s0 n s"
    and "\<And>now t. during X s0 n t \<Longrightarrow> outside_db s t \<Longrightarrow> passes (k now) t"
  shows "passes (and_then utc_now k) s"
proof -
  let ?t = "s\<lparr>env_ticks := Suc (env_ticks s)\<rparr>"
  have o: "outside_db s ?t" by simp
  have "passes (k (env_clock s (env_ticks s))) ?t" by (rule assms(2) [OF during_read [OF assms(1) o] o]) simp_all
  then show ?thesis by (simp add: passes_def and_then_def utc_now_def)
qed

lemma passes_process:
  assumes "test_env s0" "during X s0 n s" "n \<le> 16" "suspicious rules_config_default (set (map flr_account_id (db_flagged s))) tx"
    and "\<And>i t. during X s0 (n + 4) t \<Longrightarrow> db_investigators t = db_investigators s \<Longrightarrow> alert_opened X (test_app X L) tx s i t
      \<Longrightarrow> passes (k i) t"
  shows "passes (and_then (unwrap (process_transaction X (test_app X L) tx)) (\<lambda>found. and_then (unwrap_some found) k)) s"
proof -
  note w = assms(2) [unfolded during_def]
  have "no_repeats (s\<lparr>env_uuids := env_uuids s + 3\<rparr>)" by (rule during_fresh [OF assms(1,2)]) (use assms(3) in simp)
  then obtain i t where t: "process_transaction X (test_app X L) tx s = (Inr (Some i), t)" "working X t" "same_oracles s t"
    "env_uuids t = env_uuids s + 4" "db_investigators t = db_investigators s"
    "alert_opened X (test_app X L) tx s i t"
    using process_run [of "test_app X L" X s tx] w assms(4) by auto
  have "during X s0 (n + 4) t" using t(2-4) w by (simp add: during_def same_oracles_def)
  from assms(5) [OF this t(5,6)] t(1) show ?thesis by (simp add: passes_unwrap)
qed

text \<open>The token of a login, for the rest of the test.\<close>

definition session :: "'a node_scheme test_libs \<Rightarrow> 'b env_scheme \<Rightarrow> string \<Rightarrow> investigator \<Rightarrow> bool" where
  "session L s0 token who \<longleftrightarrow> (\<forall>u :: 'b env_scheme. env_clock u = env_clock s0 \<longrightarrow>
     auth_user (tl_auth L) ''test-secret'' (bearer token) u = (Inr who, u\<lparr>env_ticks := Suc (env_ticks u)\<rparr>))"

lemma passes_login:
  assumes "libs_ok X L" "one_session s0" "during X s0 n s" "registered (tl_auth L) s username password who"
    and "\<And>token t. during X s0 n t \<Longrightarrow> outside_db s t \<Longrightarrow> session L s0 token who \<Longrightarrow> passes (k token) t"
  shows "passes (and_then (test_login X L (test_app X L) username password) k) s"
proof -
  obtain row hash where row: "find (\<lambda>r. inr_username r = username) (db_investigators s) = Some row"
    "row_to_investigator row = Inr \<lparr>iw_investigator = who, iw_password_hash = hash\<rparr>" "verify_password (tl_auth L) password hash"
    using assms(4) unfolding registered_def by blast
  note w = assms(3) [unfolded during_def]
  let ?now = "env_clock s (env_ticks s)"
  let ?t = "s\<lparr>env_calls := Suc (env_calls s), env_ticks := Suc (env_ticks s)\<rparr>"
  obtain token where token: "ac_encode (tl_auth L) \<lparr>clm_sub = inv_id who, clm_username = inv_username who,
      clm_role = role_str (inv_role who), clm_exp = expiry ?now\<rparr> ''test-secret'' = Inr token"
    using assms(1) unfolding libs_ok_def by metis
  have "env_faults s = (\<lambda>_. None)" using workingD(3) w by (auto simp: healthy_def)
  then have "checked_login (tl_auth L) ''test-secret'' \<lparr>lg_username = username, lg_password = password\<rparr> s = (Inr (who, token), ?t)"
    using row token
    by (simp add: checked_login_def find_by_username_def query_def sql_call_def and_then_def map_err_act_def transpose_opt_def
        issue_token_def utc_now_def)
  then have login: "test_login X L (test_app X L) username password s = (Inr token, ?t)"
    by (simp add: test_login_def oneshot_def outcome_of_def login_def answer_def and_then_def map_err_act_def assert_that_def
        status_of_def unwrap_some_def)
  have "session L s0 token who" unfolding session_def
  proof (intro allI impI)
    fix u :: "'b env_scheme" assume "env_clock u = env_clock s0"
    with assms(1,2) w show "auth_user (tl_auth L) ''test-secret'' (bearer token) u = (Inr who, u\<lparr>env_ticks := Suc (env_ticks u)\<rparr>)"
      by (intro issued_token_user [OF _ _ token]) (simp_all add: libs_ok_def presents_def bearer_def one_session_def)
  qed
  moreover have o: "outside_db s ?t" by (simp add: outside_db_def same_oracles_def)
  ultimately show ?thesis using assms(5) [OF during_read [OF assms(3) o] o] login by (simp add: passes_def and_then_def)
qed

text \<open>Requests with that token.\<close>

lemma session_user:
  assumes "session L s0 token who" "during X s0 n s"
  shows "authenticated (tl_auth L) (test_app X L) (bearer token) s = (Inr who, s\<lparr>env_ticks := Suc (env_ticks s)\<rparr>)"
  using assms by (simp add: session_def during_def authenticated_def map_err_act_def)

lemma passes_request:
  "serve X (tl_auth L) st p q s = (r, t) \<Longrightarrow> passes (k r) t \<Longrightarrow> passes (and_then (oneshot X L st p q) k) s"
  by (simp add: oneshot_def passes_outcome)

lemma passes_alert_requests:
  assumes "session L s0 token who" "during X s0 n s" "sql_amap X s i = Some a" "\<And>t. during X s0 n t \<Longrightarrow> outside_db s t \<Longrightarrow> passes (k r) t"
    and "q = GetAlert i \<and> r = Inr (JsonAlert a) \<or> q = GetAlertAi i \<and> r = Inr (JsonAiStatus (al_ai_status a))"
  shows "passes (and_then (oneshot X L (test_app X L) (bearer token) q) k) s"
proof -
  let ?u = "s\<lparr>env_ticks := Suc (env_ticks s)\<rparr>" and ?t = "s\<lparr>env_ticks := Suc (env_ticks s), env_calls := Suc (env_calls s)\<rparr>"
  have o: "outside_db s ?u" "outside_db s ?t" by (simp_all add: outside_db_def same_oracles_def)
  have w: "working X s" using assms(2) by (simp add: during_def)
  have "sqlite_get X i ?u = (Inr (Some a), ?t)"
    using get_healthy [of X ?u i a] working_outside [OF w o(1)] outside_invs [OF o(1), of X] assms(3)
    by (simp add: working_def)
  then have "serve X (tl_auth L) (test_app X L) (bearer token) q s = (r, ?t)"
    using assms(5) session_user [OF assms(1,2)]
    by (auto simp: answer_def api_get_alert_def api_get_alert_ai_def domain_call_Inr get_alert_def sqlite_service_def and_then_def
        found_or_def checked_def)
  then show ?thesis using assms(4) [OF during_read [OF assms(2) o(2)] o(2)] by (simp add: passes_request)
qed

lemma passes_refused:
  assumes "session L s0 token who" "during X s0 n s" "\<And>t. during X s0 n t \<Longrightarrow> outside_db s t \<Longrightarrow> passes (k (Inl (Failed e))) t"
    and "\<not> can_decide (inv_role who) \<and> e = ApiForbidden ''only investigator or admin roles may record a decision''
      \<or> can_decide (inv_role who) \<and> (\<exists>m. decision_from_str (dq_decision req) = Inl m \<and> e = ApiBadRequest m)"
  shows "passes (and_then (oneshot X L (test_app X L) (bearer token) (SubmitDecision i req)) k) s"
proof -
  let ?u = "s\<lparr>env_ticks := Suc (env_ticks s)\<rparr>"
  have o: "outside_db s ?u" by simp
  have "serve X (tl_auth L) (test_app X L) (bearer token) (SubmitDecision i req) s = (Inl (Failed e), ?u)"
    using assms(4) session_user [OF assms(1,2)]
    by (auto simp: answer_def api_submit_decision_def and_then_def decide_def checked_def require_decision_role_def)
  then show ?thesis using assms(3) [OF during_read [OF assms(2) o] o] by (simp add: passes_request)
qed

lemma passes_decides:
  assumes "test_env s0" "session L s0 token who" "during X s0 n s" "n \<le> 18" "sql_amap X s i = Some a"
    and "can_decide (inv_role who)" "decision_from_str (dq_decision req) = Inr d" "trim (dq_rationale req) \<noteq> []"
    and "\<And>rec t. during X s0 (n + 2) t \<Longrightarrow> sql_amap X t i = Some (a\<lparr>al_status := status_of_decision d\<rparr>)
      \<Longrightarrow> passes (k (Inr (JsonDecision rec))) t"
  shows "passes (and_then (oneshot X L (test_app X L) (bearer token) (SubmitDecision i req)) k) s"
proof -
  let ?u = "s\<lparr>env_ticks := Suc (env_ticks s)\<rparr>"
  have o: "outside_db s ?u" by simp
  have u: "during X s0 n ?u" by (rule during_read [OF assms(3) o]) simp_all
  note w = u [unfolded during_def]
  have n: "no_repeats (?u\<lparr>env_uuids := Suc (env_uuids ?u)\<rparr>)" using during_fresh [OF assms(1) u, of 1] assms(4) by simp
  have "sql_amap X ?u i = Some a" using outside_invs(2) [OF o, of X] assms(5) by simp
  with decision_run [of X ?u i a "inv_id who" d "dq_rationale req"] w n obtain rec t where
    t: "submit_decision X (sqlite_service X) i (inv_id who) d (dq_rationale req) ?u = (Inr rec, t)" "same_oracles ?u t" "working X t"
      "env_uuids t = Suc (Suc (env_uuids ?u))" "decision_stored X ?u i (inv_id who) d (dq_rationale req) rec t" by blast
  have "during X s0 (n + 2) t" using t(2-4) w by (simp add: during_def same_oracles_def)
  moreover have "sql_amap X t i = Some (a\<lparr>al_status := status_of_decision d\<rparr>)"
    using t(5) \<open>sql_amap X ?u i = Some a\<close> by (simp add: decision_stored_def update_alert_def)
  moreover obtain f where "cr_json X v = Inr (f v)" for v using workingD(4) w unfolding json_writes_def by metis
  then have "serve X (tl_auth L) (test_app X L) (bearer token) (SubmitDecision i req) s = (Inr (JsonDecision rec), t)"
    using session_user [OF assms(2,3)] t(1) assms(6-8)
    by (simp add: answer_def api_submit_decision_def and_then_def decide_def checked_def require_decision_role_def domain_call_Inr
        hash_decision_def noop_anchor_def)
  ultimately show ?thesis using assms(9) by (simp add: passes_request)
qed

section \<open>The model passes them\<close>

theorem health_test: "libs_ok X L \<Longrightarrow> test_env s \<Longrightarrow> passes (health_check_is_public X L) s"
  unfolding health_check_is_public_def
  by (erule passes_state) (simp_all add: passes_request oneshot_def outcome_of_def passes_def and_then_def status_of_def assert_that_def)

theorem unauthenticated_test:
  "libs_ok X L \<Longrightarrow> test_env s \<Longrightarrow> passes (unauthenticated_requests_to_alerts_are_rejected X L) s"
  unfolding unauthenticated_requests_to_alerts_are_rejected_def
  by (erule passes_state)
    (simp_all add: oneshot_def outcome_of_def passes_def and_then_def status_of_def assert_that_def answer_def api_list_alerts_def
      authenticated_def auth_user_def token_from_parts_def bearer_token_def no_parts_def map_err_act_def ok_or_def failure_response_def
      error_response_def)

lemma large_transfer:
  "dec_value amount = 999999 \<Longrightarrow> suspicious rules_config_default F (pipeline_tx i now source target asset_native amount)"
  by (simp add: suspicious_def pipeline_tx_def transfer_threshold_def rules_config_default_def dec_value_def dec_of_nat_def)

lemma flagged_target: "target \<in> F \<Longrightarrow> suspicious cfg F (pipeline_tx i now source target asset amount)"
  by (auto simp: suspicious_def pipeline_tx_def)

lemma registered_kept: "db_investigators t = db_investigators s \<Longrightarrow> registered A s username password who \<Longrightarrow> registered A t username password who"
  by (simp add: registered_def)

lemma kept_alert: "outside_db s t \<Longrightarrow> sql_amap X s i = Some a \<Longrightarrow> sql_amap X t i = Some a"
  using outside_invs(2) [of s t X] by simp

lemma opened_alert: "alert_opened X st tx s i t \<Longrightarrow> \<exists>a. sql_amap X t i = Some a"
  by (auto simp: alert_opened_def)

lemma unwrap_some_value: "and_then (unwrap_some (Some x)) k = k x"
  by (simp add: fun_eq_iff unwrap_some_def and_then_def)

text \<open>A large transfer through the pipeline, and the login of the user.\<close>

lemma passes_large_transfer:
  assumes "libs_ok X L" "test_env s0" "one_session s0" "username \<noteq> ''admin''" "dec_value amount = 999999"
    and "\<And>i a token who t. during X s0 6 t \<Longrightarrow> sql_amap X t i = Some a \<Longrightarrow> session L s0 token who \<Longrightarrow> inv_role who = role
      \<Longrightarrow> passes (k (test_app X L) i token) t"
  shows "passes (and_then (test_user X L username password role) (\<lambda>st. and_then utc_now (\<lambda>now.
      and_then (unwrap (process_transaction X st (pipeline_tx x now source target asset_native amount))) (\<lambda>found.
      and_then (unwrap_some found) (\<lambda>i. and_then (test_login X L st username password) (k st i)))))) s0"
proof (rule passes_user [OF assms(1,2,4)], goal_cases)
  case (1 s1 who)
  note user = 1
  show ?case
  proof (rule passes_now [OF user(1)], goal_cases)
    case (1 now s2)
    show ?case
    proof (rule passes_process [OF assms(2) 1(1) _ large_transfer [OF assms(5)]], goal_cases)
      case (2 i s3)
      obtain a where a: "sql_amap X s3 i = Some a" using opened_alert [OF 2(3)] by blast
      have reg: "registered (tl_auth L) s3 username password who"
        by (rule registered_kept [OF _ user(2)]) (use 1(2) 2(2) in \<open>simp add: outside_db_def\<close>)
      show ?case
        by (rule passes_login [OF assms(1,3) 2(1) reg], rule assms(6) [OF _ _ _ user(3)]) (simp_all add: kept_alert [OF _ a])
    qed simp
  qed
qed

theorem viewer_test:
  assumes "libs_ok X L" "test_env s" "one_session s" "cr_dec_parse X ''999999'' = Some amount" "dec_value amount = 999999"
  shows "passes (viewer_role_can_read_but_not_decide X L) s"
  unfolding viewer_role_can_read_but_not_decide_def assms(4) unwrap_some_value
proof (rule passes_large_transfer [OF assms(1-3) _ assms(5)], goal_cases)
  case (2 i a token who t)
  show ?case
  proof (rule passes_alert_requests [OF 2(3,1,2), where r = "Inr (JsonAlert a)"], goal_cases)
    case (1 u)
    show ?case unfolding passes_assert(2)
      by (intro conjI passes_refused [OF 2(3) 1(1)])
        (use 2(4) in \<open>simp_all add: status_of_def failure_response_def error_response_def can_decide_def\<close>)
  qed simp
qed simp

theorem ai_advisory_test:
  assumes "libs_ok X L" "test_env s" "one_session s" "cr_dec_parse X ''999999'' = Some amount" "dec_value amount = 999999"
  shows "passes (ai_advisory_cannot_be_submitted_as_a_decision X L) s"
  unfolding ai_advisory_cannot_be_submitted_as_a_decision_def assms(4) unwrap_some_value
proof (rule passes_large_transfer [OF assms(1-3) _ assms(5)], goal_cases)
  case (2 i a token who t)
  have role: "can_decide (inv_role who)" using 2(4) by (simp add: can_decide_def)
  obtain m where bogus: "decision_from_str ''risk_level_critical_recommend_freeze'' = Inl m"
    by (simp add: decision_from_str_def)
  show ?case
  proof (rule passes_alert_requests [OF 2(3,1,2), where r = "Inr (JsonAiStatus (al_ai_status a))"], goal_cases)
    case (1 u)
    note a = kept_alert [OF 1(2) 2(2)]
    show ?case unfolding passes_assert(2)
    proof (intro conjI passes_refused [OF 2(3) 1(1), where e = "ApiBadRequest m"], goal_cases)
      case (2 v)
      note a = kept_alert [OF 2(2) a]
      show ?case unfolding passes_assert(2)
        by (intro conjI passes_decides [OF assms(2) \<open>session L s token who\<close> 2(1) _ a role, where d = decision.Escalated])
          (simp_all add: status_of_def failure_response_def error_response_def decision_from_str_def, code_simp)
    qed (use bogus role in \<open>simp_all add: status_of_def\<close>)
  qed simp
qed simp

section \<open>The full pipeline\<close>

text \<open>
  What is relied on about the derived codecs, besides that they read what they write: the rules of
  triggers, and the constructors of a status and of an event, are read back as they were written.
\<close>

definition reads_kinds :: "crates \<Rightarrow> bool" where
  "reads_kinds X \<longleftrightarrow> (\<forall>ts. map rt_rule_id (reread (cr_triggers X) ts) = map rt_rule_id ts)
     \<and> (\<forall>reason now. \<exists>reason' now'. reread (cr_ai_status X) (Unavailable reason now) = Unavailable reason' now')
     \<and> (\<forall>x rs sev score. \<exists>x' rs' sev' score'. reread (cr_event X) (AlertCreated x rs sev score) = AlertCreated x' rs' sev' score')
     \<and> (\<forall>reason. \<exists>reason'. reread (cr_event X) (AiAdvisoryUnavailable reason) = AiAdvisoryUnavailable reason')"

lemma passes_flag:
  assumes "during X s0 n s"
    and "\<And>t. during X s0 n t \<Longrightarrow> db_investigators t = db_investigators s \<Longrightarrow> account \<in> flr_account_id ` set (db_flagged t) \<Longrightarrow> passes (k ()) t"
  shows "passes (and_then (unwrap (flagged_add X account reason by)) k) s"
proof -
  have f: "env_faults s = (\<lambda>_. None)" and w: "working X s"
    using assms(1) workingD(3) [of X s] by (auto simp: during_def healthy_def)
  define flagged where "flagged = (if account \<in> flr_account_id ` set (db_flagged s)
    then update_where (\<lambda>r. flr_account_id r = account) (\<lambda>r. r\<lparr>flr_reason := reason\<rparr>) (db_flagged s)
    else db_flagged s @ [\<lparr>flr_account_id = account, flr_reason = reason, flr_added_by = by,
      flr_created_at = cr_rfc3339 X (env_clock s (env_ticks s))\<rparr>])"
  define t where "t = s\<lparr>env_ticks := Suc (env_ticks s), env_calls := Suc (env_calls s), db_flagged := flagged\<rparr>"
  have add: "flagged_add X account reason by s = (Inr (), t)"
    by (simp add: f flagged_add_def and_then_def utc_now_def map_err_act_def execute_def sql_call_def upsert_flagged_def t_def flagged_def)
  have t: "env_uuids t = env_uuids s" "env_uuid_src t = env_uuid_src s" "env_clock t = env_clock s" "env_faults t = env_faults s"
    "env_ticks s \<le> env_ticks t" "review_kept s t" "db_transactions t = db_transactions s" "db_investigators t = db_investigators s" "db_flagged t = flagged"
    by (simp_all add: t_def review_kept_def)
  have "account \<in> flr_account_id ` set flagged"
    by (auto simp: flagged_def update_where_def image_iff intro: rev_bexI)
  moreover have "working X t"
    using workingD(6) [OF w] t by (intro working_users [OF w]) (simp_all add: same_oracles_def)
  then have "during X s0 n t" using t(1-3) assms(1) by (simp add: during_def)
  ultimately show ?thesis using assms(2) t(8,9) add by (simp add: passes_unwrap)
qed

lemma collected: "collect_results f xs = Inr ys \<Longrightarrow> y \<in> set ys \<Longrightarrow> \<exists>x. f x = Inr y"
  by (auto simp: collect_results_Inr_iff list_all2_conv_all_nth in_set_conv_nth)

lemma records_reread:
  assumes "sqlite_list_for_alert X i s = (Inr rs, t)"
  shows "\<forall>r \<in> set rs. of_text (cr_event X) (ar_event_json r) = Inr (ar_event r)"
proof
  fix r assume r: "r \<in> set rs"
  from assms obtain rows u where "lift_res (collect_results (read_record X) rows) u = (Inr rs, t)"
    unfolding sqlite_list_for_alert_def select_records_def by (rule and_then_InrE)
  then have "collect_results (read_record X) rows = Inr rs" by simp
  from collected [OF this r] obtain row where "read_record X row = Inr r" by blast
  then show "of_text (cr_event X) (ar_event_json r) = Inr (ar_event r)"
    by (auto simp: read_record_def row_to_record_def res_bind_Inr_iff)
qed

lemma passes_trail:
  assumes "during X s0 n s"
    and "\<And>rs t. during X s0 n t \<Longrightarrow> outside_db s t \<Longrightarrow> map entry_of rs = filter (\<lambda>e. ae_alert_id e = Some i) (sql_log X s)
      \<Longrightarrow> \<forall>r \<in> set rs. of_text (cr_event X) (ar_event_json r) = Inr (ar_event r) \<Longrightarrow> passes (k rs) t"
  shows "passes (and_then (unwrap (audit_history (sqlite_service X) i)) k) s"
proof -
  have w: "working X s" using assms(1) by (simp add: during_def)
  obtain rs t where t: "sqlite_list_for_alert X i s = (Inr rs, t)" "outside_db s t"
    using alert_reads_answer(3) [OF workingD(1) [OF w] workingD(3) [OF w], of i] by (auto simp: answers_def)
  have "env_uuids t = env_uuids s"
    using t(1) unfolding sqlite_list_for_alert_def select_records_def by (auto elim!: and_then_InrE map_err_act_cases query_cases)
  then have "during X s0 n t" by (rule during_read [OF assms(1) t(2)])
  moreover have "map entry_of rs = filter (\<lambda>e. ae_alert_id e = Some i) (sql_log X s)"
    using sqlite_review.list_for_alert_ok [OF workingD(1) [OF w], of i rs t] t(1) by simp
  moreover have "\<forall>r \<in> set rs. of_text (cr_event X) (ar_event_json r) = Inr (ar_event r)"
    by (rule records_reread [OF t(1)])
  ultimately have "passes (k rs) t" using assms(2) t(2) by blast
  with t(1) show ?thesis by (simp add: audit_history_def sqlite_service_def map_err_act_def passes_unwrap)
qed

text \<open>What the test reads: the alert, and the log entries for it.\<close>

lemma flagged_rule:
  assumes "a \<in> ec_flagged_accounts ctx" "a \<in> set (involved_accounts (ec_tx ctx))"
  shows "''flagged_account_interaction'' \<in> rt_rule_id ` set (evaluate_all (with_built_ins X) ctx)"
proof -
  have "flagged_trigger a \<in> set (rule_evaluate flagged_account_rule ctx)"
    using assms by (simp add: flagged_account_rule_def flagged_account_eval_def)
  then show ?thesis
    by (force simp: evaluate_all_def with_built_ins_def built_in_rules_def flagged_trigger_def trigger_def)
qed

lemma opened_flagged:
  assumes "reads_kinds X" "alert_opened X st tx s i t" "a \<in> flr_account_id ` set (db_flagged s)" "a \<in> set (involved_accounts tx)"
  shows "\<exists>al. sql_amap X t i = Some al \<and> al_status al = Open
    \<and> (\<exists>reason now. al_ai_status al = Unavailable reason now)
    \<and> list_ex (\<lambda>r. rt_rule_id r = ''flagged_account_interaction'') (al_triggered_rules al)"
proof -
  obtain al h now where al: "sql_amap X t i = Some al" "al_status al = Open"
    "al_ai_status al = stored_ai X (Unavailable (advisor_error_text AdvNotConfigured) now)"
    "al_triggered_rules al = reread (cr_triggers X)
       (evaluate_all (with_built_ins X) (evaluation_ctx st tx h (set (map flr_account_id (db_flagged s)))))"
    using assms(2) unfolding alert_opened_def by blast
  let ?ts = "evaluate_all (with_built_ins X) (evaluation_ctx st tx h (set (map flr_account_id (db_flagged s))))"
  have "''flagged_account_interaction'' \<in> rt_rule_id ` set ?ts"
    by (rule flagged_rule [of a]) (use assms(3,4) in \<open>simp_all add: evaluation_ctx_def\<close>)
  moreover have "map rt_rule_id (al_triggered_rules al) = map rt_rule_id ?ts"
    using assms(1) al(4) by (simp add: reads_kinds_def)
  then have "rt_rule_id ` set (al_triggered_rules al) = rt_rule_id ` set ?ts"
    by (metis list.set_map)
  ultimately have "''flagged_account_interaction'' \<in> rt_rule_id ` set (al_triggered_rules al)" by simp
  then have "list_ex (\<lambda>r. rt_rule_id r = ''flagged_account_interaction'') (al_triggered_rules al)"
    unfolding list_ex_iff image_iff by metis
  then show ?thesis using al assms(1) by (auto simp: stored_ai_def reads_kinds_def)
qed

lemma opened_trail:
  assumes "reads_kinds X" "codecs_ok X" "alert_opened X st tx s i t"
    and "map entry_of rs = filter (\<lambda>e. ae_alert_id e = Some i) (sql_log X t)"
    and "\<forall>r \<in> set rs. of_text (cr_event X) (ar_event_json r) = Inr (ar_event r)"
  shows "list_ex (\<lambda>r. case ar_event r of AlertCreated _ _ _ _ \<Rightarrow> True | _ \<Rightarrow> False) rs"
    "list_ex (\<lambda>r. case ar_event r of AiAdvisoryUnavailable _ \<Rightarrow> True | _ \<Rightarrow> False) rs"
proof -
  obtain q1 q3 rs' sev score where log: "entry_of q1 \<in> set (sql_log X t)" "entry_of q3 \<in> set (sql_log X t)"
    and q: "records_event X (alert_event (AlertCreated (tx_id tx) rs' sev score) i (tx_id tx)) q1"
      "records_event X (alert_event (AiAdvisoryUnavailable (advisor_error_text AdvNotConfigured)) i (tx_id tx)) q3"
    using assms(3) unfolding alert_opened_def by force
  have event: "\<exists>r \<in> set rs. ar_event r = reread (cr_event X) ev"
    if "records_event X (alert_event ev i x) p" "entry_of p \<in> set (sql_log X t)" for ev x p
  proof -
    have "ar_alert_id p = Some i" "to_text (cr_event X) ev = Inr (ar_event_json p)"
      using that(1) by (simp_all add: records_event_def alert_event_def for_tx_def for_alert_def new_event_def)
    moreover have "codec_readable (cr_event X)" using assms(2) by (simp add: codecs_ok_def)
    then obtain tx where "to_text (cr_event X) ev = Inr tx" "of_text (cr_event X) tx = Inr (reread (cr_event X) ev)"
      by (rule codec_readableE)
    ultimately have p: "of_text (cr_event X) (ar_event_json p) = Inr (reread (cr_event X) ev)"
      and "entry_of p \<in> set (map entry_of rs)" using that(2) assms(4) by simp_all
    then obtain r where r: "r \<in> set rs" "entry_of r = entry_of p" by auto
    then have "ar_event_json r = ar_event_json p" by (metis entry_of_sel(4))
    with r(1) p assms(5) show ?thesis by fastforce
  qed
  from event [OF q(1) log(1)] event [OF q(2) log(2)] assms(1)
  show "list_ex (\<lambda>r. case ar_event r of AlertCreated _ _ _ _ \<Rightarrow> True | _ \<Rightarrow> False) rs"
    "list_ex (\<lambda>r. case ar_event r of AiAdvisoryUnavailable _ \<Rightarrow> True | _ \<Rightarrow> False) rs"
    unfolding reads_kinds_def list_ex_iff by (metis audit_event_kind.simps)+
qed

lemma passes_found:
  assumes "during X s0 n s" "sql_amap X s i = Some a"
    and "\<And>t. during X s0 n t \<Longrightarrow> outside_db s t \<Longrightarrow> passes (k a) t"
  shows "passes (and_then (unwrap (get_alert (sqlite_service X) i)) (\<lambda>found. and_then (unwrap_some found) k)) s"
proof -
  have "outside_db s (s\<lparr>env_calls := Suc (env_calls s)\<rparr>)" by (simp add: outside_db_def same_oracles_def)
  from assms(3) [OF during_read [OF assms(1) this] this] show ?thesis
    using assms(1) by (intro passes_get [OF _ assms(2)]) (simp_all add: during_def)
qed

theorem full_pipeline_test:
  assumes "libs_ok X L" "test_env s" "one_session s" "cr_dec_parse X ''10'' = Some amount" "reads_kinds X"
  shows "passes (full_pipeline_creates_alert_with_unavailable_ai_and_investigator_can_decide X L) s"
  unfolding full_pipeline_creates_alert_with_unavailable_ai_and_investigator_can_decide_def assms(4) unwrap_some_value Let_def
proof (rule passes_user [OF assms(1,2)], goal_cases)
  case (2 s1 who)
  note user = 2
  have role: "can_decide (inv_role who)" using 2(3) by (simp add: can_decide_def)
  show ?case
  proof (rule passes_now [OF user(1)], goal_cases)
    case (1 now s2)
    note inv2 = 1(2)
    show ?case
    proof (rule passes_flag [OF 1(1)], goal_cases)
      case (1 s3)
      let ?tx = "pipeline_tx ''tx-full-pipeline'' now ''GFLAGGEDSRC'' ''GBADACTOR'' \<lparr>as_code = ''USDC'', as_issuer = Some ''GISSUER''\<rparr> amount"
      have sus: "suspicious rules_config_default (set (map flr_account_id (db_flagged s3))) ?tx"
        by (rule flagged_target) (use 1(3) in simp)
      note flagged = 1(2,3)
      show ?case
      proof (rule passes_process [OF assms(2) 1(1) _ sus], goal_cases)
        case (2 i s4)
        have inv: "''GBADACTOR'' \<in> set (involved_accounts ?tx)" by (simp add: set_involved_accounts pipeline_tx_def)
        obtain a where a: "sql_amap X s4 i = Some a" "al_status a = Open" "\<exists>reason now. al_ai_status a = Unavailable reason now"
          "list_ex (\<lambda>r. rt_rule_id r = ''flagged_account_interaction'') (al_triggered_rules a)"
          using opened_flagged [OF assms(5) 2(3) flagged(2) inv] by blast
        have reg: "registered (tl_auth L) s4 ''inv1'' ''inv-pass'' who"
          by (rule registered_kept [OF _ user(2)]) (use inv2 flagged(1) 2(2) in \<open>simp add: outside_db_def\<close>)
        note opened = 2(3)
        show ?case unfolding test_app
        proof (rule passes_found [OF 2(1) a(1)], goal_cases)
          case (1 s5)
          note o5 = 1(2)
          have c: "case al_ai_status a of Unavailable _ _ \<Rightarrow> True | _ \<Rightarrow> False" using a(3) by auto
          show ?case unfolding passes_assert(2)
          proof (intro conjI c a(2,4) passes_trail [OF 1(1)], goal_cases)
            case (1 trail s6)
            have "map entry_of trail = filter (\<lambda>e. ae_alert_id e = Some i) (sql_log X s4)"
              using 1(3) outside_invs(4) [OF o5, of X] by simp
            note trail = opened_trail [OF assms(5) _ opened this 1(4)]
            have "codecs_ok X" using assms(1) by (simp add: libs_ok_def)
            note trail = trail [OF this]
            have a6: "sql_amap X s6 i = Some a" by (rule kept_alert [OF 1(2) kept_alert [OF o5 a(1)]])
            have reg: "registered (tl_auth L) s6 ''inv1'' ''inv-pass'' who"
              by (rule registered_kept [OF _ reg]) (use o5 1(2) in \<open>simp add: outside_db_def\<close>)
            show ?case unfolding passes_assert(2)
            proof (intro conjI trail passes_login [OF assms(1,3) 1(1) reg], goal_cases)
              case (1 token s7)
              note session = 1(3)
              show ?case
              proof (rule passes_decides [OF assms(2) session 1(1) _ kept_alert [OF 1(2) a6] role, where d = ConfirmedSuspicious], goal_cases)
                case (4 rec s8)
                show ?case unfolding passes_assert(2)
                  by (intro conjI passes_alert_requests [OF session 4, where
                        r = "Inr (JsonAlert (a\<lparr>al_status := status_of_decision ConfirmedSuspicious\<rparr>))"])
                    (simp_all add: status_of_def status_of_decision_def alert_status_str_def)
              qed (simp_all add: decision_from_str_def, code_simp)
            qed
          qed
        qed
      qed simp
    qed
  qed
qed simp

section \<open>The assumptions can hold\<close>

text \<open>
  Codecs that keep the kinds, a password that is its own hash, tokens that number the claims, an
  in-memory database, and an environment whose clock stands still.
\<close>

definition kinds_crates :: crates where
  "kinds_crates = sample_crates
     \<lparr>cr_event := \<lparr>to_text = (\<lambda>e. Inr (case e of AlertCreated _ _ _ _ \<Rightarrow> ''created'' | _ \<Rightarrow> ''unavailable'')),
        of_text = (\<lambda>t. Inr (if t = ''created'' then AlertCreated [] [] Low 0 else AiAdvisoryUnavailable []))\<rparr>,
      cr_triggers := \<lparr>to_text = (\<lambda>ts. to_text strings_codec (map rt_rule_id ts)),
        of_text = (\<lambda>t. res_bind (of_text strings_codec t) (\<lambda>ids.
          Inr (map (\<lambda>i. trigger i [] 0 [] JNull) ids)))\<rparr>,
      cr_ai_status := const_codec (Unavailable [] 0)\<rparr>"

definition claims_number :: "claims \<Rightarrow> nat" where
  "claims_number c = to_nat (clm_sub c, clm_username c, clm_role c, clm_exp c)"

definition claims_numbered :: "nat \<Rightarrow> claims" where
  "claims_numbered n = (case from_nat n of (sub, name, role, final) \<Rightarrow>
     \<lparr>clm_sub = sub, clm_username = name, clm_role = role, clm_exp = final\<rparr>)"

definition number_auth :: auth_crates where
  "number_auth =
     \<lparr>ac_hash_password = (\<lambda>salt p. Inr p), ac_verify_password = (\<lambda>p h. Some (p = h)),
      ac_encode = (\<lambda>c k. Inr (replicate (claims_number c) (CHR ''a''))),
      ac_decode = (\<lambda>t k now. Inr (claims_numbered (length t))), ac_header_str = Some\<rparr>"

definition kinds_libs :: "node test_libs" where
  "kinds_libs =
     \<lparr>tl_auth = number_auth, tl_parse_raw = no_parser, tl_pages = no_pages,
      tl_sqlx = \<lparr>sx_parse = (\<lambda>url. Inr \<lparr>co_target = url, co_create_if_missing = False, co_foreign_keys = False\<rparr>),
                 sx_open = (\<lambda>_ _ s. (Inr (), empty_db s)), sx_migrate = ok ()\<rparr>,
      tl_admin_salt = ''pepper'', tl_user_salt = ''salt''\<rparr>"

lemma kinds_crates_ok: "codecs_ok kinds_crates" "json_writes kinds_crates" "reads_kinds kinds_crates"
proof -
  obtain f where f: "to_text strings_codec ss = Inr (f ss)" "of_text strings_codec (f ss) = Inr ss" for ss
    using strings_codec_exact unfolding codec_exact_def by metis
  have rule: "rt_rule_id (trigger i a w b c) = i" for i a w b c by (simp add: trigger_def)
  show "codecs_ok kinds_crates"
    using sample_codecs_ok f by (simp add: codecs_ok_def kinds_crates_def codec_readable_def) (simp add: const_codec_def)
  show "json_writes kinds_crates" by (simp add: json_writes_def kinds_crates_def sample_crates_def)
  show "reads_kinds kinds_crates"
    by (simp add: reads_kinds_def kinds_crates_def reread_def f const_codec_def rule comp_def)
qed

lemma number_auth_ok: "tokens_ok number_auth"
proof -
  have "claims_numbered (claims_number c) = c" for c by (simp add: claims_numbered_def claims_number_def)
  then show ?thesis by (simp add: tokens_ok_def number_auth_def token_char_def list_all_length)
qed

theorem test_assumptions_hold:
  "libs_ok kinds_crates kinds_libs \<and> reads_kinds kinds_crates
   \<and> test_env (sample_node\<lparr>env_clock := \<lambda>_. 0\<rparr>) \<and> one_session (sample_node\<lparr>env_clock := \<lambda>_. 0\<rparr>)
   \<and> map_option dec_value (cr_dec_parse kinds_crates ''999999'') = Some 999999 \<and> cr_dec_parse kinds_crates ''10'' \<noteq> None"
proof -
  let ?s = "sample_node\<lparr>env_clock := \<lambda>_. 0\<rparr>"
  have src: "env_uuid_src sample_node = (\<lambda>n. of_nat n)" "env_uuids sample_node = 0" "env_faults sample_node = (\<lambda>_. None)"
    by (simp_all add: sample_node_def healthy_db_def sample_db_def db.defs node.defs)
  have "no_repeats (?s\<lparr>env_uuids := 20\<rparr>)" by (rule of_nat_no_repeats) (simp_all add: src)
  then have "test_env ?s" by (simp add: test_env_def no_repeats_def healthy_def src(2,3))
  moreover have "one_session ?s" by (simp add: one_session_def src hours_def seconds_def)
  moreover have "libs_ok kinds_crates kinds_libs"
    using kinds_crates_ok number_auth_ok
    by (simp add: libs_ok_def kinds_libs_def opens_memory_def) (simp add: number_auth_def)
  moreover have "parse_digits ''999999'' = Some 999999" "parse_digits ''10'' = Some 10"
    by (simp_all add: parse_digits_def digits_val_def is_digit_def)
  then have "map_option dec_value (cr_dec_parse kinds_crates ''999999'') = Some 999999" "cr_dec_parse kinds_crates ''10'' \<noteq> None"
    by (simp_all add: kinds_crates_def sample_crates_def dec_value_def dec_of_nat_def)
  ultimately show ?thesis using kinds_crates_ok(3) by simp
qed

end
