(* ===== verification/Spec2Isabelle.thy ===== *)
theory Spec2Isabelle
  imports WorkingProps Agreement Divergences TestsRules TestsAdvisor TestsAnchor TestsReview TestsIngestion TestsStorage TestsApi
begin

text \<open>
  StellarRisk: a verification library of the transaction-monitoring service.

  The program. A background loop polls a transaction source (Horizon, or a synthetic one), stores
  each transaction, evaluates six rules on it and the recent history of its account, and opens an
  alert when a rule fires; an AI provider may add an advisory to the alert. Investigators see the
  alerts in a dashboard or through a JSON API and record decisions, which alone change the status of
  an alert. Every event goes into a hash-chained log, and a decision's hash is optionally anchored in
  a contract on the Stellar network. Everything runs over one SQLite database.

  \<^bold>\<open>How the code is modelled.\<close> A Rust function that touches the world is an action: it maps a state to
  a result, an error or a value, and the next state (\<open>Prelude\<close>: \<open>and_then\<close> is the \<open>?\<close> operator). The
  state is one record, extended layer by layer: the environment \<open>env\<close> (\<open>Crates\<close>: clock, identifiers,
  database faults, HTTP exchanges and delays, each an oracle consumed value by value), the database
  \<open>db\<close> (\<open>SqlDb\<close>: the tables of \<open>0001_init.sql\<close> as lists of rows), and the host \<open>node\<close> (\<open>Anchor\<close>: programs
  that are started). A trait object is a record of operations. Third-party functions are parameters,
  the fields of the records \<open>crates\<close>, \<open>auth_crates\<close>, \<open>horizon_codec\<close> and \<open>sqlx\<close>; what is relied on about them is
  stated as a named predicate (\<open>codecs_ok\<close>, \<open>rfc3339_ordered\<close>, \<open>tokens_ok\<close>, \<open>uuid_texts\<close>,
  \<open>json_writes\<close>, \<open>sqlx_keeps_rows\<close>) and is a hypothesis of the theorems that need it, never an axiom. A panic is a
  value (\<open>None\<close>, or \<open>Panicked\<close> in a handler). A Rust string is its UTF-8 bytes. An \<open>f64\<close> or \<open>f32\<close> is the
  rational number it denotes, with every operation rounded as IEEE 754 does (\<open>Floats\<close>); NaN,
  infinities and the sign of zero do not occur in this program's inputs and are left out.

  \<^bold>\<open>Theories and the code they model\<close> (under \<open>src/crates\<close>).
  \<open>Domain\<close>: the crate \<open>domain\<close>.
  \<open>RulesEngine\<close>, \<open>RulesProps\<close>: the crate \<open>rules_engine\<close> (rules, registry, scoring) and its properties.
  \<open>AuditChain\<close>, \<open>AuditStore\<close>: the crate \<open>audit\<close> (hashing and verification; the \<open>AuditStore\<close> trait and the
  in-memory store).
  \<open>Alerts\<close>, \<open>Review\<close>: the crate \<open>alerts\<close> (trait, in-memory store, service) and the review workflow
  over any pair of stores.
  \<open>AiAdvisor\<close>: the crate \<open>ai_advisor\<close>. \<open>Ingestion\<close>: the crate \<open>ingestion\<close>.
  \<open>SqlDb\<close>, \<open>SqlAudit\<close>, \<open>SqlAlerts\<close>, \<open>Repos\<close>, with \<open>ReviewProps\<close> and \<open>RepoProps\<close>: the crate \<open>storage\<close>,
  statement by statement.
  \<open>Anchor\<close>: \<open>soroban_anchor\<close>, the command-line client and the contract.
  \<open>Auth\<close>, \<open>AuthProps\<close>: \<open>api/error.rs\<close>, \<open>api/auth.rs\<close>, \<open>api/routes/auth.rs\<close>.
  \<open>Pipeline\<close>, \<open>PipelineProps\<close>, \<open>DetectProps\<close>: \<open>api/state.rs\<close>, \<open>api/pipeline.rs\<close>.
  \<open>Routes\<close>: the JSON handlers. \<open>Html\<close>, \<open>Dashboard\<close>, \<open>DashboardProps\<close>, \<open>PageProps\<close>: \<open>api/html.rs\<close> and the
  pages.
  \<open>Server\<close>, \<open>ServerProps\<close>, \<open>TableProps\<close>: the router and the whole server, request after request.
  \<open>Tasks\<close>, \<open>Concurrent\<close>, \<open>ConcurrentProps\<close>, \<open>OverlapProps\<close>: the same handlers and the ingestion loop await by
  await, and their interleavings. \<open>Working\<close>, \<open>WorkingProps\<close>: the server on a database that works.
  \<open>Agreement\<close>: under interleaving, each decision belongs to one authorised request.
  \<open>Divergences\<close>: where the stores, and the normalisation, differ from their comments.
  \<open>Bootstrap\<close>, \<open>BootstrapProps\<close>: \<open>api/config.rs\<close>, \<open>api/demo.rs\<close>, \<open>storage/db.rs\<close>, \<open>api/lib.rs\<close>, \<open>api/main.rs\<close>.
  \<open>TestKit\<close>, \<open>TestsRules\<close>, \<open>TestsAdvisor\<close>, \<open>TestsAnchor\<close>, \<open>TestsReview\<close>, \<open>TestsIngestion\<close>,
  \<open>TestsStorage\<close>, \<open>TestsApi\<close>: the tests of the source tree, unit tests and the end-to-end tests of the server, each as an
  executable scenario over the model, and that the model passes it.
  \<open>Samples\<close> holds concrete values of the parameters for the witnesses; \<open>Effects\<close> and \<open>Frames\<close> say what the
  operations leave alone.

  \<^bold>\<open>Interfaces.\<close> \<open>audit_store\<close> and \<open>alert_store\<close> are the contracts of the two traits, over an abstract log, an
  abstract map of alerts and a list of decisions; both stores of each are interpretations, so the
  SQLite statements refine the abstract operations. \<open>review_backend\<close> and \<open>keyed_backend\<close> join the two
  contracts and carry the workflow. \<open>outside_call\<close> is what the server relies on about an AI provider,
  an anchor and a transaction source; the two advisors, two anchors and two sources are its
  interpretations. \<open>state_preorder\<close> composes a relation along early returns and branches;
  \<open>advisory_frame\<close>, \<open>process_frame\<close>, \<open>batch_frame\<close> and \<open>server_frame\<close> carry one through the advisory, a
  transaction, a batch with its turn of the loop, and any run of the server, \<open>task_frame\<close> through every
  await of every handler.

  \<^bold>\<open>What is shown.\<close>
  Rules: what each rule reports exactly, the bounds of score and severity, that the floating-point
  score is the capped exact sum, that adding a rule never lowers a score.
  Log: \<open>verify_chain\<close> finds the first break; two valid logs with the same last hash agree, or there is a
  collision; what verification cannot see; both stores are append-only.
  Review: every outcome of a decision, errors included; the status of an alert is the projection of
  its last decision in every reachable state; advisories never decide; a decision can be stored
  without a log entry.
  Advisor and ingestion: sanitised text and its bounds; when an answer becomes an advisory; retries
  end; no record of a polled page is lost.
  Storage: round trips through the tables, and the history of an account as the mathematical window.
  Anchor: the contract holds the fold of its history; commitments bind the decision.
  Pipeline: an alert is opened exactly when a rule fires; on a working database no suspicious transaction
  is missed; the advisor cannot change the outcome; a rule that never fires here, and what the velocity
  rule counts here; nothing of a batch is lost.
  Web: who is authenticated; a login lasts twelve hours; escaping is one pass and loses nothing; the
  markup of an alert's page does not depend on any text in it; on a working database the page shows what
  is stored; which requests can write, and that
  decisions come from authorised decision requests only.
  Server: a handler that is not interleaved computes what its sequential definition does; from a fresh
  start, under any interleaving of handlers and the ingestion loop at every await and any faults,
  status, decisions and log stay consistent, every stored row can be read, and a decision request
  that was answered with success has its decision and its log entry stored from then on; the decisions
  of a run are matched one to one with authorised requests; two
  overlapping decisions can log a previous status that is not the one before; launched on an empty
  database whose statements do not fail, the server answers every request with a value or a refusal,
  never with an internal error or a panic, and stores and logs every authorised decision; the first
  administrator can log in.

  \<^bold>\<open>Loops and bounds.\<close> Structural recursion and \<open>function\<close> with a measure throughout; the retry loop
  ends by its attempt counter. The endless ingestion loop is \<open>run_source\<close> for a number of turns, and
  any number of them is a run of \<open>server_step\<close>, or of a pool of tasks; no fuel is used anywhere. Sequence numbers, scores and
  counters keep their types (\<open>i64\<close> as \<open>int\<close> where the code cannot overflow it before \<open>2 ^ 63\<close> log records,
  \<open>u32\<close> and the expiry of a token as words).

  \<^bold>\<open>Not modelled.\<close> Log output (\<open>tracing\<close>). What \<open>axum\<close> does before a handler runs (matching a path, rejecting
  a malformed path parameter, query or body) and after it (serialising the answer): a request is a
  constructor of \<open>request\<close>, an answer the value that is serialised. Parallelism inside one await: an SQL
  statement, a transaction of the database, an append to the log (the code holds a \<open>Mutex\<close> over its
  statements) and a call to the AI provider, the anchoring program or the transaction source are one
  step each; the last three reach no table. Overflow panics of \<open>chrono\<close> for dates beyond its range, and ledger
  archival of contract entries. Of \<open>main\<close>, the logging set-up and the listener.
\<close>

end
